(* ===== verification/Prelude.thy ===== *)
theory Prelude
  imports Complex_Main "HOL-Library.Sublist"
begin

section \<open>Shared vocabulary: names, JSON values, string functions of Python\<close>

text \<open>
  The types every component shares, the functions of Python's \<open>str\<close> that the source calls
  (\<^verbatim>\<open>startswith\<close>, \<^verbatim>\<open>strip\<close>, \<^verbatim>\<open>split\<close>, \<^verbatim>\<open>partition\<close>, \<^verbatim>\<open>lower\<close>, \<^verbatim>\<open>lstrip\<close>, \<^verbatim>\<open>isdigit\<close>), JSON
  documents as a datatype, and the development's collections of simplification facts.
  Strings are HOL strings (lists of characters); an argument \<^verbatim>\<open>str | None\<close> is a
  \<^typ>\<open>string option\<close>. Identifiers (\<^verbatim>\<open>uuid.UUID\<close>) are their canonical text.
\<close>

named_theorems model_defs "definitions of plain operations, unfolded by the component proofs"
named_theorems redis_simps "what each Redis command does to the keyspace"

type_synonym uuid = string
type_synonym timestamp = int

subsection \<open>JSON documents\<close>

text \<open>A \<^verbatim>\<open>dict\<close> is an association list in insertion order; a number is a rational.\<close>

datatype json =
    JNull
  | JBool bool
  | JNum rat
  | JStr string
  | JArr "json list"
  | JObj "(string \<times> json) list"

text \<open>Truth value of a Python object (\<^verbatim>\<open>bool(x)\<close>, \<^verbatim>\<open>if x\<close>, \<^verbatim>\<open>x or y\<close>).\<close>

fun json_truthy :: "json \<Rightarrow> bool" where
  "json_truthy JNull = False"
| "json_truthy (JBool b) = b"
| "json_truthy (JNum n) = (n \<noteq> 0)"
| "json_truthy (JStr s) = (s \<noteq> [])"
| "json_truthy (JArr xs) = (xs \<noteq> [])"
| "json_truthy (JObj xs) = (xs \<noteq> [])"

text \<open>\<^verbatim>\<open>d.get(key)\<close> on a dict: \<^const>\<open>JNull\<close> is Python's \<^verbatim>\<open>None\<close>.\<close>

definition obj_get :: "(string \<times> json) list \<Rightarrow> string \<Rightarrow> json" where
  "obj_get d k = (case map_of d k of None \<Rightarrow> JNull | Some v \<Rightarrow> v)"

text \<open>Dict assignment \<^verbatim>\<open>d[k] = v\<close>: the position of an existing key is kept.\<close>

fun assoc_set :: "'k \<Rightarrow> 'v \<Rightarrow> ('k \<times> 'v) list \<Rightarrow> ('k \<times> 'v) list" where
  "assoc_set k v [] = [(k, v)]"
| "assoc_set k v ((k', v') # xs) =
     (if k' = k then (k, v) # xs else (k', v') # assoc_set k v xs)"

lemma map_of_assoc_set [simp]: "map_of (assoc_set k v d) = (map_of d)(k \<mapsto> v)"
  by (induction k v d rule: assoc_set.induct) auto

text \<open>\<^verbatim>\<open>{**a, **b}\<close>: the entries of \<open>b\<close> override those of \<open>a\<close>.\<close>

definition assoc_merge :: "('k \<times> 'v) list \<Rightarrow> ('k \<times> 'v) list \<Rightarrow> ('k \<times> 'v) list" where
  "assoc_merge a b = fold (\<lambda>(k, v) d. assoc_set k v d) b a"

lemma map_of_fold_assoc_set:
  "map_of (fold (\<lambda>(k, v) d. assoc_set k v d) b a) = map_of a ++ map_of (rev b)"
  by (induction b arbitrary: a) (auto simp: map_add_def fun_eq_iff split: option.splits)

lemma map_of_assoc_merge: "distinct (map fst b) \<Longrightarrow> map_of (assoc_merge a b) = map_of a ++ map_of b"
  unfolding assoc_merge_def map_of_fold_assoc_set
  by (metis distinct_rev map_of_eqI map_of_inject_set rev_map rev_rev_ident set_rev)

subsection \<open>Truth values and defaults\<close>

text \<open>\<^verbatim>\<open>if s\<close> and \<^verbatim>\<open>s or d\<close> for a \<^verbatim>\<open>str | None\<close>.\<close>

definition str_truthy :: "string option \<Rightarrow> bool" where
  "str_truthy s \<longleftrightarrow> s \<noteq> None \<and> s \<noteq> Some []"

definition str_or :: "string option \<Rightarrow> string \<Rightarrow> string" where
  "str_or s d = (case s of None \<Rightarrow> d | Some t \<Rightarrow> if t = [] then d else t)"

lemma str_truthy_simps [simp]:
  "\<not> str_truthy None" "str_truthy (Some t) \<longleftrightarrow> t \<noteq> []"
  by (auto simp: str_truthy_def)

lemma str_or_simps [simp]:
  "str_or None d = d" "str_or (Some []) d = d" "t \<noteq> [] \<Longrightarrow> str_or (Some t) d = t"
  by (auto simp: str_or_def)

subsection \<open>Python's string methods\<close>

definition startswith :: "string \<Rightarrow> string \<Rightarrow> bool" where
  "startswith s p \<longleftrightarrow> take (length p) s = p"

lemma startswith_append [simp]: "startswith (p @ s) p"
  by (simp add: startswith_def)

lemma startswith_prefix: "startswith s p \<longleftrightarrow> prefix p s"
  by (metis append_eq_conv_conj append_take_drop_id prefix_def startswith_def)

definition is_space :: "char \<Rightarrow> bool" where
  "is_space c \<longleftrightarrow> (of_char c :: nat) \<in> {9, 10, 11, 12, 13, 28, 29, 30, 31, 32}"

definition lstrip_of :: "(char \<Rightarrow> bool) \<Rightarrow> string \<Rightarrow> string" where
  "lstrip_of p s = dropWhile p s"

definition strip :: "string \<Rightarrow> string" where
  "strip s = rev (dropWhile is_space (rev (dropWhile is_space s)))"

definition lower_char :: "char \<Rightarrow> char" where
  "lower_char c =
     (let n = (of_char c :: nat) in if 65 \<le> n \<and> n \<le> 90 then char_of (n + 32) else c)"

definition upper_char :: "char \<Rightarrow> char" where
  "upper_char c =
     (let n = (of_char c :: nat) in if 97 \<le> n \<and> n \<le> 122 then char_of (n - 32) else c)"

definition lower :: "string \<Rightarrow> string" where
  "lower s = map lower_char s"

definition upper :: "string \<Rightarrow> string" where
  "upper s = map upper_char s"

definition is_digit :: "char \<Rightarrow> bool" where
  "is_digit c \<longleftrightarrow> 48 \<le> (of_char c :: nat) \<and> (of_char c :: nat) \<le> 57"

text \<open>\<^verbatim>\<open>s.isdigit()\<close>: not empty and digits only. \<^verbatim>\<open>int(s)\<close> of such a string.\<close>

definition isdigit :: "string \<Rightarrow> bool" where
  "isdigit s \<longleftrightarrow> s \<noteq> [] \<and> list_all is_digit s"

definition int_of_digits :: "string \<Rightarrow> int" where
  "int_of_digits s = foldl (\<lambda>n c. 10 * n + (int (of_char c) - 48)) 0 s"

lemma int_of_digits_foldl_nonneg:
  "list_all is_digit s \<Longrightarrow> 0 \<le> n \<Longrightarrow> 0 \<le> foldl (\<lambda>n c. 10 * n + (int (of_char c) - 48)) n s"
  by (induction s arbitrary: n) (auto simp: is_digit_def)

lemma int_of_digits_nonneg: "isdigit s \<Longrightarrow> 0 \<le> int_of_digits s"
  by (simp add: isdigit_def int_of_digits_def int_of_digits_foldl_nonneg)

text \<open>\<^verbatim>\<open>str(n)\<close> of an integer, the inverse of \<^const>\<open>int_of_digits\<close>.\<close>

fun str_of_nat :: "nat \<Rightarrow> string" where
  "str_of_nat n = (if n < 10 then [] else str_of_nat (n div 10)) @ [char_of (48 + n mod 10)]"

definition str_of_int :: "int \<Rightarrow> string" where
  "str_of_int i = (if i < 0 then ''-'' @ str_of_nat (nat (- i)) else str_of_nat (nat i))"

declare str_of_nat.simps [simp del]

lemma of_char_digit: "(of_char (char_of (48 + n mod 10) :: char) :: nat) = 48 + n mod 10"
  by simp

lemma int_of_digits_snoc: "int_of_digits (s @ [c]) = 10 * int_of_digits s + (int (of_char c) - 48)"
  by (simp add: int_of_digits_def)

lemma int_of_digits_str [simp]: "int_of_digits (str_of_nat n) = int n"
proof (induction n rule: str_of_nat.induct)
  case (1 n)
  then show ?case
    by (subst str_of_nat.simps) (auto simp: int_of_digits_snoc of_char_digit int_of_digits_def[of "[]"] zmod_int zdiv_int)
qed

lemma str_of_nat_digits: "isdigit (str_of_nat n)"
proof (induction n rule: str_of_nat.induct)
  case (1 n)
  then show ?case
    by (subst str_of_nat.simps) (auto simp: isdigit_def is_digit_def of_char_digit)
qed

lemma str_of_nat_inj [simp]: "str_of_nat m = str_of_nat n \<longleftrightarrow> m = n"
  by (metis int_of_digits_str of_nat_eq_iff)

lemma str_of_int_nonneg: "0 \<le> i \<Longrightarrow> int_of_digits (str_of_int i) = i"
  by (simp add: str_of_int_def)

text \<open>\<^verbatim>\<open>s.split(c)\<close> for one separator character: never an empty list.\<close>

fun split_on :: "char \<Rightarrow> string \<Rightarrow> string list" where
  "split_on c [] = [[]]"
| "split_on c (x # xs) =
     (if x = c then [] # split_on c xs
      else (case split_on c xs of [] \<Rightarrow> [[x]] | w # ws \<Rightarrow> (x # w) # ws))"

lemma split_on_nonempty [simp]: "split_on c s \<noteq> []"
  by (induction c s rule: split_on.induct) (auto split: list.splits)

lemma split_on_no_sep: "w \<in> set (split_on c s) \<Longrightarrow> c \<notin> set w"
  by (induction c s arbitrary: w rule: split_on.induct)
     (auto split: if_splits list.splits)

text \<open>
  \<^verbatim>\<open>field, _, op = key.partition("__")\<close>: the text before the first separator, and the text
  after it (empty when there is none). The separator has two characters here.
\<close>

fun partition2 :: "char \<Rightarrow> string \<Rightarrow> string \<times> string" where
  "partition2 c [] = ([], [])"
| "partition2 c [x] = ([x], [])"
| "partition2 c (x # y # xs) =
     (if x = c \<and> y = c then ([], xs)
      else (let (a, b) = partition2 c (y # xs) in (x # a, b)))"

lemma dropWhile_is_nil: "list_all p s \<Longrightarrow> dropWhile p s = []"
  by (induction s) auto

lemma set_dropWhile_subset: "set (dropWhile p s) \<subseteq> set s"
  by (induction s) auto

lemma set_strip_subset: "set (strip s) \<subseteq> set s"
  unfolding strip_def
  by (metis (no_types, lifting) order_trans set_dropWhile_subset set_rev)

lemma length_strip_le: "length (strip s) \<le> length s"
  unfolding strip_def
  by (metis (no_types, lifting) le_trans length_dropWhile_le length_rev)

subsection \<open>Identifiers\<close>

text \<open>\<^verbatim>\<open>uuid.UUID(s)\<close>: 32 hexadecimal digits, after \<^verbatim>\<open>urn:\<close>, \<^verbatim>\<open>uuid:\<close>, braces and hyphens are removed.\<close>

definition is_hex :: "char \<Rightarrow> bool" where
  "is_hex c \<longleftrightarrow> is_digit c \<or> (97 \<le> (of_char (lower_char c) :: nat) \<and> (of_char (lower_char c) :: nat) \<le> 102)"

fun remove_all :: "string \<Rightarrow> string \<Rightarrow> string" where
  "remove_all p [] = []"
| "remove_all p (c # cs) = (if p \<noteq> [] \<and> startswith (c # cs) p then remove_all p (drop (length p - 1) cs)
     else c # remove_all p cs)"

definition strip_braces :: "string \<Rightarrow> string" where
  "strip_braces s = rev (dropWhile (\<lambda>c. c \<in> {CHR ''{'', CHR ''}''}) (rev (dropWhile (\<lambda>c. c \<in> {CHR ''{'', CHR ''}''}) s)))"

text \<open>The canonical text \<^verbatim>\<open>str(uuid)\<close>: groups of 8, 4, 4, 4 and 12 digits.\<close>

definition hyphenate :: "string \<Rightarrow> string" where
  "hyphenate h = take 8 h @ ''-'' @ take 4 (drop 8 h) @ ''-'' @ take 4 (drop 12 h) @ ''-'' @
     take 4 (drop 16 h) @ ''-'' @ drop 20 h"

definition py_uuid :: "string \<Rightarrow> string option" where
  "py_uuid s = (let h = filter (\<lambda>c. c \<noteq> CHR ''-'') (strip_braces (remove_all ''uuid:'' (remove_all ''urn:'' s)))
     in if length h = 32 \<and> list_all is_hex h then Some (hyphenate (lower h)) else None)"

subsection \<open>Lists of rows\<close>

text \<open>
  A table is a list of rows, a row is found by its key, updated in place or filtered away.
\<close>

definition row_get :: "('r \<Rightarrow> 'k) \<Rightarrow> 'r list \<Rightarrow> 'k \<Rightarrow> 'r option" where
  "row_get key rows k = find (\<lambda>r. key r = k) rows"

definition row_put :: "('r \<Rightarrow> 'k) \<Rightarrow> 'r \<Rightarrow> 'r list \<Rightarrow> 'r list" where
  "row_put key r rows = map (\<lambda>x. if key x = key r then r else x) rows"

lemma find_SomeD: "find p xs = Some x \<Longrightarrow> x \<in> set xs \<and> p x"
  by (auto simp: find_Some_iff)

lemma row_get_Some: "row_get key rows k = Some r \<Longrightarrow> r \<in> set rows \<and> key r = k"
  by (auto simp: row_get_def find_Some_iff)

lemma row_get_None: "row_get key rows k = None \<longleftrightarrow> k \<notin> key ` set rows"
  by (auto simp: row_get_def find_None_iff)

lemma row_get_distinct:
  "distinct (map key rows) \<Longrightarrow> r \<in> set rows \<Longrightarrow> row_get key rows (key r) = Some r"
  by (induction rows) (auto simp: row_get_def image_iff)

lemma map_key_row_put [simp]: "map key (row_put key r rows) = map key rows"
  by (auto simp: row_put_def)

lemma set_row_put:
  "set (row_put key r rows) \<subseteq> insert r (set rows)"
  by (auto simp: row_put_def)

lemma row_get_append: "row_get key (xs @ ys) k =
  (case row_get key xs k of Some r \<Rightarrow> Some r | None \<Rightarrow> row_get key ys k)"
  by (induction xs) (auto simp: row_get_def)

lemma row_get_put: "row_get key (row_put key r rows) k =
  (if k = key r then (if k \<in> key ` set rows then Some r else None) else row_get key rows k)"
  by (induction rows) (auto simp: row_get_def row_put_def)

lemma row_put_same:
  assumes "distinct (map key rows)" "row_get key rows k = Some r"
  shows "row_put key r rows = rows"
proof -
  have r: "r \<in> set rows" using row_get_Some [OF assms(2)] by simp
  have "x = r" if "x \<in> set rows" "key x = key r" for x
    using assms(1) r that by (auto simp: distinct_map inj_on_def)
  then show ?thesis unfolding row_put_def by (intro map_idI) auto
qed

end
