(* ===== verification/Errors.thy ===== *)
theory Errors
  imports Prelude
begin

section \<open>Response envelopes, controlled exceptions and the global exception handlers\<close>

text \<open>
  \<^verbatim>\<open>app/schemas/response.py\<close> (error codes, the response envelopes and their helpers),
  \<^verbatim>\<open>app/exceptions/base.py\<close> (the controlled exception \<^verbatim>\<open>ServerException\<close> and its subclasses) and
  \<^verbatim>\<open>app/exceptions/handlers.py\<close> (what every exception becomes for the client). Every raise of
  the program is a value of type \<open>exn\<close>; a call that may raise returns \<open>exn + 'a\<close>.
\<close>

subsection \<open>Error codes\<close>

datatype error_code =
    INTERNAL | VALIDATION | NOT_FOUND | CONFLICT | UNAUTHORIZED | FORBIDDEN
  | RATE_LIMITED | BAD_REQUEST | UNAVAILABLE

fun error_code_value :: "error_code \<Rightarrow> string" where
  "error_code_value INTERNAL = ''internal_error''"
| "error_code_value VALIDATION = ''validation_error''"
| "error_code_value NOT_FOUND = ''not_found''"
| "error_code_value CONFLICT = ''conflict''"
| "error_code_value UNAUTHORIZED = ''unauthorized''"
| "error_code_value FORBIDDEN = ''forbidden''"
| "error_code_value RATE_LIMITED = ''rate_limited''"
| "error_code_value BAD_REQUEST = ''bad_request''"
| "error_code_value UNAVAILABLE = ''service_unavailable''"

lemma error_code_value_inj: "error_code_value a = error_code_value b \<Longrightarrow> a = b"
  by (cases a; cases b) simp_all

subsection \<open>Exceptions\<close>

record server_exception =
  se_status :: int
  se_message :: string
  se_code :: error_code
  se_details :: "json list option"

text \<open>
  \<^verbatim>\<open>ExternalAPIError\<close> (app/clients/base.py) is a subclass of \<^verbatim>\<open>ServerException\<close> with three more
  fields. The exceptions of libraries that the code distinguishes have a constructor each; any
  other exception is \<open>OtherError\<close> with its class name and text.
\<close>

datatype exn =
    ServerError server_exception
  | ExternalAPIError server_exception "int option" json "string option"
  | RequestValidationError "(json list \<times> string \<times> string) list"
  | HTTPError int string "(string \<times> string) list option"
  | IntegrityError
  | StaleDataError
  | ValidationError
  | TokenError string
  | ObjectNotFoundError string
  | ValueError string
  | OtherError string string

definition ServerException_init :: "int \<Rightarrow> string \<Rightarrow> error_code \<Rightarrow> json list option \<Rightarrow> server_exception" where
  "ServerException_init st msg code det =
     \<lparr>se_status = st, se_message = msg, se_code = code, se_details = det\<rparr>"

definition BadRequestError :: "string \<Rightarrow> exn" where
  "BadRequestError msg = ServerError (ServerException_init 400 msg BAD_REQUEST None)"
definition UnauthorizedError :: "string \<Rightarrow> exn" where
  "UnauthorizedError msg = ServerError (ServerException_init 401 msg UNAUTHORIZED None)"
definition ForbiddenError :: "string \<Rightarrow> exn" where
  "ForbiddenError msg = ServerError (ServerException_init 403 msg FORBIDDEN None)"
definition NotFoundError :: "string \<Rightarrow> exn" where
  "NotFoundError msg = ServerError (ServerException_init 404 msg NOT_FOUND None)"
definition ConflictError :: "string \<Rightarrow> exn" where
  "ConflictError msg = ServerError (ServerException_init 409 msg CONFLICT None)"
definition RateLimitedError :: "string \<Rightarrow> exn" where
  "RateLimitedError msg = ServerError (ServerException_init 429 msg RATE_LIMITED None)"
definition AcquiringError :: "string \<Rightarrow> exn" where
  "AcquiringError msg = ServerError (ServerException_init 502 msg UNAVAILABLE None)"

lemmas exn_defs =
  BadRequestError_def UnauthorizedError_def ForbiddenError_def NotFoundError_def
  ConflictError_def RateLimitedError_def AcquiringError_def ServerException_init_def

text \<open>\<^verbatim>\<open>isinstance(exc, ServerException)\<close>.\<close>

fun is_server_exception :: "exn \<Rightarrow> bool" where
  "is_server_exception (ServerError _) = True"
| "is_server_exception (ExternalAPIError _ _ _ _) = True"
| "is_server_exception _ = False"

lemma server_exns [simp]:
  "is_server_exception (BadRequestError m)" "is_server_exception (UnauthorizedError m)"
  "is_server_exception (ForbiddenError m)" "is_server_exception (NotFoundError m)"
  "is_server_exception (ConflictError m)" "is_server_exception (RateLimitedError m)"
  "is_server_exception (AcquiringError m)"
  by (simp_all add: exn_defs)

subsection \<open>Envelopes\<close>

record response_meta =
  rm_request_id :: "string option"
  rm_page :: "int option"
  rm_per_page :: "int option"
  rm_total :: "int option"
  rm_pages :: "int option"

definition meta_of_request :: "string option \<Rightarrow> response_meta" where
  "meta_of_request rid =
     \<lparr>rm_request_id = rid, rm_page = None, rm_per_page = None, rm_total = None, rm_pages = None\<rparr>"

record 'a server_response =
  sr_status :: bool
  sr_data :: 'a
  sr_meta :: "response_meta option"

record empty_response =
  er_status :: bool
  er_meta :: "response_meta option"

record error_data =
  ed_code :: error_code
  ed_message :: string
  ed_details :: "json list option"

text \<open>
  The helpers read the request id from the context variable \<^verbatim>\<open>request_id_ctx\<close>
  (app/core/context.py); here it is the first argument.
\<close>

definition success :: "string option \<Rightarrow> 'a \<Rightarrow> response_meta option \<Rightarrow> 'a server_response" where
  "success rid d m =
     (let m' = (case m of
         None \<Rightarrow> (if str_truthy rid then Some (meta_of_request rid) else None)
       | Some mt \<Rightarrow>
           if rm_request_id mt = None \<and> str_truthy rid
           then Some (mt\<lparr>rm_request_id := rid\<rparr>) else Some mt)
      in \<lparr>sr_status = True, sr_data = d, sr_meta = m'\<rparr>)"

definition empty_resp :: "string option \<Rightarrow> empty_response" where
  "empty_resp rid =
     \<lparr>er_status = True,
      er_meta = (if str_truthy rid then Some (meta_of_request rid) else None)\<rparr>"

definition error_resp ::
  "string option \<Rightarrow> string \<Rightarrow> error_code \<Rightarrow> json list option \<Rightarrow> error_data server_response" where
  "error_resp rid msg code det =
     \<lparr>sr_status = False,
      sr_data = \<lparr>ed_code = code, ed_message = msg, ed_details = det\<rparr>,
      sr_meta = (if str_truthy rid then Some (meta_of_request rid) else None)\<rparr>"

lemma success_status [simp]: "sr_status (success rid d m)" "sr_data (success rid d m) = d"
  by (simp_all add: success_def Let_def)

lemma error_resp_sel [simp]:
  "\<not> sr_status (error_resp rid msg c det)"
  "ed_code (sr_data (error_resp rid msg c det)) = c"
  "ed_message (sr_data (error_resp rid msg c det)) = msg"
  by (simp_all add: error_resp_def)

text \<open>An explicit request id of the caller's meta is kept; a missing one is filled in.\<close>

lemma success_request_id:
  "str_truthy rid \<Longrightarrow>
   sr_meta (success rid d m) =
     Some ((case m of None \<Rightarrow> meta_of_request None | Some mt \<Rightarrow> mt)
       \<lparr>rm_request_id := (case m of None \<Rightarrow> rid | Some mt \<Rightarrow>
           (case rm_request_id mt of None \<Rightarrow> rid | Some r \<Rightarrow> Some r))\<rparr>)"
  by (cases m) (auto simp: success_def Let_def meta_of_request_def split: option.splits)

subsection \<open>The global handlers\<close>

record http_error =
  he_status :: int
  he_body :: "error_data server_response"
  he_headers :: "(string \<times> string) list option"

definition render ::
  "string option \<Rightarrow> int \<Rightarrow> string \<Rightarrow> error_code \<Rightarrow> json list option \<Rightarrow>
   (string \<times> string) list option \<Rightarrow> http_error" where
  "render rid st msg code det hdrs =
     \<lparr>he_status = st, he_body = error_resp rid msg code det, he_headers = hdrs\<rparr>"

definition server_exception_handler :: "string option \<Rightarrow> server_exception \<Rightarrow> http_error" where
  "server_exception_handler rid e =
     render rid (se_status e) (se_message e) (se_code e) (se_details e) None"

definition validation_detail :: "json list \<times> string \<times> string \<Rightarrow> json" where
  "validation_detail e = (case e of (loc, msg, ty) \<Rightarrow>
     JObj [(''loc'', JArr loc), (''msg'', JStr msg), (''type'', JStr ty)])"

definition validation_handler ::
  "string option \<Rightarrow> (json list \<times> string \<times> string) list \<Rightarrow> http_error" where
  "validation_handler rid errs =
     render rid 422 ''Validation failed'' VALIDATION (Some (map validation_detail errs)) None"

definition code_map :: "int \<Rightarrow> error_code option" where
  "code_map = Map.empty(400 \<mapsto> BAD_REQUEST, 401 \<mapsto> UNAUTHORIZED, 403 \<mapsto> FORBIDDEN,
     404 \<mapsto> NOT_FOUND, 429 \<mapsto> RATE_LIMITED, 503 \<mapsto> UNAVAILABLE)"

definition http_exception_handler ::
  "string option \<Rightarrow> int \<Rightarrow> string \<Rightarrow> (string \<times> string) list option \<Rightarrow> http_error" where
  "http_exception_handler rid st detail hdrs =
     render rid st detail (case code_map st of Some c \<Rightarrow> c | None \<Rightarrow> INTERNAL) None hdrs"

definition unhandled_handler :: "string option \<Rightarrow> http_error" where
  "unhandled_handler rid = render rid 500 ''Internal server error'' INTERNAL None None"

text \<open>
  \<^verbatim>\<open>register_exception_handlers\<close>: a handler is chosen by the exception's class;
  \<^verbatim>\<open>ExternalAPIError\<close> is found through its base class \<^verbatim>\<open>ServerException\<close>.
\<close>

fun handle_exception :: "string option \<Rightarrow> exn \<Rightarrow> http_error" where
  "handle_exception rid (ServerError e) = server_exception_handler rid e"
| "handle_exception rid (ExternalAPIError e _ _ _) = server_exception_handler rid e"
| "handle_exception rid (RequestValidationError errs) = validation_handler rid errs"
| "handle_exception rid (HTTPError st detail hdrs) = http_exception_handler rid st detail hdrs"
| "handle_exception rid _ = unhandled_handler rid"

lemmas handler_defs =
  server_exception_handler_def validation_handler_def http_exception_handler_def
  unhandled_handler_def render_def

text \<open>An exception that the program did not raise on purpose.\<close>

fun is_unforeseen :: "exn \<Rightarrow> bool" where
  "is_unforeseen (ServerError _) = False"
| "is_unforeseen (ExternalAPIError _ _ _ _) = False"
| "is_unforeseen (RequestValidationError _) = False"
| "is_unforeseen (HTTPError _ _ _) = False"
| "is_unforeseen _ = True"

lemma handle_unforeseen: "is_unforeseen e \<Longrightarrow> handle_exception rid e = unhandled_handler rid"
  by (cases e) auto

lemma handle_envelope: "\<not> sr_status (he_body (handle_exception rid e))"
  by (cases e) (simp_all add: handler_defs)

lemma handle_request_id:
  "str_truthy rid \<Longrightarrow>
   sr_meta (he_body (handle_exception rid e)) = Some (meta_of_request rid)"
  by (cases e) (simp_all add: handler_defs error_resp_def)

text \<open>
  The controlled exceptions of the services: the status and the machine code of the body agree,
  which is what clients branch on.
\<close>

lemma handle_controlled:
  "handle_exception rid (NotFoundError m) = render rid 404 m NOT_FOUND None None"
  "handle_exception rid (ConflictError m) = render rid 409 m CONFLICT None None"
  "handle_exception rid (UnauthorizedError m) = render rid 401 m UNAUTHORIZED None None"
  "handle_exception rid (ForbiddenError m) = render rid 403 m FORBIDDEN None None"
  "handle_exception rid (BadRequestError m) = render rid 400 m BAD_REQUEST None None"
  by (simp_all add: exn_defs server_exception_handler_def)

end
