(* ===== verification/Config.thy ===== *)
theory Config
  imports Errors
begin

section \<open>Configuration\<close>

text \<open>
  \<^verbatim>\<open>app/core/config.py\<close>: the settings with their defaults, the two model validators that refuse a
  configuration at start-up, the derived values, and \<^verbatim>\<open>app/acquiring/factory.py\<close>'s
  \<^verbatim>\<open>enabled_acquirers\<close>. Reading the environment and the \<^verbatim>\<open>.env\<close> file is pydantic-settings' work and
  is not modelled: the record holds the values it found.
\<close>

datatype environment = ENV_DEV | ENV_PROD
datatype broker_type = MEMORY_BROKER | KAFKA | RABBITMQ
datatype acquirer_name = MEMORY | YOOKASSA
datatype auth_transport = HEADER | COOKIE

fun acquirer_value :: "acquirer_name \<Rightarrow> string" where
  "acquirer_value MEMORY = ''memory''"
| "acquirer_value YOOKASSA = ''yookassa''"

fun environment_value :: "environment \<Rightarrow> string" where
  "environment_value ENV_DEV = ''dev''"
| "environment_value ENV_PROD = ''prod''"

fun auth_transport_value :: "auth_transport \<Rightarrow> string" where
  "auth_transport_value HEADER = ''header''"
| "auth_transport_value COOKIE = ''cookie''"

record settings =
  app_name :: string
  environment :: environment
  debug :: bool
  host :: string
  port :: int
  api_v1_prefix :: string
  cors_origins :: string
  postgres_host :: string
  postgres_port :: int
  postgres_user :: string
  postgres_password :: string
  postgres_db :: string
  db_pool_size :: int
  db_max_overflow :: int
  db_pool_timeout :: int
  db_pool_recycle :: int
  db_echo :: bool
  db_pgbouncer :: bool
  redis_host :: string
  redis_port :: int
  redis_db :: int
  redis_password :: string
  redis_max_connections :: int
  redis_default_ttl :: nat
  rate_limit_enabled :: bool
  rate_limit_requests :: int
  rate_limit_window :: nat
  rate_limit_burst :: int
  rate_limit_burst_window :: nat
  search_similarity_threshold :: rat
  broker_enabled :: bool
  broker_type :: broker_type
  broker_url :: string
  broker_default_topic :: string
  outbox_enabled :: bool
  outbox_relay_interval :: rat
  outbox_batch_size :: nat
  outbox_retention_days :: int
  storage_enabled :: bool
  storage_presign_expire :: int
  s3_endpoint_url :: string
  s3_region :: string
  s3_access_key_id :: string
  s3_secret_access_key :: string
  s3_bucket :: string
  s3_use_ssl :: bool
  s3_public_url :: string
  messages_api_base_url :: string
  messages_api_key :: string
  acquiring_currency :: string
  acquiring_return_url :: string
  acquiring_memory_enabled :: bool
  yookassa_enabled :: bool
  yookassa_shop_id :: string
  yookassa_secret_key :: string
  log_level :: string
  log_json :: bool
  log_file_enabled :: bool
  log_file_path :: string
  log_file_max_bytes :: int
  log_file_backup_count :: int
  web_concurrency :: int
  gunicorn_timeout :: int
  gunicorn_graceful_timeout :: int
  gunicorn_keepalive :: int
  auth_jwt_enabled :: bool
  jwt_secret_key :: string
  jwt_algorithm :: string
  access_token_expire_minutes :: int
  refresh_token_expire_days :: int
  auth_validate_session :: bool
  auth_token_transport :: auth_transport
  auth_cookie_secure :: bool
  auth_cookie_samesite :: string
  global_api_key_enabled :: bool
  global_api_key :: string
  sentry_dsn :: string
  sentry_traces_sample_rate :: rat
  sentry_release :: string
  docs_enabled :: bool
  docs_basic_auth_user :: string
  docs_basic_auth_password :: string
  health_expose_config :: bool

text \<open>The defaults of the class body.\<close>

definition default_settings :: settings where
  "default_settings = \<lparr>
     app_name = ''full-fastapi'', environment = ENV_DEV, debug = True, host = ''0.0.0.0'',
     port = 8080, api_v1_prefix = ''/api/v1'',
     cors_origins = ''http://localhost:3000'',
     postgres_host = ''localhost'', postgres_port = 5432, postgres_user = ''app'',
     postgres_password = ''app'', postgres_db = ''app'', db_pool_size = 20, db_max_overflow = 10,
     db_pool_timeout = 5, db_pool_recycle = 1800, db_echo = False, db_pgbouncer = False,
     redis_host = ''localhost'', redis_port = 6379, redis_db = 0, redis_password = [],
     redis_max_connections = 100, redis_default_ttl = 60,
     rate_limit_enabled = True, rate_limit_requests = 1000, rate_limit_window = 60,
     rate_limit_burst = 0, rate_limit_burst_window = 1,
     search_similarity_threshold = 1 / 10,
     broker_enabled = True, broker_type = MEMORY_BROKER, broker_url = [], broker_default_topic = ''events'',
     outbox_enabled = True, outbox_relay_interval = 5, outbox_batch_size = 100,
     outbox_retention_days = 7,
     storage_enabled = False, storage_presign_expire = 3600, s3_endpoint_url = [],
     s3_region = ''us-east-1'', s3_access_key_id = [], s3_secret_access_key = [], s3_bucket = [],
     s3_use_ssl = True, s3_public_url = [],
     messages_api_base_url = [], messages_api_key = [],
     acquiring_currency = ''RUB'', acquiring_return_url = [],
     acquiring_memory_enabled = False, yookassa_enabled = False, yookassa_shop_id = [],
     yookassa_secret_key = [],
     log_level = ''INFO'', log_json = False, log_file_enabled = False,
     log_file_path = ''logs/app.log'', log_file_max_bytes = 52428800, log_file_backup_count = 14,
     web_concurrency = 0, gunicorn_timeout = 30, gunicorn_graceful_timeout = 30,
     gunicorn_keepalive = 5,
     auth_jwt_enabled = True,
     jwt_secret_key = ''dev-insecure-secret-change-me-please-32b+'', jwt_algorithm = ''HS256'',
     access_token_expire_minutes = 15, refresh_token_expire_days = 7,
     auth_validate_session = False, auth_token_transport = HEADER, auth_cookie_secure = True,
     auth_cookie_samesite = ''lax'',
     global_api_key_enabled = False, global_api_key = [],
     sentry_dsn = [], sentry_traces_sample_rate = 0, sentry_release = [],
     docs_enabled = True, docs_basic_auth_user = [], docs_basic_auth_password = [],
     health_expose_config = False\<rparr>"

subsection \<open>Derived values\<close>

definition is_prod :: "settings \<Rightarrow> bool" where
  "is_prod c \<longleftrightarrow> environment c = ENV_PROD"

definition cookie_auth :: "settings \<Rightarrow> bool" where
  "cookie_auth c \<longleftrightarrow> auth_token_transport c = COOKIE"

definition database_url :: "settings \<Rightarrow> string" where
  "database_url c = ''postgresql+asyncpg://'' @ postgres_user c @ '':'' @ postgres_password c @
     ''@'' @ postgres_host c @ '':'' @ str_of_int (postgres_port c) @ ''/'' @ postgres_db c"

definition redis_url :: "settings \<Rightarrow> string" where
  "redis_url c =
     (let auth = (if redis_password c \<noteq> [] then '':'' @ redis_password c @ ''@'' else [])
      in ''redis://'' @ auth @ redis_host c @ '':'' @ str_of_int (redis_port c) @ ''/'' @ str_of_int (redis_db c))"

definition cors_origins_list :: "settings \<Rightarrow> string list" where
  "cors_origins_list c =
     map strip (filter (\<lambda>o'. strip o' \<noteq> []) (split_on CHR '','' (cors_origins c)))"

text \<open>\<open>cpu_count\<close> is what \<^verbatim>\<open>multiprocessing.cpu_count()\<close> returns.\<close>

definition workers :: "int \<Rightarrow> settings \<Rightarrow> int" where
  "workers cpu_count c = (if web_concurrency c > 0 then web_concurrency c else cpu_count + 1)"

lemma workers_positive: "0 < cpu_count \<Longrightarrow> 0 < workers cpu_count c"
  by (simp add: workers_def)

lemma cors_origins_list_clean: "w \<in> set (cors_origins_list c) \<Longrightarrow> w \<noteq> [] \<and> CHR '','' \<notin> set w"
  unfolding cors_origins_list_def
  using set_strip_subset split_on_no_sep by fastforce

subsection \<open>Validators\<close>

text \<open>The messages are in Russian in the source; here they name the rule.\<close>

definition validate_auth_modes :: "settings \<Rightarrow> exn + settings" where
  "validate_auth_modes c =
     (if \<not> auth_jwt_enabled c \<and> \<not> global_api_key_enabled c
      then Inl (ValueError ''AUTH_JWT_ENABLED=false requires GLOBAL_API_KEY_ENABLED=true'')
      else if auth_token_transport c = COOKIE
      then (if \<not> auth_jwt_enabled c
            then Inl (ValueError ''AUTH_TOKEN_TRANSPORT=cookie requires AUTH_JWT_ENABLED=true'')
            else if global_api_key_enabled c
            then Inl (ValueError ''AUTH_TOKEN_TRANSPORT=cookie excludes GLOBAL_API_KEY_ENABLED=true'')
            else Inr c)
      else Inr c)"

definition validate_acquiring :: "settings \<Rightarrow> exn + settings" where
  "validate_acquiring c =
     (if is_prod c \<and> acquiring_memory_enabled c
      then Inl (ValueError ''ACQUIRING_MEMORY_ENABLED=true is forbidden in production'')
      else if yookassa_enabled c \<and> \<not> (yookassa_shop_id c \<noteq> [] \<and> yookassa_secret_key c \<noteq> [])
      then Inl (ValueError ''YOOKASSA_ENABLED=true requires YOOKASSA_SHOP_ID and YOOKASSA_SECRET_KEY'')
      else Inr c)"

text \<open>\<^verbatim>\<open>Settings()\<close>: the validators run in the order of their definition.\<close>

definition get_settings :: "settings \<Rightarrow> exn + settings" where
  "get_settings c = (case validate_auth_modes c of Inl e \<Rightarrow> Inl e | Inr c' \<Rightarrow> validate_acquiring c')"

lemma get_settings_Inr: "get_settings c = Inr c' \<longleftrightarrow> c' = c \<and>
   (auth_jwt_enabled c \<or> global_api_key_enabled c) \<and>
   (cookie_auth c \<longrightarrow> auth_jwt_enabled c \<and> \<not> global_api_key_enabled c) \<and>
   (is_prod c \<longrightarrow> \<not> acquiring_memory_enabled c) \<and>
   (yookassa_enabled c \<longrightarrow> yookassa_shop_id c \<noteq> [] \<and> yookassa_secret_key c \<noteq> [])"
  by (auto simp: get_settings_def validate_auth_modes_def validate_acquiring_def cookie_auth_def
      split: if_splits)

lemma default_settings_accepted: "get_settings default_settings = Inr default_settings"
  by (simp add: get_settings_Inr default_settings_def cookie_auth_def is_prod_def)

subsection \<open>Enabled payment providers\<close>

definition enabled_acquirers :: "settings \<Rightarrow> acquirer_name set" where
  "enabled_acquirers c =
     (let enabled = {};
          enabled = (if acquiring_memory_enabled c then insert MEMORY enabled else enabled);
          enabled = (if yookassa_enabled c then insert YOOKASSA enabled else enabled)
      in enabled)"

lemma enabled_acquirers_iff [simp]:
  "MEMORY \<in> enabled_acquirers c \<longleftrightarrow> acquiring_memory_enabled c"
  "YOOKASSA \<in> enabled_acquirers c \<longleftrightarrow> yookassa_enabled c"
  by (auto simp: enabled_acquirers_def Let_def)

lemma prod_has_no_stub: "get_settings c = Inr c' \<Longrightarrow> is_prod c \<Longrightarrow> MEMORY \<notin> enabled_acquirers c"
  by (simp add: get_settings_Inr)

end
