(* ===== verification/Roles.thy ===== *)
theory Roles
  imports Prelude
begin

section \<open>Roles\<close>

text \<open>
  \<^verbatim>\<open>app/security/roles.py\<close>: the roles, their string values and the numeric levels behind
  \<^verbatim>\<open>role_at_least\<close>. The levels order the roles only weakly: administrators and services share one.
\<close>

datatype role = SERVICE | ADMIN | MANAGER | USER

fun role_value :: "role \<Rightarrow> string" where
  "role_value SERVICE = ''service''"
| "role_value ADMIN = ''admin''"
| "role_value MANAGER = ''manager''"
| "role_value USER = ''user''"

text \<open>\<^verbatim>\<open>Role(value)\<close>: \<^verbatim>\<open>ValueError\<close> (here \<^const>\<open>None\<close>) for a value that is no member.\<close>

definition role_of :: "string \<Rightarrow> role option" where
  "role_of s = find (\<lambda>r. role_value r = s) [SERVICE, ADMIN, MANAGER, USER]"

lemma role_of_value [simp]: "role_of (role_value r) = Some r"
  by (cases r) (simp_all add: role_of_def)

lemma role_of_Some: "role_of s = Some r \<longleftrightarrow> s = role_value r"
proof
  assume "role_of s = Some r"
  then show "s = role_value r" by (auto simp: role_of_def split: if_splits)
qed simp

fun LEVELS :: "role \<Rightarrow> int" where
  "LEVELS USER = 10"
| "LEVELS MANAGER = 20"
| "LEVELS ADMIN = 30"
| "LEVELS SERVICE = 30"

definition DEFAULT_ROLE :: role where
  "DEFAULT_ROLE = USER"

definition role_at_least :: "role \<Rightarrow> role \<Rightarrow> bool" where
  "role_at_least role minimum \<longleftrightarrow> LEVELS role \<ge> LEVELS minimum"

text \<open>The test is the preorder of the levels, so the library's reasoning about orders applies to it.\<close>

instantiation role :: preorder
begin

definition less_eq_role :: "role \<Rightarrow> role \<Rightarrow> bool" where
  "less_eq_role a b \<longleftrightarrow> LEVELS a \<le> LEVELS b"

definition less_role :: "role \<Rightarrow> role \<Rightarrow> bool" where
  "less_role a b \<longleftrightarrow> LEVELS a < LEVELS b"

instance by standard (auto simp: less_eq_role_def less_role_def)

end

lemma role_at_least_le: "role_at_least role minimum \<longleftrightarrow> minimum \<le> role"
  by (simp add: role_at_least_def less_eq_role_def)

lemma role_at_least_refl [simp]: "role_at_least r r"
  by (simp add: role_at_least_le)

lemma role_at_least_trans: "role_at_least a b \<Longrightarrow> role_at_least b c \<Longrightarrow> role_at_least a c"
  unfolding role_at_least_le by (rule order_trans)

lemma role_at_least_total: "role_at_least a b \<or> role_at_least b a"
  by (auto simp: role_at_least_def)

lemma role_at_least_user [simp]: "role_at_least r USER"
  by (cases r) (simp_all add: role_at_least_def)

end
