(* ===== verification/Database.thy ===== *)
theory Database
  imports Errors Config Roles
begin

section \<open>The database: tables, constraints, sessions, the unit of work\<close>

text \<open>
  \<^verbatim>\<open>app/models\<close> (the tables and their constraints), \<^verbatim>\<open>app/db/uow.py\<close> (the unit of work, a state
  machine around one session) and \<^verbatim>\<open>app/repositories/base.py\<close> (the generic repository). A table is
  a list of rows. PostgreSQL and SQLAlchemy are not in the repository; what the program uses of
  them is written out: a session works on its own copy of the committed contents, a flush checks
  the declared constraints and the column ranges, a commit makes the copy the committed contents,
  closing without a commit drops it. Any other failure of the database (a lost connection, a
  deadlock, a timeout) is the parameter \<open>engine\<close>: it may fail each flush and each statement.
  New identifiers (\<^verbatim>\<open>uuid4\<close>) and the clock are arguments.
\<close>

subsection \<open>Tables\<close>

record user_row =
  u_id :: uuid
  u_email :: string
  u_full_name :: string
  u_is_active :: bool
  u_hashed_password :: "string option"
  u_role :: role
  u_version_id :: nat
  u_created_at :: timestamp
  u_updated_at :: timestamp

record profile_row =
  p_id :: uuid
  p_user_id :: uuid
  p_bio :: "string option"
  p_avatar_url :: "string option"

record account_row =
  a_id :: uuid
  a_user_id :: uuid
  a_name :: string
  a_balance :: int

record transaction_row =
  t_id :: uuid
  t_account_id :: uuid
  t_amount :: int
  t_kind :: string
  t_acquirer :: acquirer_name
  t_created_at :: timestamp

record category_row =
  c_id :: uuid
  c_name :: string

record outbox_row =
  o_id :: uuid
  o_topic :: string
  o_payload :: json
  o_key :: "string option"
  o_created_at :: timestamp
  o_published_at :: "timestamp option"
  o_attempts :: nat

record db =
  users :: "user_row list"
  profiles :: "profile_row list"
  accounts :: "account_row list"
  transactions :: "transaction_row list"
  categories :: "category_row list"
  transaction_categories :: "(uuid \<times> uuid) list"
  outbox_messages :: "outbox_row list"

definition empty_db :: db where
  "empty_db = \<lparr>users = [], profiles = [], accounts = [], transactions = [], categories = [],
     transaction_categories = [], outbox_messages = []\<rparr>"

text \<open>
  The declared constraints: primary keys, \<^verbatim>\<open>unique=True\<close>, foreign keys. \<^verbatim>\<open>BigInteger\<close> columns hold
  64-bit signed integers.
\<close>

definition db_constraints :: "db \<Rightarrow> bool" where
  "db_constraints d \<longleftrightarrow>
     distinct (map u_id (users d)) \<and> distinct (map u_email (users d)) \<and>
     distinct (map p_id (profiles d)) \<and> distinct (map p_user_id (profiles d)) \<and>
     distinct (map a_id (accounts d)) \<and> distinct (map t_id (transactions d)) \<and>
     distinct (map c_id (categories d)) \<and> distinct (map c_name (categories d)) \<and>
     distinct (transaction_categories d) \<and> distinct (map o_id (outbox_messages d)) \<and>
     list_all (\<lambda>p. p_user_id p \<in> u_id ` set (users d)) (profiles d) \<and>
     list_all (\<lambda>a. a_user_id a \<in> u_id ` set (users d)) (accounts d) \<and>
     list_all (\<lambda>t. t_account_id t \<in> a_id ` set (accounts d)) (transactions d) \<and>
     list_all (\<lambda>(t, c). t \<in> t_id ` set (transactions d) \<and> c \<in> c_id ` set (categories d))
       (transaction_categories d)"

definition fits_bigint :: "int \<Rightarrow> bool" where
  "fits_bigint n \<longleftrightarrow> - (2 ^ 63) \<le> n \<and> n < 2 ^ 63"

definition columns_fit :: "db \<Rightarrow> bool" where
  "columns_fit d \<longleftrightarrow> list_all (\<lambda>a. fits_bigint (a_balance a)) (accounts d) \<and>
     list_all (\<lambda>t. fits_bigint (t_amount t)) (transactions d)"

definition db_ok :: "db \<Rightarrow> bool" where
  "db_ok d \<longleftrightarrow> db_constraints d \<and> columns_fit d"

lemma empty_db_ok [simp]: "db_ok empty_db"
  by (simp add: db_ok_def db_constraints_def columns_fit_def empty_db_def)

subsection \<open>The unit of work\<close>

text \<open>
  \<open>committed\<close> is the database other sessions see; \<open>session\<close> is \<^verbatim>\<open>_session\<close>, with its copy of the
  contents; \<open>repos\<close> are the classes in \<^verbatim>\<open>_repos\<close>.
\<close>

record uow =
  committed :: db
  session :: "db option"
  repos :: "string list"

type_synonym engine = "db \<Rightarrow> exn option"
type_synonym 'a tx = "uow \<Rightarrow> (exn + 'a) \<times> uow"

definition uow_init :: "db \<Rightarrow> uow" where
  "uow_init d = \<lparr>committed = d, session = None, repos = []\<rparr>"

definition tx_return :: "'a \<Rightarrow> 'a tx" where
  "tx_return x u = (Inr x, u)"

definition tx_fail :: "exn \<Rightarrow> 'a tx" where
  "tx_fail e u = (Inl e, u)"

definition tx_bind :: "'a tx \<Rightarrow> ('a \<Rightarrow> 'b tx) \<Rightarrow> 'b tx" where
  "tx_bind m f u = (case m u of (Inl e, u') \<Rightarrow> (Inl e, u') | (Inr x, u') \<Rightarrow> f x u')"

definition tx_catch :: "'a tx \<Rightarrow> (exn \<Rightarrow> 'a tx) \<Rightarrow> 'a tx" where
  "tx_catch m h u = (case m u of (Inl e, u') \<Rightarrow> h e u' | (Inr x, u') \<Rightarrow> (Inr x, u'))"

definition outside_error :: exn where
  "outside_error = OtherError ''RuntimeError'' ''UnitOfWork used outside of `async with` context''"

definition active_error :: exn where
  "active_error = OtherError ''RuntimeError'' ''UnitOfWork is already active''"

text \<open>The property \<^verbatim>\<open>session\<close>.\<close>

definition uow_session :: "db tx" where
  "uow_session u = (case session u of None \<Rightarrow> (Inl outside_error, u) | Some w \<Rightarrow> (Inr w, u))"

definition set_work :: "db \<Rightarrow> unit tx" where
  "set_work w u = (Inr (), u\<lparr>session := Some w\<rparr>)"

text \<open>A repository is created on first use and kept until the next entry or exit.\<close>

definition repo :: "string \<Rightarrow> unit tx" where
  "repo cls u = (if cls \<in> set (repos u) then (Inr (), u)
     else (case uow_session u of (Inl e, u') \<Rightarrow> (Inl e, u')
       | (Inr _, u') \<Rightarrow> (Inr (), u'\<lparr>repos := cls # repos u'\<rparr>)))"

definition aenter :: "unit tx" where
  "aenter u = (if session u \<noteq> None then (Inl active_error, u)
     else (Inr (), u\<lparr>session := Some (committed u), repos := []\<rparr>))"

definition rollback :: "unit tx" where
  "rollback = tx_bind uow_session (\<lambda>_ u. (Inr (), u\<lparr>session := Some (committed u)\<rparr>))"

text \<open>
  A flush that fails has rolled the session's transaction back. Statements run against the flushed
  contents.
\<close>

definition flush :: "engine \<Rightarrow> unit tx" where
  "flush E = tx_bind uow_session (\<lambda>w u.
     (case (if \<not> db_constraints w then Some IntegrityError
            else if \<not> columns_fit w then Some (OtherError ''DBAPIError'' ''value out of int64 range'')
            else E w)
      of Some e \<Rightarrow> (Inl e, u\<lparr>session := Some (committed u)\<rparr>) | None \<Rightarrow> (Inr (), u)))"

definition commit :: "engine \<Rightarrow> unit tx" where
  "commit E = tx_bind (flush E) (\<lambda>_. tx_bind uow_session (\<lambda>w u. (Inr (), u\<lparr>committed := w\<rparr>)))"

definition aexit :: "bool \<Rightarrow> uow \<Rightarrow> uow" where
  "aexit failed u = (let u' = (if failed then snd (rollback u) else u)
     in u'\<lparr>session := None, repos := []\<rparr>)"

text \<open>\<^verbatim>\<open>async with self.uow: body\<close>.\<close>

definition with_uow :: "'a tx \<Rightarrow> 'a tx" where
  "with_uow body u = (case aenter u of (Inl e, u') \<Rightarrow> (Inl e, u')
     | (Inr _, u') \<Rightarrow> (case body u' of (r, u'') \<Rightarrow> (r, aexit (\<exists>e. r = Inl e) u'')))"

text \<open>The decorator \<^verbatim>\<open>transactional\<close> (app/decorators/transaction.py).\<close>

definition transactional :: "engine \<Rightarrow> 'a tx \<Rightarrow> 'a tx" where
  "transactional E f = tx_catch (tx_bind f (\<lambda>x. tx_bind (commit E) (\<lambda>_. tx_return x)))
     (\<lambda>e. tx_bind rollback (\<lambda>_. tx_fail e))"

definition tx_query :: "engine \<Rightarrow> (db \<Rightarrow> 'a) \<Rightarrow> 'a tx" where
  "tx_query E q = tx_bind (flush E) (\<lambda>_. tx_bind uow_session (\<lambda>w. tx_return (q w)))"

text \<open>A change of the session's contents that the next flush writes.\<close>

definition tx_stage :: "(db \<Rightarrow> db) \<Rightarrow> unit tx" where
  "tx_stage g = tx_bind uow_session (\<lambda>w. set_work (g w))"

text \<open>A statement that changes rows and returns the number of them.\<close>

definition tx_execute :: "engine \<Rightarrow> (db \<Rightarrow> 'a) \<Rightarrow> (db \<Rightarrow> db) \<Rightarrow> 'a tx" where
  "tx_execute E cnt g = tx_bind (tx_query E cnt) (\<lambda>n. tx_bind (tx_stage g) (\<lambda>_. tx_bind (flush E) (\<lambda>_. tx_return n)))"

lemmas tx_defs = tx_return_def tx_fail_def tx_bind_def tx_catch_def uow_session_def set_work_def
  tx_query_def tx_stage_def tx_execute_def

subsection \<open>What a transaction can do\<close>

text \<open>
  \<open>keeps_ok\<close>: whatever the operation does, the committed contents stay well formed.
\<close>

definition keeps_ok :: "'a tx \<Rightarrow> bool" where
  "keeps_ok m \<longleftrightarrow> (\<forall>u. db_ok (committed u) \<longrightarrow> db_ok (committed (snd (m u))))"

named_theorems keeps "operations that keep the committed contents well formed"

lemma keeps_bind [keeps]: "keeps_ok m \<Longrightarrow> (\<And>x. keeps_ok (f x)) \<Longrightarrow> keeps_ok (tx_bind m f)"
  by (fastforce simp: keeps_ok_def tx_bind_def split: prod.splits sum.splits dest: spec)

lemma keeps_catch [keeps]: "keeps_ok m \<Longrightarrow> (\<And>x. keeps_ok (f x)) \<Longrightarrow> keeps_ok (tx_catch m f)"
  by (fastforce simp: keeps_ok_def tx_catch_def split: prod.splits sum.splits dest: spec)

lemma keeps_basic [keeps]: "keeps_ok (tx_return x)" "keeps_ok (tx_fail e)" "keeps_ok uow_session"
  "keeps_ok (set_work w)" "keeps_ok aenter"
  by (auto simp: keeps_ok_def tx_defs aenter_def split: option.splits)

lemma keeps_rollback [keeps]: "keeps_ok rollback"
  by (auto simp: keeps_ok_def rollback_def tx_defs split: option.splits)

lemma keeps_repo [keeps]: "keeps_ok (repo c)"
  by (auto simp: keeps_ok_def repo_def tx_defs split: option.splits)

lemma keeps_flush [keeps]: "keeps_ok (flush E)"
  by (auto simp: keeps_ok_def flush_def tx_defs split: option.splits)

lemma flush_Inr: "flush E u = (Inr (), u') \<longleftrightarrow> u' = u \<and> (\<exists>w. session u = Some w \<and> db_ok w \<and> E w = None)"
  by (auto simp: flush_def tx_defs db_ok_def split: option.splits)

lemma flush_ok: "session u = Some w \<Longrightarrow> db_ok w \<Longrightarrow> E w = None \<Longrightarrow> flush E u = (Inr (), u)"
  by (simp add: flush_Inr)

lemma commit_Inr: "commit E u = (Inr (), u') \<longleftrightarrow>
    (\<exists>w. session u = Some w \<and> db_ok w \<and> E w = None \<and> u' = u\<lparr>committed := w\<rparr>)"
  by (auto simp: commit_def flush_def tx_defs db_ok_def split: option.splits)

lemma keeps_commit [keeps]: "keeps_ok (commit E)"
  unfolding keeps_ok_def
  by (auto simp: commit_def flush_def tx_defs db_ok_def split: option.splits)

lemma keeps_stage [keeps]: "keeps_ok (tx_stage g)"
  unfolding tx_stage_def by (intro keeps)

lemma keeps_query [keeps]: "keeps_ok (tx_query E q)"
  unfolding tx_query_def by (intro keeps)

lemma keeps_execute [keeps]: "keeps_ok (tx_execute E c g)"
  unfolding tx_execute_def by (intro keeps)

lemma aexit_committed [simp]: "committed (aexit b u) = committed u" "session (aexit b u) = None"
  by (auto simp: aexit_def Let_def rollback_def tx_defs split: option.splits)

lemma keeps_with_uow [keeps]: "keeps_ok m \<Longrightarrow> keeps_ok (with_uow m)"
proof -
  assume k: "keeps_ok m"
  have "db_ok (committed (snd (with_uow m u)))" if "db_ok (committed u)" for u
    using k that by (cases "m (u\<lparr>session := Some (committed u), repos := []\<rparr>)")
      (auto simp: keeps_ok_def with_uow_def aenter_def dest: spec [of _ "u\<lparr>session := Some (committed u), repos := []\<rparr>"])
  then show ?thesis by (simp add: keeps_ok_def)
qed

text \<open>\<open>uncommitted\<close>: the operation does not commit.\<close>

definition uncommitted :: "'a tx \<Rightarrow> bool" where
  "uncommitted m \<longleftrightarrow> (\<forall>u. committed (snd (m u)) = committed u)"

lemma uncommitted_bind [keeps]: "uncommitted m \<Longrightarrow> (\<And>x. uncommitted (f x)) \<Longrightarrow> uncommitted (tx_bind m f)"
proof -
  assume a: "uncommitted m" "\<And>x. uncommitted (f x)"
  have "committed (snd (tx_bind m f u)) = committed u" for u
  proof (cases "m u")
    case (Pair r u')
    then have "committed u' = committed u" using a(1) by (metis uncommitted_def snd_conv)
    with a(2) Pair show ?thesis by (cases r) (auto simp: uncommitted_def tx_bind_def)
  qed
  then show ?thesis by (simp add: uncommitted_def)
qed

lemma uncommitted_basic [keeps]: "uncommitted (tx_return x)" "uncommitted (tx_fail e)"
  "uncommitted uow_session" "uncommitted (set_work w)" "uncommitted aenter" "uncommitted rollback"
  "uncommitted (repo c)" "uncommitted (flush E)"
  by (auto simp: uncommitted_def tx_defs aenter_def rollback_def repo_def flush_def split: option.splits)

lemma uncommitted_stmts [keeps]: "uncommitted (tx_stage g)" "uncommitted (tx_query E q)"
  "uncommitted (tx_execute E c g)"
  unfolding tx_stage_def tx_query_def tx_execute_def by (intro keeps)+

text \<open>\<open>atomic\<close>: when the operation fails, nothing of it is committed.\<close>

definition atomic :: "'a tx \<Rightarrow> bool" where
  "atomic m \<longleftrightarrow> (\<forall>u e u'. m u = (Inl e, u') \<longrightarrow> committed u' = committed u)"

lemma uncommitted_atomic: "uncommitted m \<Longrightarrow> atomic m"
  unfolding uncommitted_def atomic_def by (metis snd_conv)

lemma atomic_bind [keeps]: "uncommitted m \<Longrightarrow> (\<And>x. atomic (f x)) \<Longrightarrow> atomic (tx_bind m f)"
  unfolding uncommitted_def atomic_def tx_bind_def
  by (auto split: prod.splits sum.splits) (metis snd_conv)+

lemma atomic_commit [keeps]: "atomic (commit E)" "atomic (tx_bind (commit E) (\<lambda>_. tx_return x))"
  by (auto simp: atomic_def commit_def flush_def tx_defs split: option.splits if_splits)

lemma atomic_if [keeps]: "(b \<Longrightarrow> atomic m) \<Longrightarrow> (\<not> b \<Longrightarrow> atomic m') \<Longrightarrow> atomic (if b then m else m')"
  "(x = None \<Longrightarrow> atomic m) \<Longrightarrow> (\<And>y. x = Some y \<Longrightarrow> atomic (f y)) \<Longrightarrow> atomic (case x of None \<Rightarrow> m | Some y \<Rightarrow> f y)"
  by (auto split: option.splits)

lemma uncommitted_if [keeps]:
  "(b \<Longrightarrow> uncommitted m) \<Longrightarrow> (\<not> b \<Longrightarrow> uncommitted m') \<Longrightarrow> uncommitted (if b then m else m')"
  "(x = None \<Longrightarrow> uncommitted m) \<Longrightarrow> (\<And>y. x = Some y \<Longrightarrow> uncommitted (f y)) \<Longrightarrow>
   uncommitted (case x of None \<Rightarrow> m | Some y \<Rightarrow> f y)"
  by (auto split: option.splits)

lemma keeps_if [keeps]:
  "(b \<Longrightarrow> keeps_ok m) \<Longrightarrow> (\<not> b \<Longrightarrow> keeps_ok m') \<Longrightarrow> keeps_ok (if b then m else m')"
  "(x = None \<Longrightarrow> keeps_ok m) \<Longrightarrow> (\<And>y. x = Some y \<Longrightarrow> keeps_ok (f y)) \<Longrightarrow>
   keeps_ok (case x of None \<Rightarrow> m | Some y \<Rightarrow> f y)"
  by (auto split: option.splits)

lemma atomic_catch [keeps]: "atomic m \<Longrightarrow> atomic (tx_catch m (\<lambda>e. tx_fail (h e)))"
  by (auto simp: atomic_def tx_catch_def tx_fail_def split: prod.splits sum.splits)

subsection \<open>Entering and leaving\<close>

definition idle :: "db \<Rightarrow> uow" where
  "idle d = \<lparr>committed = d, session = None, repos = []\<rparr>"

definition opened :: "db \<Rightarrow> uow" where
  "opened d = \<lparr>committed = d, session = Some d, repos = []\<rparr>"

lemma idle_sel [simp]: "committed (idle d) = d" "session (idle d) = None"
  "committed (opened d) = d" "session (opened d) = Some d" "repos (opened d) = []"
  by (simp_all add: idle_def opened_def)

lemma aexit_idle: "aexit b u = idle (committed u)"
  by (cases u) (auto simp: aexit_def Let_def rollback_def tx_defs idle_def split: option.splits)

lemma with_uow_inactive:
  assumes "session u = None"
  shows "with_uow m u = (fst (m (opened (committed u))), idle (committed (snd (m (opened (committed u))))))"
proof -
  have *: "u\<lparr>session := Some (committed u), repos := []\<rparr> = opened (committed u)"
    by (cases u) (simp add: opened_def)
  show ?thesis
    using assms by (cases "m (opened (committed u))") (simp add: with_uow_def aenter_def * aexit_idle)
qed

lemma with_uow_active: "session u \<noteq> None \<Longrightarrow> with_uow m u = (Inl active_error, u)"
  by (simp add: with_uow_def aenter_def)

lemma with_uow_uncommitted: "uncommitted m \<Longrightarrow> committed (snd (with_uow m u)) = committed u"
  by (cases "session u = None") (auto simp: uncommitted_def with_uow_inactive with_uow_active)

text \<open>A transaction on its own.\<close>

lemma alone_cases:
  assumes "with_uow m (idle d) = (r, u)" "atomic m"
  obtains (failed) e where "r = Inl e" "committed u = d"
    | (finished) x w where "r = Inr x" "m (opened d) = (Inr x, w)" "committed u = committed w"
proof (cases "m (opened d)")
  case (Pair r' w)
  with assms show thesis
    by (cases r') (auto simp: with_uow_inactive atomic_def intro: failed finished)
qed

subsection \<open>Successful runs\<close>

text \<open>What a result tells of the state an operation ran in, operation by operation.\<close>

definition ran :: "engine \<Rightarrow> uow \<Rightarrow> db \<Rightarrow> bool" where
  "ran E u w \<longleftrightarrow> session u = Some w \<and> db_ok w \<and> E w = None"

named_theorems runs "what a successful operation did"

lemma runs_bind [runs]: "tx_bind m f u = (Inr y, u'') \<longleftrightarrow> (\<exists>x u'. m u = (Inr x, u') \<and> f x u' = (Inr y, u''))"
  by (auto simp: tx_bind_def split: prod.splits sum.splits)

lemma runs_basic [runs]:
  "tx_return x u = (Inr y, u') \<longleftrightarrow> y = x \<and> u' = u" "\<not> tx_fail e u = (Inr y, u')"
  "uow_session u = (Inr w, u') \<longleftrightarrow> session u = Some w \<and> u' = u"
  "set_work w u = (Inr z, u') \<longleftrightarrow> u' = u\<lparr>session := Some w\<rparr>"
  "flush E u = (Inr z, u') \<longleftrightarrow> u' = u \<and> (\<exists>w. ran E u w)"
  by (auto simp: tx_defs flush_Inr ran_def split: option.splits)

lemma runs_commit [runs]: "commit E u = (Inr x, u') \<longleftrightarrow> (\<exists>w. ran E u w \<and> u' = u\<lparr>committed := w\<rparr>)"
  by (auto simp: commit_Inr ran_def)

lemma runs_query [runs]: "tx_query E q u = (Inr x, u') \<longleftrightarrow> (\<exists>w. ran E u w \<and> x = q w \<and> u' = u)"
  unfolding tx_query_def by (auto simp: runs ran_def)

lemma runs_stage [runs]:
  "tx_stage g u = (Inr x, u') \<longleftrightarrow> (\<exists>w. session u = Some w \<and> u' = u\<lparr>session := Some (g w)\<rparr>)"
  unfolding tx_stage_def by (auto simp: runs)

lemma runs_execute [runs]:
  "tx_execute E c g u = (Inr x, u') \<longleftrightarrow>
     (\<exists>w. ran E u w \<and> x = c w \<and> db_ok (g w) \<and> E (g w) = None \<and> u' = u\<lparr>session := Some (g w)\<rparr>)"
  unfolding tx_execute_def by (auto simp: runs ran_def)

lemma runs_repo [runs]:
  "repo c u = (Inr x, u') \<longleftrightarrow> c \<in> set (repos u) \<and> u' = u \<or>
     c \<notin> set (repos u) \<and> session u \<noteq> None \<and> u' = u\<lparr>repos := c # repos u\<rparr>"
  by (auto simp: repo_def tx_defs split: option.splits)

lemma runs_catch [runs]: "tx_catch m h u = (Inr y, u'') \<longleftrightarrow> m u = (Inr y, u'') \<or> (\<exists>e u'. m u = (Inl e, u') \<and> h e u' = (Inr y, u''))"
  by (auto simp: tx_catch_def split: prod.splits sum.splits)

lemma ran_upd [simp]: "ran E (u\<lparr>repos := r\<rparr>) w = ran E u w" "ran E (u\<lparr>committed := d\<rparr>) w = ran E u w"
  "ran E (u\<lparr>session := Some w'\<rparr>) w \<longleftrightarrow> w' = w \<and> db_ok w \<and> E w = None"
  by (auto simp: ran_def)

lemma ran_opened [simp]: "ran E (opened d) w \<longleftrightarrow> w = d \<and> db_ok d \<and> E d = None"
  by (auto simp: ran_def)

end
