(* ===== verification/Repositories.thy ===== *)
theory Repositories
  imports Database
begin

section \<open>Repositories\<close>

text \<open>
  \<^verbatim>\<open>app/repositories\<close>: the generic \<^verbatim>\<open>BaseRepository\<close> over a table, and the methods of the concrete
  repositories. A model class is a \<open>table\<close>: its rows, how to put them back, its primary key, and
  what deleting a row takes along (\<^verbatim>\<open>ON DELETE CASCADE\<close>). Loader options decide what is loaded with a
  row, not what a row is; the related rows are read by the functions that build a detailed form.
\<close>

record 'r table =
  tb_name :: string
  tb_rows :: "db \<Rightarrow> 'r list"
  tb_put :: "'r list \<Rightarrow> db \<Rightarrow> db"
  tb_id :: "'r \<Rightarrow> uuid"
  tb_cascade :: "uuid \<Rightarrow> db \<Rightarrow> db"

definition drop_links :: "(uuid \<times> uuid \<Rightarrow> bool) \<Rightarrow> db \<Rightarrow> db" where
  "drop_links p d = d\<lparr>transaction_categories := filter (\<lambda>l. \<not> p l) (transaction_categories d)\<rparr>"

definition drop_transactions :: "(transaction_row \<Rightarrow> bool) \<Rightarrow> db \<Rightarrow> db" where
  "drop_transactions p d = drop_links (\<lambda>l. fst l \<in> t_id ` set (filter p (transactions d)))
     (d\<lparr>transactions := filter (\<lambda>t. \<not> p t) (transactions d)\<rparr>)"

definition drop_accounts :: "(account_row \<Rightarrow> bool) \<Rightarrow> db \<Rightarrow> db" where
  "drop_accounts p d = drop_transactions (\<lambda>t. t_account_id t \<in> a_id ` set (filter p (accounts d)))
     (d\<lparr>accounts := filter (\<lambda>a. \<not> p a) (accounts d)\<rparr>)"

definition drop_user_rows :: "uuid \<Rightarrow> db \<Rightarrow> db" where
  "drop_user_rows uid d = drop_accounts (\<lambda>a. a_user_id a = uid)
     (d\<lparr>profiles := filter (\<lambda>p. p_user_id p \<noteq> uid) (profiles d)\<rparr>)"

lemmas drop_defs = drop_links_def drop_transactions_def drop_accounts_def drop_user_rows_def

definition User :: "user_row table" where
  "User = \<lparr>tb_name = ''UserRepository'', tb_rows = users, tb_put = (\<lambda>r d. d\<lparr>users := r\<rparr>), tb_id = u_id,
     tb_cascade = drop_user_rows\<rparr>"

definition Account :: "account_row table" where
  "Account = \<lparr>tb_name = ''AccountRepository'', tb_rows = accounts,
     tb_put = (\<lambda>r d. d\<lparr>accounts := r\<rparr>), tb_id = a_id,
     tb_cascade = (\<lambda>i. drop_transactions (\<lambda>t. t_account_id t = i))\<rparr>"

definition Transaction :: "transaction_row table" where
  "Transaction = \<lparr>tb_name = ''TransactionRepository'', tb_rows = transactions,
     tb_put = (\<lambda>r d. d\<lparr>transactions := r\<rparr>), tb_id = t_id, tb_cascade = (\<lambda>i. drop_links (\<lambda>l. fst l = i))\<rparr>"

definition Category :: "category_row table" where
  "Category = \<lparr>tb_name = ''CategoryRepository'', tb_rows = categories,
     tb_put = (\<lambda>r d. d\<lparr>categories := r\<rparr>), tb_id = c_id, tb_cascade = (\<lambda>i. drop_links (\<lambda>l. snd l = i))\<rparr>"

definition OutboxMessage :: "outbox_row table" where
  "OutboxMessage = \<lparr>tb_name = ''OutboxRepository'', tb_rows = outbox_messages,
     tb_put = (\<lambda>r d. d\<lparr>outbox_messages := r\<rparr>), tb_id = o_id, tb_cascade = (\<lambda>_ d. d)\<rparr>"

lemmas table_defs = User_def Account_def Transaction_def Category_def OutboxMessage_def

subsection \<open>The generic repository\<close>

definition repo_get :: "engine \<Rightarrow> 'r table \<Rightarrow> uuid \<Rightarrow> 'r option tx" where
  "repo_get E T i = tx_bind (repo (tb_name T)) (\<lambda>_.
     tx_query E (\<lambda>d. row_get (tb_id T) (tb_rows T d) i))"

definition repo_get_by :: "engine \<Rightarrow> 'r table \<Rightarrow> ('r \<Rightarrow> bool) \<Rightarrow> 'r option tx" where
  "repo_get_by E T p = tx_bind (repo (tb_name T)) (\<lambda>_. tx_query E (\<lambda>d. find p (tb_rows T d)))"

text \<open>\<open>order\<close> arranges the rows (\<^verbatim>\<open>order_by\<close>); without one the table's order is taken.\<close>

definition repo_list ::
  "engine \<Rightarrow> 'r table \<Rightarrow> nat \<Rightarrow> nat \<Rightarrow> ('r list \<Rightarrow> 'r list) option \<Rightarrow> 'r list tx" where
  "repo_list E T limit offset order_by = tx_bind (repo (tb_name T)) (\<lambda>_. tx_query E (\<lambda>d.
     take limit (drop offset ((case order_by of None \<Rightarrow> id | Some f \<Rightarrow> f) (tb_rows T d)))))"

definition repo_count :: "engine \<Rightarrow> 'r table \<Rightarrow> ('r \<Rightarrow> bool) \<Rightarrow> nat tx" where
  "repo_count E T p = tx_bind (repo (tb_name T)) (\<lambda>_. tx_query E (\<lambda>d. length (filter p (tb_rows T d))))"

definition stage_row :: "'r table \<Rightarrow> 'r \<Rightarrow> unit tx" where
  "stage_row T r = tx_bind (repo (tb_name T)) (\<lambda>_. tx_stage (\<lambda>d. tb_put T (tb_rows T d @ [r]) d))"

definition repo_add :: "engine \<Rightarrow> 'r table \<Rightarrow> 'r \<Rightarrow> 'r tx" where
  "repo_add E T r = tx_bind (stage_row T r) (\<lambda>_. tx_bind (flush E) (\<lambda>_. tx_return r))"

definition repo_update_by_id :: "engine \<Rightarrow> 'r table \<Rightarrow> uuid \<Rightarrow> ('r \<Rightarrow> 'r) \<Rightarrow> nat tx" where
  "repo_update_by_id E T i f = tx_bind (repo (tb_name T)) (\<lambda>_.
     tx_execute E (\<lambda>d. length (filter (\<lambda>r. tb_id T r = i) (tb_rows T d)))
       (\<lambda>d. tb_put T (map (\<lambda>r. if tb_id T r = i then f r else r) (tb_rows T d)) d))"

definition repo_delete_by_id :: "engine \<Rightarrow> 'r table \<Rightarrow> uuid \<Rightarrow> nat tx" where
  "repo_delete_by_id E T i = tx_bind (repo (tb_name T)) (\<lambda>_.
     tx_execute E (\<lambda>d. length (filter (\<lambda>r. tb_id T r = i) (tb_rows T d)))
       (\<lambda>d. tb_cascade T i (tb_put T (filter (\<lambda>r. tb_id T r \<noteq> i) (tb_rows T d)) d)))"

text \<open>
  \<^verbatim>\<open>stream\<close> reads through a server-side cursor in batches; the generator yields the rows of each
  batch in turn.
\<close>

fun batches :: "nat \<Rightarrow> 'r list \<Rightarrow> 'r list list" where
  "batches n [] = []"
| "batches n (x # xs) = take (max 1 n) (x # xs) # batches n (drop (max 1 n) (x # xs))"

definition repo_stream ::
  "engine \<Rightarrow> 'r table \<Rightarrow> nat \<Rightarrow> ('r list \<Rightarrow> 'r list) option \<Rightarrow> 'r list tx" where
  "repo_stream E T batch_size order_by = tx_bind (repo (tb_name T)) (\<lambda>_. tx_query E (\<lambda>d.
     concat (batches batch_size ((case order_by of None \<Rightarrow> id | Some f \<Rightarrow> f) (tb_rows T d)))))"

lemma concat_batches [simp]: "concat (batches n xs) = xs"
proof (induction n xs rule: batches.induct)
  case (2 n x xs)
  then show ?case by (metis append_take_drop_id batches.simps(2) concat.simps(2))
qed simp

lemma batches_bound: "b \<in> set (batches n xs) \<Longrightarrow> length b \<le> max 1 n"
  by (induction n xs rule: batches.induct) (auto simp del: take_Suc_Cons drop_Suc_Cons)

text \<open>Changing a loaded object: the session holds the new attributes until the flush.\<close>

definition save_row :: "'r table \<Rightarrow> 'r \<Rightarrow> unit tx" where
  "save_row T r = tx_stage (\<lambda>d. tb_put T (row_put (tb_id T) r (tb_rows T d)) d)"

lemmas repo_defs = repo_get_def repo_get_by_def repo_list_def repo_count_def stage_row_def repo_add_def
  repo_update_by_id_def repo_delete_by_id_def repo_stream_def save_row_def

lemma keeps_repos [keeps]:
  "keeps_ok (repo_get E T i)" "keeps_ok (repo_get_by E T p)" "keeps_ok (repo_list E T l f o')"
  "keeps_ok (repo_count E T p)" "keeps_ok (stage_row T r)" "keeps_ok (repo_add E T r)"
  "keeps_ok (repo_update_by_id E T i g)" "keeps_ok (repo_delete_by_id E T i)"
  "keeps_ok (repo_stream E T b o')" "keeps_ok (save_row T r)"
  unfolding repo_defs by (intro keeps)+

lemma uncommitted_repos [keeps]:
  "uncommitted (repo_get E T i)" "uncommitted (repo_get_by E T p)" "uncommitted (repo_list E T l f o')"
  "uncommitted (repo_count E T p)" "uncommitted (stage_row T r)" "uncommitted (repo_add E T r)"
  "uncommitted (repo_update_by_id E T i g)" "uncommitted (repo_delete_by_id E T i)"
  "uncommitted (repo_stream E T b o')" "uncommitted (save_row T r)"
  unfolding repo_defs by (intro keeps)+

subsection \<open>The concrete repositories\<close>

definition get_by_email :: "engine \<Rightarrow> string \<Rightarrow> user_row option tx" where
  "get_by_email E email = repo_get_by E User (\<lambda>u. u_email u = email)"

text \<open>\<open>ilike\<close> is the database's pattern match; rows come ordered by e-mail.\<close>

definition search_raw ::
  "engine \<Rightarrow> (string \<Rightarrow> string \<Rightarrow> bool) \<Rightarrow> (user_row list \<Rightarrow> user_row list) \<Rightarrow> string \<Rightarrow> nat \<Rightarrow>
   (uuid \<times> string \<times> string \<times> bool) list tx" where
  "search_raw E ilike by_email query limit = tx_query E (\<lambda>d.
     map (\<lambda>u. (u_id u, u_email u, u_full_name u, u_is_active u))
       (take limit (by_email (filter (\<lambda>u. ilike (u_email u) (query @ ''%'')) (users d)))))"

definition get_many :: "engine \<Rightarrow> uuid list \<Rightarrow> category_row list tx" where
  "get_many E ids = (if ids = [] then tx_return []
     else tx_query E (\<lambda>d. filter (\<lambda>c. c_id c \<in> set ids) (categories d)))"

definition user_accounts :: "db \<Rightarrow> uuid \<Rightarrow> account_row list" where
  "user_accounts d uid = filter (\<lambda>a. a_user_id a = uid) (accounts d)"

definition user_profile :: "db \<Rightarrow> uuid \<Rightarrow> profile_row option" where
  "user_profile d uid = find (\<lambda>p. p_user_id p = uid) (profiles d)"

text \<open>The relationship \<^verbatim>\<open>Account.transactions\<close>, ordered by creation time.\<close>

definition account_transactions :: "db \<Rightarrow> uuid \<Rightarrow> transaction_row list" where
  "account_transactions d aid =
     sort_key t_created_at (filter (\<lambda>t. t_account_id t = aid) (transactions d))"

definition transaction_cats :: "db \<Rightarrow> uuid \<Rightarrow> category_row list" where
  "transaction_cats d tid = filter (\<lambda>c. (tid, c_id c) \<in> set (transaction_categories d)) (categories d)"

definition get_with_transactions ::
  "engine \<Rightarrow> uuid \<Rightarrow> (account_row \<times> (transaction_row \<times> category_row list) list) option tx" where
  "get_with_transactions E aid = tx_query E (\<lambda>d. map_option
     (\<lambda>a. (a, map (\<lambda>t. (t, transaction_cats d (t_id t))) (account_transactions d aid)))
     (row_get a_id (accounts d) aid))"

definition get_overview :: "engine \<Rightarrow> uuid \<Rightarrow>
   (user_row \<times> profile_row option \<times> (account_row \<times> transaction_row list) list) option tx" where
  "get_overview E uid = tx_query E (\<lambda>d. map_option
     (\<lambda>u. (u, user_profile d uid, map (\<lambda>a. (a, account_transactions d (a_id a))) (user_accounts d uid)))
     (row_get u_id (users d) uid))"

text \<open>The outbox. \<^verbatim>\<open>add_event\<close> only stages the row: it is written by the commit of the business data.\<close>

definition add_event ::
  "uuid \<Rightarrow> timestamp \<Rightarrow> string \<Rightarrow> json \<Rightarrow> string option \<Rightarrow> unit tx" where
  "add_event i now topic payload key = stage_row OutboxMessage
     \<lparr>o_id = i, o_topic = topic, o_payload = payload, o_key = key, o_created_at = now,
      o_published_at = None, o_attempts = 0\<rparr>"

definition fetch_unpublished :: "engine \<Rightarrow> nat \<Rightarrow> outbox_row list tx" where
  "fetch_unpublished E limit = tx_query E (\<lambda>d.
     take limit (sort_key o_created_at (filter (\<lambda>r. o_published_at r = None) (outbox_messages d))))"

definition mark_row :: "timestamp \<Rightarrow> outbox_row \<Rightarrow> outbox_row" where
  "mark_row now r = r\<lparr>o_published_at := Some now, o_attempts := o_attempts r + 1\<rparr>"

definition mark_published :: "engine \<Rightarrow> timestamp \<Rightarrow> uuid list \<Rightarrow> unit tx" where
  "mark_published E now ids = (if ids = [] then tx_return ()
     else tx_bind (tx_execute E (\<lambda>_. 0::nat) (\<lambda>d. d\<lparr>outbox_messages :=
       map (\<lambda>r. if o_id r \<in> set ids then mark_row now r else r) (outbox_messages d)\<rparr>)) (\<lambda>_. tx_return ()))"

definition is_stale :: "timestamp \<Rightarrow> outbox_row \<Rightarrow> bool" where
  "is_stale cutoff r \<longleftrightarrow> (case o_published_at r of None \<Rightarrow> False | Some t \<Rightarrow> t < cutoff)"

definition delete_published_before :: "engine \<Rightarrow> timestamp \<Rightarrow> nat tx" where
  "delete_published_before E cutoff = tx_execute E
     (\<lambda>d. length (filter (is_stale cutoff) (outbox_messages d)))
     (\<lambda>d. d\<lparr>outbox_messages := filter (\<lambda>r. \<not> is_stale cutoff r) (outbox_messages d)\<rparr>)"

lemmas query_defs = get_by_email_def search_raw_def get_many_def get_with_transactions_def
  get_overview_def add_event_def fetch_unpublished_def mark_published_def delete_published_before_def

lemma keeps_queries [keeps]:
  "keeps_ok (get_by_email E e)" "keeps_ok (get_many E is)" "keeps_ok (get_with_transactions E i)"
  "keeps_ok (get_overview E i)" "keeps_ok (add_event i n t p k)" "keeps_ok (fetch_unpublished E l)"
  "keeps_ok (mark_published E n is)" "keeps_ok (delete_published_before E n)"
  unfolding query_defs by (intro keeps | simp add: keeps | (cases "is = []"; simp add: keeps))+

lemma uncommitted_queries [keeps]:
  "uncommitted (get_by_email E e)" "uncommitted (get_many E is)" "uncommitted (get_with_transactions E i)"
  "uncommitted (get_overview E i)" "uncommitted (add_event i n t p k)" "uncommitted (fetch_unpublished E l)"
  "uncommitted (mark_published E n is)" "uncommitted (delete_published_before E n)"
  unfolding query_defs by (intro keeps | simp add: keeps | (cases "is = []"; simp add: keeps))+

subsection \<open>Successful calls\<close>

definition used :: "'r table \<Rightarrow> uow \<Rightarrow> uow" where
  "used T u = u\<lparr>repos := List.insert (tb_name T) (repos u)\<rparr>"

lemma used_sel [simp]: "session (used T u) = session u" "committed (used T u) = committed u"
  "ran E (used T u) w = ran E u w"
  by (simp_all add: used_def)

lemma runs_repo_bind:
  "tx_bind (repo (tb_name T)) (\<lambda>_. m) u = (Inr x, u') \<longleftrightarrow>
   (session u \<noteq> None \<or> tb_name T \<in> set (repos u)) \<and> m (used T u) = (Inr x, u')"
  by (auto simp: tx_bind_def repo_def tx_defs used_def List.insert_def split: option.splits)

lemma runs_repos [runs]:
  "repo_get E T i u = (Inr ro, u') \<longleftrightarrow> (\<exists>w. ran E u w \<and> ro = row_get (tb_id T) (tb_rows T w) i \<and> u' = used T u)"
  "repo_get_by E T p u = (Inr ro, u') \<longleftrightarrow> (\<exists>w. ran E u w \<and> ro = find p (tb_rows T w) \<and> u' = used T u)"
  "repo_list E T l f o' u = (Inr rs, u') \<longleftrightarrow> (\<exists>w. ran E u w \<and> u' = used T u \<and>
     rs = take l (drop f ((case o' of None \<Rightarrow> id | Some g \<Rightarrow> g) (tb_rows T w))))"
  "stage_row T r u = (Inr z, u') \<longleftrightarrow> (\<exists>w. session u = Some w \<and>
     u' = (used T u)\<lparr>session := Some (tb_put T (tb_rows T w @ [r]) w)\<rparr>)"
  "save_row T r u = (Inr z, u') \<longleftrightarrow> (\<exists>w. session u = Some w \<and>
     u' = u\<lparr>session := Some (tb_put T (row_put (tb_id T) r (tb_rows T w)) w)\<rparr>)"
  unfolding repo_get_def repo_get_by_def repo_list_def stage_row_def save_row_def runs_repo_bind
  by (auto simp: runs ran_def)

lemma runs_repo_add [runs]:
  "repo_add E T r u = (Inr x, u') \<longleftrightarrow> (\<exists>w w'. session u = Some w \<and> w' = tb_put T (tb_rows T w @ [r]) w \<and>
     db_ok w' \<and> E w' = None \<and> x = r \<and> u' = (used T u)\<lparr>session := Some w'\<rparr>)"
  unfolding repo_add_def by (auto simp: runs ran_def)

lemma runs_repo_delete [runs]:
  "repo_delete_by_id E T i u = (Inr n, u') \<longleftrightarrow> (\<exists>w w'. ran E u w \<and>
     w' = tb_cascade T i (tb_put T (filter (\<lambda>r. tb_id T r \<noteq> i) (tb_rows T w)) w) \<and>
     n = length (filter (\<lambda>r. tb_id T r = i) (tb_rows T w)) \<and> db_ok w' \<and> E w' = None \<and>
     u' = (used T u)\<lparr>session := Some w'\<rparr>)"
  unfolding repo_delete_by_id_def runs_repo_bind by (auto simp: runs ran_def)

subsection \<open>Deleting a user takes its rows along\<close>

lemma distinct_map_filter_iff [simp]: "distinct (map f xs) \<Longrightarrow> distinct (map f (filter p xs))"
  by (induction xs) auto

text \<open>\<^verbatim>\<open>ON DELETE CASCADE\<close> leaves no dangling reference, so the constraints hold after a delete.\<close>

lemma delete_user_ok:
  assumes "db_ok d"
  shows "db_ok (drop_user_rows uid (d\<lparr>users := filter (\<lambda>u. u_id u \<noteq> uid) (users d)\<rparr>))"
    (is "db_ok ?d")
proof -
  have r: "users ?d = filter (\<lambda>u. u_id u \<noteq> uid) (users d)"
    "profiles ?d = filter (\<lambda>p. p_user_id p \<noteq> uid) (profiles d)"
    "accounts ?d = filter (\<lambda>a. a_user_id a \<noteq> uid) (accounts d)"
    "transactions ?d = filter (\<lambda>t. t_account_id t \<notin> a_id ` set (filter (\<lambda>a. a_user_id a = uid) (accounts d)))
       (transactions d)"
    "transaction_categories ?d = filter (\<lambda>l. fst l \<notin> t_id ` set (filter (\<lambda>t. t_account_id t \<in>
       a_id ` set (filter (\<lambda>a. a_user_id a = uid) (accounts d))) (transactions d))) (transaction_categories d)"
    "categories ?d = categories d" "outbox_messages ?d = outbox_messages d"
    by (simp_all add: drop_defs)
  note c = assms [unfolded db_ok_def db_constraints_def columns_fit_def list_all_iff]
  have "\<forall>p \<in> set (profiles ?d). p_user_id p \<in> u_id ` set (users ?d)"
    "\<forall>a \<in> set (accounts ?d). a_user_id a \<in> u_id ` set (users ?d)"
    using c by (auto simp: r image_iff)
  moreover have "\<forall>t \<in> set (transactions ?d). t_account_id t \<in> a_id ` set (accounts ?d)"
    using c unfolding r by (fastforce simp: image_iff)
  moreover have "\<forall>(t, c) \<in> set (transaction_categories ?d). t \<in> t_id ` set (transactions ?d) \<and> c \<in> c_id ` set (categories ?d)"
    using c unfolding r by (fastforce simp: image_iff)
  moreover have "columns_fit ?d" using c by (simp add: columns_fit_def list_all_iff r)
  moreover have "distinct (map u_id (users ?d)) \<and> distinct (map u_email (users ?d)) \<and>
     distinct (map p_id (profiles ?d)) \<and> distinct (map p_user_id (profiles ?d)) \<and>
     distinct (map a_id (accounts ?d)) \<and> distinct (map t_id (transactions ?d)) \<and>
     distinct (map c_id (categories ?d)) \<and> distinct (map c_name (categories ?d)) \<and>
     distinct (transaction_categories ?d) \<and> distinct (map o_id (outbox_messages ?d))"
    using c unfolding r by (simp del: filter_filter)
  ultimately show ?thesis by (simp add: db_ok_def db_constraints_def list_all_iff)
qed

end
