(* ===== verification/Redis.thy ===== *)
theory Redis
  imports Errors
begin

section \<open>The Redis service as a parameter\<close>

text \<open>
  Redis is not part of the repository: every operation of the program that talks to it takes the
  service as an argument, a record of the commands the program sends (the methods of
  \<^verbatim>\<open>redis.asyncio.Redis\<close> it calls) over an abstract state \<open>'r\<close>. What the program relies on is
  the locale \<open>redis_service\<close>: the documented effect of each command, stated over the keyspace
  \<open>kv\<close>, which gives the value and the remaining time to live (seconds) of every live key.
  Commands that change several keys in one \<^verbatim>\<open>MULTI\<close> pipeline are composed in sequence. A
  connection failure is not modelled here: the service answers every command.
\<close>

subsection \<open>Values and commands\<close>

datatype rval =
    RStr string
  | RInt int
  | RHash "string \<rightharpoonup> string"
  | RSet "string set"

type_synonym entry = "rval \<times> nat option"

record 'r redis =
  kv :: "'r \<Rightarrow> string \<Rightarrow> entry option"
  r_get :: "'r \<Rightarrow> string \<Rightarrow> string option"
  r_set :: "string \<Rightarrow> string \<Rightarrow> nat \<Rightarrow> 'r \<Rightarrow> 'r"
  r_set_nx :: "string \<Rightarrow> string \<Rightarrow> nat \<Rightarrow> 'r \<Rightarrow> bool \<times> 'r"
  r_del :: "string \<Rightarrow> 'r \<Rightarrow> nat \<times> 'r"
  r_exists :: "'r \<Rightarrow> string \<Rightarrow> bool"
  r_incrby :: "string \<Rightarrow> int \<Rightarrow> 'r \<Rightarrow> int \<times> 'r"
  r_expire :: "string \<Rightarrow> nat \<Rightarrow> 'r \<Rightarrow> 'r"
  r_expire_nx :: "string \<Rightarrow> nat \<Rightarrow> 'r \<Rightarrow> 'r"
  r_ttl :: "'r \<Rightarrow> string \<Rightarrow> int"
  r_hset :: "string \<Rightarrow> (string \<times> string) list \<Rightarrow> 'r \<Rightarrow> 'r"
  r_hgetall :: "'r \<Rightarrow> string \<Rightarrow> (string \<times> string) list"
  r_sadd :: "string \<Rightarrow> string \<Rightarrow> 'r \<Rightarrow> 'r"
  r_srem :: "string \<Rightarrow> string \<Rightarrow> 'r \<Rightarrow> 'r"
  r_smembers :: "'r \<Rightarrow> string \<Rightarrow> string list"

text \<open>\<^verbatim>\<open>HGET\<close> reads one field of what \<^verbatim>\<open>HGETALL\<close> returns (a dict).\<close>

definition r_hget :: "'r redis \<Rightarrow> 'r \<Rightarrow> string \<Rightarrow> string \<Rightarrow> string option" where
  "r_hget R s k f = map_of (r_hgetall R s k) f"

subsection \<open>Views of the keyspace\<close>

definition str_at :: "'r redis \<Rightarrow> 'r \<Rightarrow> string \<Rightarrow> string option" where
  "str_at R s k = (case kv R s k of Some (RStr v, _) \<Rightarrow> Some v | _ \<Rightarrow> None)"

definition hash_at :: "'r redis \<Rightarrow> 'r \<Rightarrow> string \<Rightarrow> (string \<rightharpoonup> string)" where
  "hash_at R s k = (case kv R s k of Some (RHash h, _) \<Rightarrow> h | _ \<Rightarrow> Map.empty)"

definition set_at :: "'r redis \<Rightarrow> 'r \<Rightarrow> string \<Rightarrow> string set" where
  "set_at R s k = (case kv R s k of Some (RSet m, _) \<Rightarrow> m | _ \<Rightarrow> {})"

definition int_at :: "'r redis \<Rightarrow> 'r \<Rightarrow> string \<Rightarrow> int" where
  "int_at R s k = (case kv R s k of Some (RInt n, _) \<Rightarrow> n | _ \<Rightarrow> 0)"

definition is_str_key :: "'r redis \<Rightarrow> 'r \<Rightarrow> string \<Rightarrow> bool" where
  "is_str_key R s k \<longleftrightarrow> (\<forall>v t. kv R s k = Some (v, t) \<longrightarrow> (\<exists>x. v = RStr x))"

definition is_int_key :: "'r redis \<Rightarrow> 'r \<Rightarrow> string \<Rightarrow> bool" where
  "is_int_key R s k \<longleftrightarrow> (\<forall>v t. kv R s k = Some (v, t) \<longrightarrow> (\<exists>x. v = RInt x))"

definition is_hash_key :: "'r redis \<Rightarrow> 'r \<Rightarrow> string \<Rightarrow> bool" where
  "is_hash_key R s k \<longleftrightarrow> (\<forall>v t. kv R s k = Some (v, t) \<longrightarrow> (\<exists>h. v = RHash h))"

definition is_set_key :: "'r redis \<Rightarrow> 'r \<Rightarrow> string \<Rightarrow> bool" where
  "is_set_key R s k \<longleftrightarrow> (\<forall>v t. kv R s k = Some (v, t) \<longrightarrow> (\<exists>m. v = RSet m))"

lemmas key_kind_defs = is_str_key_def is_int_key_def is_hash_key_def is_set_key_def
lemmas view_defs = str_at_def hash_at_def set_at_def int_at_def

text \<open>The time to live that a key has after a write that does not change it.\<close>

definition ttl_of :: "'r redis \<Rightarrow> 'r \<Rightarrow> string \<Rightarrow> nat option" where
  "ttl_of R s k = (case kv R s k of Some (_, t) \<Rightarrow> t | None \<Rightarrow> None)"

subsection \<open>The laws\<close>

locale redis_service =
  fixes R :: "'r redis"
  assumes get_law: "is_str_key R s k \<Longrightarrow> r_get R s k = str_at R s k"
    and set_law: "0 < ex \<Longrightarrow> kv R (r_set R k v ex s) = (kv R s)(k \<mapsto> (RStr v, Some ex))"
    and set_nx_absent: "0 < ex \<Longrightarrow> kv R s k = None \<Longrightarrow>
          fst (r_set_nx R k v ex s) \<and>
          kv R (snd (r_set_nx R k v ex s)) = (kv R s)(k \<mapsto> (RStr v, Some ex))"
    and set_nx_present: "0 < ex \<Longrightarrow> kv R s k = Some e \<Longrightarrow>
          \<not> fst (r_set_nx R k v ex s) \<and> kv R (snd (r_set_nx R k v ex s)) = kv R s"
    and del_law: "fst (r_del R k s) = (if kv R s k = None then 0 else 1) \<and>
          kv R (snd (r_del R k s)) = (kv R s)(k := None)"
    and exists_law: "r_exists R s k \<longleftrightarrow> kv R s k \<noteq> None"
    and incrby_law: "is_int_key R s k \<Longrightarrow>
          fst (r_incrby R k n s) = int_at R s k + n \<and>
          kv R (snd (r_incrby R k n s)) = (kv R s)(k \<mapsto> (RInt (int_at R s k + n), ttl_of R s k))"
    and expire_law: "0 < ex \<Longrightarrow> kv R (r_expire R k ex s) =
          (case kv R s k of None \<Rightarrow> kv R s | Some (v, _) \<Rightarrow> (kv R s)(k \<mapsto> (v, Some ex)))"
    and expire_nx_law: "0 < ex \<Longrightarrow> kv R (r_expire_nx R k ex s) =
          (case kv R s k of Some (v, None) \<Rightarrow> (kv R s)(k \<mapsto> (v, Some ex)) | _ \<Rightarrow> kv R s)"
    and ttl_law: "r_ttl R s k =
          (case kv R s k of None \<Rightarrow> -2 | Some (_, None) \<Rightarrow> -1 | Some (_, Some t) \<Rightarrow> int t)"
    and hset_law: "is_hash_key R s k \<Longrightarrow> kv R (r_hset R k m s) =
          (kv R s)(k \<mapsto> (RHash (hash_at R s k ++ map_of m), ttl_of R s k))"
    and hgetall_law: "is_hash_key R s k \<Longrightarrow> map_of (r_hgetall R s k) = hash_at R s k"
    and sadd_law: "is_set_key R s k \<Longrightarrow> kv R (r_sadd R k x s) =
          (kv R s)(k \<mapsto> (RSet (insert x (set_at R s k)), ttl_of R s k))"
    and srem_law: "is_set_key R s k \<Longrightarrow> kv R (r_srem R k x s) =
          (let m = set_at R s k - {x}
           in if m = {} then (kv R s)(k := None) else (kv R s)(k \<mapsto> (RSet m, ttl_of R s k)))"
    and smembers_law: "is_set_key R s k \<Longrightarrow>
          set (r_smembers R s k) = set_at R s k \<and> distinct (r_smembers R s k)"
begin

lemma kv_set [redis_simps]: "0 < ex \<Longrightarrow> kv R (r_set R k v ex s) = (kv R s)(k \<mapsto> (RStr v, Some ex))"
  by (rule set_law)

lemma kv_del [redis_simps]: "kv R (snd (r_del R k s)) = (kv R s)(k := None)"
  using del_law by blast

lemma get_set_same: "0 < ex \<Longrightarrow> r_get R (r_set R k v ex s) k = Some v"
  by (subst get_law) (auto simp: key_kind_defs view_defs set_law)

lemma get_absent: "kv R s k = None \<Longrightarrow> r_get R s k = None"
  by (subst get_law) (auto simp: key_kind_defs view_defs)

lemma get_present: "kv R s k = Some (RStr v, t) \<Longrightarrow> r_get R s k = Some v"
  by (subst get_law) (auto simp: key_kind_defs view_defs)

lemma set_nx_cases:
  assumes "0 < ex"
  obtains (acquired) s' where "kv R s k = None" "r_set_nx R k v ex s = (True, s')"
      "kv R s' = (kv R s)(k \<mapsto> (RStr v, Some ex))"
    | (taken) s' e where "kv R s k = Some e" "r_set_nx R k v ex s = (False, s')" "kv R s' = kv R s"
proof (cases "kv R s k")
  case None
  with set_nx_absent [OF assms None, of v] show ?thesis
    by (intro acquired [of "snd (r_set_nx R k v ex s)"]) (auto simp: prod_eq_iff)
next
  case (Some e)
  with set_nx_present [OF assms Some, of v] show ?thesis
    by (intro taken [of e "snd (r_set_nx R k v ex s)"]) (auto simp: prod_eq_iff)
qed

end

subsection \<open>An in-memory keyspace\<close>

text \<open>
  A concrete state that satisfies the laws: they can hold together, and the witnesses of the
  development run on it. Hashes and sets are kept as lists.
\<close>

datatype mval = MStr string | MInt int | MHash "(string \<times> string) list" | MSet "string list"

type_synonym mem = "string \<Rightarrow> (mval \<times> nat option) option"

fun rval_of :: "mval \<Rightarrow> rval" where
  "rval_of (MStr v) = RStr v"
| "rval_of (MInt n) = RInt n"
| "rval_of (MHash h) = RHash (map_of h)"
| "rval_of (MSet m) = RSet (set m)"

definition mem_kv :: "mem \<Rightarrow> string \<Rightarrow> entry option" where
  "mem_kv s k = (case s k of None \<Rightarrow> None | Some (v, t) \<Rightarrow> Some (rval_of v, t))"

definition mem_str :: "mem \<Rightarrow> string \<Rightarrow> string option" where
  "mem_str s k = (case s k of Some (MStr v, _) \<Rightarrow> Some v | _ \<Rightarrow> None)"

definition mem_int :: "mem \<Rightarrow> string \<Rightarrow> int" where
  "mem_int s k = (case s k of Some (MInt v, _) \<Rightarrow> v | _ \<Rightarrow> 0)"

definition mem_hash :: "mem \<Rightarrow> string \<Rightarrow> (string \<times> string) list" where
  "mem_hash s k = (case s k of Some (MHash h, _) \<Rightarrow> h | _ \<Rightarrow> [])"

definition mem_members :: "mem \<Rightarrow> string \<Rightarrow> string list" where
  "mem_members s k = (case s k of Some (MSet ms, _) \<Rightarrow> remdups ms | _ \<Rightarrow> [])"

definition mem_ttl :: "mem \<Rightarrow> string \<Rightarrow> nat option" where
  "mem_ttl s k = (case s k of Some (_, t) \<Rightarrow> t | None \<Rightarrow> None)"

definition mem_redis :: "mem redis" where
  "mem_redis = \<lparr>
     kv = mem_kv,
     r_get = mem_str,
     r_set = (\<lambda>k v ex s. s(k \<mapsto> (MStr v, Some ex))),
     r_set_nx = (\<lambda>k v ex s. if s k = None then (True, s(k \<mapsto> (MStr v, Some ex))) else (False, s)),
     r_del = (\<lambda>k s. (if s k = None then 0 else 1, s(k := None))),
     r_exists = (\<lambda>s k. s k \<noteq> None),
     r_incrby = (\<lambda>k n s. (mem_int s k + n, s(k \<mapsto> (MInt (mem_int s k + n), mem_ttl s k)))),
     r_expire = (\<lambda>k ex s. case s k of None \<Rightarrow> s | Some (v, _) \<Rightarrow> s(k \<mapsto> (v, Some ex))),
     r_expire_nx = (\<lambda>k ex s. case s k of Some (v, None) \<Rightarrow> s(k \<mapsto> (v, Some ex)) | _ \<Rightarrow> s),
     r_ttl = (\<lambda>s k. case s k of None \<Rightarrow> -2 | Some (_, None) \<Rightarrow> -1 | Some (_, Some t) \<Rightarrow> int t),
     r_hset = (\<lambda>k m s. s(k \<mapsto> (MHash (m @ mem_hash s k), mem_ttl s k))),
     r_hgetall = mem_hash,
     r_sadd = (\<lambda>k x s. s(k \<mapsto> (MSet (x # mem_members s k), mem_ttl s k))),
     r_srem = (\<lambda>k x s. let ms = removeAll x (mem_members s k) in
        if ms = [] then s(k := None) else s(k \<mapsto> (MSet ms, mem_ttl s k))),
     r_smembers = mem_members\<rparr>"

lemmas mem_defs =
  mem_redis_def mem_kv_def mem_str_def mem_int_def mem_hash_def mem_members_def mem_ttl_def

lemma removeAll_remdups_Nil: "removeAll x (remdups xs) = [] \<longleftrightarrow> set xs \<subseteq> {x}"
  by (metis Diff_eq_empty_iff set_empty set_remdups set_removeAll)

lemma rval_of_kind:
  "rval_of v = RStr x \<longleftrightarrow> v = MStr x" "rval_of v = RInt n \<longleftrightarrow> v = MInt n"
  "rval_of v = RHash h \<longleftrightarrow> (\<exists>l. v = MHash l \<and> map_of l = h)"
  "rval_of v = RSet m \<longleftrightarrow> (\<exists>l. v = MSet l \<and> set l = m)"
  by (cases v; auto)+

lemma mem_redis_service: "redis_service mem_redis"
  by unfold_locales
     (auto simp: mem_defs key_kind_defs view_defs ttl_of_def Let_def rval_of_kind
        removeAll_remdups_Nil split: option.splits rval.splits mval.splits prod.splits if_splits)

interpretation mem: redis_service mem_redis
  by (rule mem_redis_service)

end
