(* ===== verification/Idempotency.thy ===== *)
theory Idempotency
  imports Redis
begin

section \<open>Idempotency keys\<close>

text \<open>
  \<^verbatim>\<open>app/idempotency/store.py\<close> (claim a key, store the response, release the key) and
  \<^verbatim>\<open>app/idempotency/runner.py\<close> (\<^verbatim>\<open>idempotent()\<close>, which wraps a handler), one request after the
  other; the theory Idem_Concurrency has the concurrent ones. The serialiser \<^verbatim>\<open>orjson\<close> is a parameter: its documented behaviour is the locale
  \<open>json_codec\<close>.
\<close>

subsection \<open>The serialiser\<close>

record 'j codec =
  c_dumps :: "'j \<Rightarrow> string"
  c_loads :: "string option \<Rightarrow> exn + 'j"

definition IN_PROGRESS :: string where
  "IN_PROGRESS = ''__in_progress__''"

text \<open>
  What is written is read back; the marker is not a JSON document; \<^verbatim>\<open>loads(None)\<close> raises
  \<^verbatim>\<open>orjson.JSONDecodeError\<close>, which is no \<^verbatim>\<open>ServerException\<close>.
\<close>

locale json_codec =
  fixes C :: "'j codec"
  assumes loads_dumps: "c_loads C (Some (c_dumps C j)) = Inr j"
    and loads_marker: "\<exists>e. c_loads C (Some IN_PROGRESS) = Inl e"
    and loads_none: "\<exists>e. is_unforeseen e \<and> c_loads C None = Inl e"
begin

lemma dumps_not_marker: "c_dumps C j \<noteq> IN_PROGRESS"
  using loads_dumps [of j] loads_marker by auto

end

definition str_codec :: "string codec" where
  "str_codec = \<lparr>c_dumps = (\<lambda>s. CHR 0x22 # s),
     c_loads = (\<lambda>x. case x of
         Some (c # s) \<Rightarrow> if c = CHR 0x22 then Inr s else Inl (OtherError ''JSONDecodeError'' [])
       | _ \<Rightarrow> Inl (OtherError ''JSONDecodeError'' []))\<rparr>"

lemma str_codec_json_codec: "json_codec str_codec"
  by unfold_locales (auto simp: str_codec_def IN_PROGRESS_def)

subsection \<open>The store\<close>

record 'j idempotency_hit =
  hit_found :: bool
  hit_in_progress :: bool
  hit_response :: "'j option"

definition DEFAULT_TTL :: nat where
  "DEFAULT_TTL = 24 * 3600"

definition idem_key :: "string \<Rightarrow> string" where
  "idem_key key = ''idempotency:'' @ key"

definition try_acquire ::
  "'r redis \<Rightarrow> 'j codec \<Rightarrow> nat \<Rightarrow> string \<Rightarrow> 'r \<Rightarrow> (exn + 'j idempotency_hit) \<times> 'r" where
  "try_acquire R C ttl key s =
     (let rkey = idem_key key; (acquired, s1) = r_set_nx R rkey IN_PROGRESS ttl s
      in if acquired
         then (Inr \<lparr>hit_found = False, hit_in_progress = False, hit_response = None\<rparr>, s1)
         else (let existing = r_get R s1 rkey
               in if existing = Some IN_PROGRESS
                  then (Inr \<lparr>hit_found = True, hit_in_progress = True, hit_response = None\<rparr>, s1)
                  else (case c_loads C existing of
                      Inl e \<Rightarrow> (Inl e, s1)
                    | Inr j \<Rightarrow>
                        (Inr \<lparr>hit_found = True, hit_in_progress = False, hit_response = Some j\<rparr>, s1))))"

definition save_response :: "'r redis \<Rightarrow> 'j codec \<Rightarrow> nat \<Rightarrow> string \<Rightarrow> 'j \<Rightarrow> 'r \<Rightarrow> 'r" where
  "save_response R C ttl key j s = r_set R (idem_key key) (c_dumps C j) ttl s"

definition release :: "'r redis \<Rightarrow> string \<Rightarrow> 'r \<Rightarrow> 'r" where
  "release R key s = snd (r_del R (idem_key key) s)"

subsection \<open>The runner\<close>

text \<open>
  The handler \<^verbatim>\<open>produce\<close> works on Redis and on the rest of the world (\<open>'w\<close>, the database).
  \<open>dump\<close> is \<^verbatim>\<open>response.model_dump(mode="json")\<close>, \<open>validate\<close> is \<^verbatim>\<open>model.model_validate\<close>.
\<close>

type_synonym ('r, 'w, 'a) handler = "'r \<Rightarrow> 'w \<Rightarrow> (exn + 'a) \<times> 'r \<times> 'w"

definition idempotent ::
  "'r redis \<Rightarrow> 'j codec \<Rightarrow> nat \<Rightarrow> ('a \<Rightarrow> 'j) \<Rightarrow> ('j \<Rightarrow> exn + 'a) \<Rightarrow> string option \<Rightarrow>
   ('r, 'w, 'a) handler \<Rightarrow> ('r, 'w, 'a) handler" where
  "idempotent R C ttl dump validate key produce s w =
     (if \<not> str_truthy key then produce s w
      else (case try_acquire R C ttl (the key) s of
          (Inl e, s1) \<Rightarrow> (Inl e, s1, w)
        | (Inr hit, s1) \<Rightarrow>
            if hit_in_progress hit
            then (Inl (ConflictError ''A request with this Idempotency-Key is already in progress''), s1, w)
            else if hit_found hit \<and> hit_response hit \<noteq> None
            then (validate (the (hit_response hit)), s1, w)
            else (case produce s1 w of
                (Inl e, s2, w2) \<Rightarrow> (Inl e, release R (the key) s2, w2)
              | (Inr resp, s2, w2) \<Rightarrow>
                  (Inr resp, save_response R C ttl (the key) (dump resp) s2, w2))))"

text \<open>\<open>produce\<close> leaves a key of the store alone.\<close>

definition keeps_key :: "'r redis \<Rightarrow> string \<Rightarrow> ('r, 'w, 'a) handler \<Rightarrow> bool" where
  "keeps_key R rkey produce \<longleftrightarrow>
     (\<forall>s w. kv R (fst (snd (produce s w))) rkey = kv R s rkey)"

subsection \<open>Sequential behaviour\<close>

locale idempotency = redis_service R + json_codec C
  for R :: "'r redis" and C :: "'j codec" +
  fixes ttl :: nat
  assumes ttl_pos: "0 < ttl"
begin

lemma try_acquire_free:
  assumes "kv R s (idem_key key) = None"
  obtains s1 where "try_acquire R C ttl key s =
      (Inr \<lparr>hit_found = False, hit_in_progress = False, hit_response = None\<rparr>, s1)"
    "kv R s1 = (kv R s)(idem_key key \<mapsto> (RStr IN_PROGRESS, Some ttl))"
proof (cases rule: set_nx_cases [OF ttl_pos, of s "idem_key key" IN_PROGRESS])
  case (1 s')
  then show ?thesis by (intro that [of s']) (simp_all add: try_acquire_def Let_def)
next
  case (2 s' e)
  with assms show ?thesis by simp
qed

lemma try_acquire_busy:
  assumes "kv R s (idem_key key) = Some (RStr IN_PROGRESS, t)"
  obtains s1 where "try_acquire R C ttl key s =
      (Inr \<lparr>hit_found = True, hit_in_progress = True, hit_response = None\<rparr>, s1)" "kv R s1 = kv R s"
proof (cases rule: set_nx_cases [OF ttl_pos, of s "idem_key key" IN_PROGRESS])
  case (1 s')
  with assms show ?thesis by simp
next
  case (2 s' e)
  with assms have "r_get R s' (idem_key key) = Some IN_PROGRESS"
    by (intro get_present) simp
  with 2 show ?thesis by (intro that [of s']) (simp_all add: try_acquire_def Let_def)
qed

lemma try_acquire_stored:
  assumes "kv R s (idem_key key) = Some (RStr (c_dumps C j), t)"
  obtains s1 where "try_acquire R C ttl key s =
      (Inr \<lparr>hit_found = True, hit_in_progress = False, hit_response = Some j\<rparr>, s1)" "kv R s1 = kv R s"
proof (cases rule: set_nx_cases [OF ttl_pos, of s "idem_key key" IN_PROGRESS])
  case (1 s')
  with assms show ?thesis by simp
next
  case (2 s' e)
  with assms have "r_get R s' (idem_key key) = Some (c_dumps C j)"
    by (intro get_present) simp
  with 2 dumps_not_marker [of j] show ?thesis
    by (intro that [of s']) (simp_all add: try_acquire_def Let_def loads_dumps)
qed

lemma kv_save: "kv R (save_response R C ttl key j s) =
    (kv R s)(idem_key key \<mapsto> (RStr (c_dumps C j), Some ttl))"
  by (simp add: save_response_def set_law ttl_pos)

lemma kv_release: "kv R (release R key s) = (kv R s)(idem_key key := None)"
  by (simp add: release_def kv_del)

lemma first_run_stores:
  assumes "kv R s (idem_key key) = None" "key \<noteq> []"
    and "idempotent R C ttl dump validate (Some key) produce s w = (Inr resp, s', w')"
  shows "kv R s' (idem_key key) = Some (RStr (c_dumps C (dump resp)), Some ttl)"
proof -
  obtain s1 where s1: "try_acquire R C ttl key s =
      (Inr \<lparr>hit_found = False, hit_in_progress = False, hit_response = None\<rparr>, s1)"
    using try_acquire_free [OF assms(1)] .
  with assms(2,3) show ?thesis
    by (auto simp: idempotent_def kv_save split: sum.splits prod.splits)
qed

lemma replay:
  assumes "kv R s (idem_key key) = Some (RStr (c_dumps C (dump resp)), t)" "key \<noteq> []"
  obtains s' where "idempotent R C ttl dump validate (Some key) produce s w = (validate (dump resp), s', w)"
    "kv R s' = kv R s"
proof -
  obtain s1 where "try_acquire R C ttl key s =
      (Inr \<lparr>hit_found = True, hit_in_progress = False, hit_response = Some (dump resp)\<rparr>, s1)"
    "kv R s1 = kv R s"
    using try_acquire_stored [OF assms(1)] .
  with assms(2) show ?thesis by (intro that [of s1]) (auto simp: idempotent_def)
qed

lemma busy_conflict:
  assumes "kv R s (idem_key key) = Some (RStr IN_PROGRESS, t)" "key \<noteq> []"
  obtains s' where "idempotent R C ttl dump validate (Some key) produce s w =
      (Inl (ConflictError ''A request with this Idempotency-Key is already in progress''), s', w)"
    "kv R s' = kv R s"
proof -
  obtain s1 where "try_acquire R C ttl key s =
      (Inr \<lparr>hit_found = True, hit_in_progress = True, hit_response = None\<rparr>, s1)" "kv R s1 = kv R s"
    using try_acquire_busy [OF assms(1)] .
  with assms(2) show ?thesis by (intro that [of s1]) (auto simp: idempotent_def)
qed

lemma failure_releases:
  assumes "kv R s (idem_key key) = None" "key \<noteq> []"
    and "idempotent R C ttl dump validate (Some key) produce s w = (Inl e, s', w')"
  shows "kv R s' (idem_key key) = None"
proof -
  obtain s1 where "try_acquire R C ttl key s =
      (Inr \<lparr>hit_found = False, hit_in_progress = False, hit_response = None\<rparr>, s1)"
    using try_acquire_free [OF assms(1)] .
  with assms(2,3) show ?thesis
    by (auto simp: idempotent_def kv_release split: sum.splits prod.splits)
qed

end

lemma mem_idempotency: "idempotency mem_redis str_codec 86400"
  by (intro idempotency.intro mem_redis_service str_codec_json_codec idempotency_axioms.intro) simp

interpretation mem_idem: idempotency mem_redis str_codec 86400
  by (rule mem_idempotency)

subsection \<open>Properties\<close>

text \<open>
  A completed request is replayed: once \<^verbatim>\<open>idempotent()\<close> has returned a response for a free key,
  every later call with that key, while the key is live, returns the rehydrated stored response
  and executes nothing: the handler does not run and the rest of the world is unchanged.
\<close>

theorem idempotent_replays:
  assumes "idempotency R C ttl" "key \<noteq> []"
    and "kv R s (idem_key key) = None"
    and "idempotent R C ttl dump validate (Some key) produce s w = (Inr resp, s1, w1)"
    and "kv R s2 (idem_key key) = kv R s1 (idem_key key)"
  shows "\<exists>s3. idempotent R C ttl dump validate (Some key) produce' s2 w2 =
      (validate (dump resp), s3, w2) \<and> kv R s3 = kv R s2"
  using idempotency.first_run_stores [OF assms(1,3,2,4)] assms(2,5)
    idempotency.replay [OF assms(1), of s2 key dump resp "Some ttl" validate produce' w2]
  by metis

theorem idempotent_replays_witness:
  "\<exists>s3. idempotent mem_redis str_codec 86400 (\<lambda>x. x) Inr (Some ''k-000001'') (\<lambda>s w. (Inr ''again'', s, w + 1))
      [''idempotency:k-000001'' \<mapsto> (MStr ([CHR 0x22] @ ''done''), Some 86400)] (7::nat) =
      (Inr ''done'', s3, 7)"
proof -
  let ?p = "\<lambda>s (w::nat). (Inr ''done'', s, w + 1) :: (exn + string) \<times> mem \<times> nat"
  have run: "idempotent mem_redis str_codec 86400 (\<lambda>x. x) Inr (Some ''k-000001'') ?p Map.empty 6
      = (Inr ''done'', [''idempotency:k-000001'' \<mapsto> (MStr ([CHR 0x22] @ ''done''), Some 86400)], 7)"
    by (simp add: idempotent_def try_acquire_def save_response_def mem_redis_def
        str_codec_def idem_key_def)
  have free: "kv mem_redis Map.empty (idem_key ''k-000001'') = None" by (simp add: mem_defs)
  have "\<exists>s3. idempotent mem_redis str_codec 86400 (\<lambda>x. x) Inr (Some ''k-000001'')
      (\<lambda>s w. (Inr ''again'', s, w + 1))
      [''idempotency:k-000001'' \<mapsto> (MStr ([CHR 0x22] @ ''done''), Some 86400)] (7::nat) =
      (Inr ''done'', s3, 7) \<and> kv mem_redis s3 = kv mem_redis
      [''idempotency:k-000001'' \<mapsto> (MStr ([CHR 0x22] @ ''done''), Some 86400)]"
    by (rule idempotent_replays [OF mem_idempotency _ free run refl]) simp
  then show ?thesis by blast
qed

text \<open>
  A failed handler does not block its key: if the handler raises, the exception is passed on
  and the key is free again, and a request that finds the key claimed by an unfinished one gets a
  conflict (409) without running the handler.
\<close>

theorem idempotent_failure_and_conflict:
  assumes "idempotency R C ttl" "key \<noteq> []"
  shows "(kv R s (idem_key key) = None \<and>
        idempotent R C ttl dump validate (Some key) produce s w = (Inl e, s1, w1) \<longrightarrow>
        kv R s1 (idem_key key) = None) \<and>
    (kv R s (idem_key key) = Some (RStr IN_PROGRESS, t) \<longrightarrow>
      (\<exists>s2 ex. idempotent R C ttl dump validate (Some key) produce s w = (Inl ex, s2, w) \<and>
        he_status (handle_exception rid ex) = 409 \<and> kv R s2 = kv R s))"
proof (intro conjI impI)
  assume a: "kv R s (idem_key key) = None \<and>
    idempotent R C ttl dump validate (Some key) produce s w = (Inl e, s1, w1)"
  then show "kv R s1 (idem_key key) = None"
    by (elim conjE) (rule idempotency.failure_releases [OF assms(1) _ assms(2)])
next
  assume "kv R s (idem_key key) = Some (RStr IN_PROGRESS, t)"
  from idempotency.busy_conflict [OF assms(1) this assms(2), of dump validate produce w]
  obtain s2 where "idempotent R C ttl dump validate (Some key) produce s w =
      (Inl (ConflictError ''A request with this Idempotency-Key is already in progress''), s2, w)"
    "kv R s2 = kv R s" .
  then show "\<exists>s2 ex. idempotent R C ttl dump validate (Some key) produce s w = (Inl ex, s2, w) \<and>
      he_status (handle_exception rid ex) = 409 \<and> kv R s2 = kv R s"
    by (auto simp: handle_controlled render_def)
qed

theorem idempotent_failure_and_conflict_witness:
  "kv mem_redis (fst (snd (idempotent mem_redis str_codec 86400 (\<lambda>x. x) Inr (Some ''k-000001'')
      (\<lambda>s w. (Inl (NotFoundError ''gone''), s, w)) Map.empty ()))) (idem_key ''k-000001'') = None"
proof -
  have run: "idempotent mem_redis str_codec 86400 (\<lambda>x. x) Inr (Some ''k-000001'')
      (\<lambda>s w. (Inl (NotFoundError ''gone''), s, w)) Map.empty ()
      = (Inl (NotFoundError ''gone''), Map.empty, ())"
    by (simp add: idempotent_def try_acquire_def release_def mem_redis_def idem_key_def fun_eq_iff)
  show ?thesis
    using idempotent_failure_and_conflict [OF mem_idempotency, of "''k-000001''"] run
    by (auto simp: mem_defs)
qed

end
