(* ===== verification/Cache.thy ===== *)
theory Cache
  imports Idempotency Config "HOL-Library.List_Lexorder"
begin

section \<open>The cache\<close>

text \<open>
  \<^verbatim>\<open>app/cache/base.py\<close> (the interface \<^verbatim>\<open>AbstractCache\<close>, here a record of operations and the locale
  \<open>abstract_cache\<close> with the laws the services rely on), \<^verbatim>\<open>app/cache/redis_cache.py\<close> (its Redis
  implementation, which provides the laws) and \<^verbatim>\<open>app/decorators/cache.py\<close> (\<^verbatim>\<open>cached\<close>, proved inside the
  interface). \<open>'s\<close> is the state of the cache, \<open>'v\<close> the values it stores.
\<close>

record ('s, 'v) cache =
  ca_get :: "string \<Rightarrow> 's \<Rightarrow> exn + 'v option"
  ca_set :: "string \<Rightarrow> 'v \<Rightarrow> nat option \<Rightarrow> 's \<Rightarrow> 's"
  ca_delete :: "string list \<Rightarrow> 's \<Rightarrow> nat \<times> 's"
  ca_exists :: "string \<Rightarrow> 's \<Rightarrow> bool"
  ca_incr :: "string \<Rightarrow> int \<Rightarrow> nat option \<Rightarrow> 's \<Rightarrow> int \<times> 's"

text \<open>
  The interface, on the keys of a namespace \<open>ns\<close>: \<open>view\<close> is what the cache holds, \<open>wf\<close> that the
  namespace holds only values the cache wrote.
\<close>

locale abstract_cache =
  fixes Ch :: "('s, 'v) cache" and ns :: "string \<Rightarrow> bool"
    and view :: "'s \<Rightarrow> string \<Rightarrow> 'v option" and wf :: "'s \<Rightarrow> bool"
  assumes get_view: "wf s \<Longrightarrow> ns k \<Longrightarrow> ca_get Ch k s = Inr (view s k)"
    and set_wf: "wf s \<Longrightarrow> ns k \<Longrightarrow> wf (ca_set Ch k v ttl s)"
    and set_view: "wf s \<Longrightarrow> ns k \<Longrightarrow> ns k' \<Longrightarrow>
          view (ca_set Ch k v ttl s) k' = (if k' = k then Some v else view s k')"
    and delete_wf: "wf s \<Longrightarrow> wf (snd (ca_delete Ch ks s))"
    and delete_view: "wf s \<Longrightarrow> ns k \<Longrightarrow>
          view (snd (ca_delete Ch ks s)) k = (if k \<in> set ks then None else view s k)"
begin

lemma get_after_set: "wf s \<Longrightarrow> ns k \<Longrightarrow> ca_get Ch k (ca_set Ch k v ttl s) = Inr (Some v)"
  by (simp add: get_view set_wf set_view)

lemma get_after_delete: "wf s \<Longrightarrow> ns k \<Longrightarrow> k \<in> set ks \<Longrightarrow> ca_get Ch k (snd (ca_delete Ch ks s)) = Inr None"
  by (simp add: get_view delete_wf delete_view)

end

subsection \<open>The Redis implementation\<close>

definition ttl_or :: "nat option \<Rightarrow> nat \<Rightarrow> nat" where
  "ttl_or ttl d = (case ttl of None \<Rightarrow> d | Some n \<Rightarrow> if n = 0 then d else n)"

definition cache_get :: "'r redis \<Rightarrow> 'j codec \<Rightarrow> string \<Rightarrow> 'r \<Rightarrow> exn + 'j option" where
  "cache_get R C key s = (let raw = r_get R s key
     in if raw = None then Inr None
        else (case c_loads C raw of Inl e \<Rightarrow> Inl e | Inr v \<Rightarrow> Inr (Some v)))"

definition cache_set :: "'r redis \<Rightarrow> 'j codec \<Rightarrow> nat \<Rightarrow> string \<Rightarrow> 'j \<Rightarrow> nat option \<Rightarrow> 'r \<Rightarrow> 'r" where
  "cache_set R C default_ttl key v ttl s = r_set R key (c_dumps C v) (ttl_or ttl default_ttl) s"

definition cache_delete :: "'r redis \<Rightarrow> string list \<Rightarrow> 'r \<Rightarrow> nat \<times> 'r" where
  "cache_delete R keys s = (if keys = [] then (0, s)
     else fold (\<lambda>k (n, s). let (m, s') = r_del R k s in (n + m, s')) keys (0, s))"

definition cache_exists :: "'r redis \<Rightarrow> string \<Rightarrow> 'r \<Rightarrow> bool" where
  "cache_exists R key s = r_exists R s key"

definition cache_incr :: "'r redis \<Rightarrow> string \<Rightarrow> int \<Rightarrow> nat option \<Rightarrow> 'r \<Rightarrow> int \<times> 'r" where
  "cache_incr R key amount ttl s =
     (let (n, s) = r_incrby R key amount s;
          s = (case ttl of None \<Rightarrow> s | Some t \<Rightarrow> r_expire_nx R key t s)
      in (n, s))"

definition redis_cache :: "'r redis \<Rightarrow> 'j codec \<Rightarrow> nat \<Rightarrow> ('r, 'j) cache" where
  "redis_cache R C default_ttl = \<lparr>ca_get = cache_get R C, ca_set = cache_set R C default_ttl,
     ca_delete = cache_delete R, ca_exists = cache_exists R, ca_incr = cache_incr R\<rparr>"

text \<open>What a key of the cache may hold, and what it shows.\<close>

definition cache_entry :: "'r redis \<Rightarrow> 'j codec \<Rightarrow> 'r \<Rightarrow> string \<Rightarrow> bool" where
  "cache_entry R C s k \<longleftrightarrow> (\<forall>v t. kv R s k = Some (v, t) \<longrightarrow> (\<exists>j. v = RStr (c_dumps C j)))"

definition cache_view :: "'r redis \<Rightarrow> 'j codec \<Rightarrow> 'r \<Rightarrow> string \<Rightarrow> 'j option" where
  "cache_view R C s k = (case kv R s k of
     Some (RStr raw, _) \<Rightarrow> (case c_loads C (Some raw) of Inr v \<Rightarrow> Some v | Inl _ \<Rightarrow> None) | _ \<Rightarrow> None)"

definition cache_wf :: "'r redis \<Rightarrow> 'j codec \<Rightarrow> (string \<Rightarrow> bool) \<Rightarrow> 'r \<Rightarrow> bool" where
  "cache_wf R C ns s \<longleftrightarrow> (\<forall>k. ns k \<longrightarrow> cache_entry R C s k)"

locale redis_cache_service = redis_service R + json_codec C
  for R :: "'r redis" and C :: "'j codec" +
  fixes default_ttl :: nat
  assumes default_ttl_pos: "0 < default_ttl"
begin

lemma kv_cache_set: "kv R (cache_set R C default_ttl k v ttl s) =
    (kv R s)(k \<mapsto> (RStr (c_dumps C v), Some (ttl_or ttl default_ttl)))"
  using default_ttl_pos
  by (simp add: cache_set_def set_law ttl_or_def split: option.split)

lemma kv_cache_delete_fold:
  "kv R (snd (fold (\<lambda>k (n, s). let (m, s') = r_del R k s in (n + m, s')) keys (n, s))) =
   (\<lambda>k. if k \<in> set keys then None else kv R s k)"
proof (induction keys arbitrary: n s)
  case (Cons a keys)
  obtain m s' where d: "r_del R a s = (m, s')" by force
  then have "kv R s' = (kv R s)(a := None)" using kv_del by (metis snd_conv)
  with Cons.IH d show ?case by (auto simp: fun_eq_iff)
qed simp

lemma kv_cache_delete: "kv R (snd (cache_delete R keys s)) = (\<lambda>k. if k \<in> set keys then None else kv R s k)"
  using kv_cache_delete_fold [of keys 0 s] by (simp add: cache_delete_def fun_eq_iff Let_def)

lemma cache_get_view:
  assumes "cache_entry R C s k"
  shows "cache_get R C k s = Inr (cache_view R C s k)"
proof (cases "kv R s k")
  case None
  then show ?thesis by (simp add: cache_get_def cache_view_def get_absent)
next
  case (Some e)
  with assms obtain j t where "kv R s k = Some (RStr (c_dumps C j), t)"
    by (cases e) (auto simp: cache_entry_def)
  then show ?thesis by (simp add: cache_get_def cache_view_def get_present loads_dumps)
qed

lemma abstract_cache: "abstract_cache (redis_cache R C default_ttl) ns (cache_view R C) (cache_wf R C ns)"
proof (unfold_locales, goal_cases)
  case (1 s k)
  then show ?case by (simp add: redis_cache_def cache_wf_def cache_get_view)
next
  case (2 s k v ttl)
  then show ?case by (auto simp: redis_cache_def cache_wf_def cache_entry_def kv_cache_set)
next
  case (3 s k k' v ttl)
  then show ?case by (simp add: redis_cache_def cache_view_def kv_cache_set loads_dumps)
next
  case (4 s ks)
  then show ?case by (auto simp: redis_cache_def cache_wf_def cache_entry_def kv_cache_delete)
next
  case (5 s k ks)
  then show ?case by (simp add: redis_cache_def cache_view_def kv_cache_delete)
qed

lemma incr_counts:
  assumes "is_int_key R s k" "ttl = None \<or> ttl = Some t \<and> 0 < t"
  shows "fst (cache_incr R k n ttl s) = int_at R s k + n \<and>
    int_at R (snd (cache_incr R k n ttl s)) k = int_at R s k + n"
  using incrby_law [OF assms(1), of n] assms(2)
  by (cases "r_incrby R k n s")
     (auto simp: cache_incr_def int_at_def expire_nx_law ttl_of_def split: option.splits)

end

lemma mem_redis_cache: "redis_cache_service mem_redis str_codec 60"
  by (intro redis_cache_service.intro mem_redis_service str_codec_json_codec
      redis_cache_service_axioms.intro) simp

interpretation mem_cache: redis_cache_service mem_redis str_codec 60
  by (rule mem_redis_cache)

interpretation mem_abstract_cache:
  abstract_cache "redis_cache mem_redis str_codec 60" "\<lambda>_. True" "cache_view mem_redis str_codec"
    "cache_wf mem_redis str_codec (\<lambda>_. True)"
  by (rule mem_cache.abstract_cache)

subsection \<open>The decorator \<open>cached\<close>\<close>

text \<open>
  Arguments are given by their texts (\<^verbatim>\<open>str(a)\<close>); the first positional one is \<^verbatim>\<open>self\<close>.
\<close>

definition str_join :: "string \<Rightarrow> string list \<Rightarrow> string" where
  "str_join sep xs = (case xs of [] \<Rightarrow> [] | y # ys \<Rightarrow> y @ concat (map (\<lambda>z. sep @ z) ys))"

definition build_key ::
  "string \<Rightarrow> string list \<Rightarrow> string list \<Rightarrow> (string \<times> string) list \<Rightarrow> string" where
  "build_key pfx key_args args kwargs =
     (let parts = (if key_args \<noteq> []
        then concat (map (\<lambda>a. case map_of kwargs a of None \<Rightarrow> [] | Some v \<Rightarrow> [v]) key_args)
        else tl args @ map (\<lambda>(k, v). k @ ''='' @ v)
          (sort_key (\<lambda>kv. map (of_char :: char \<Rightarrow> nat) (fst kv)) kwargs))
      in pfx @ '':'' @ str_join '':'' parts)"

text \<open>
  The wrapper around a function of the arguments: \<^verbatim>\<open>None\<close> results are \<^const>\<open>None\<close>. \<open>'w\<close> is the
  state the function works on.
\<close>

definition cached ::
  "('s, 'v) cache \<Rightarrow> string \<Rightarrow> nat \<Rightarrow> string list \<Rightarrow>
   (string list \<Rightarrow> (string \<times> string) list \<Rightarrow> 'w \<Rightarrow> (exn + 'v option) \<times> 'w) \<Rightarrow>
   string list \<Rightarrow> (string \<times> string) list \<Rightarrow> 's \<Rightarrow> 'w \<Rightarrow> (exn + 'v option) \<times> 's \<times> 'w" where
  "cached Ch pfx ttl key_args func args kwargs s w =
     (let key = build_key pfx key_args args kwargs
      in case ca_get Ch key s of
           Inl e \<Rightarrow> (Inl e, s, w)
         | Inr (Some v) \<Rightarrow> (Inr (Some v), s, w)
         | Inr None \<Rightarrow> (case func args kwargs w of
               (Inl e, w') \<Rightarrow> (Inl e, s, w')
             | (Inr None, w') \<Rightarrow> (Inr None, s, w')
             | (Inr (Some v), w') \<Rightarrow> (Inr (Some v), ca_set Ch key v (Some ttl) s, w')))"

context abstract_cache
begin

lemma cached_hit:
  "wf s \<Longrightarrow> ns (build_key p ka args kw) \<Longrightarrow> view s (build_key p ka args kw) = Some v \<Longrightarrow>
   cached Ch p ttl ka f args kw s w = (Inr (Some v), s, w)"
  by (simp add: cached_def get_view Let_def)

lemma cached_miss:
  "wf s \<Longrightarrow> ns (build_key p ka args kw) \<Longrightarrow> view s (build_key p ka args kw) = None \<Longrightarrow>
   fst (cached Ch p ttl ka f args kw s w) = fst (f args kw w) \<and>
   snd (snd (cached Ch p ttl ka f args kw s w)) = snd (f args kw w)"
  by (auto simp: cached_def Let_def get_view split: prod.splits sum.splits option.splits)

lemma cached_stores:
  assumes "wf s" "ns (build_key p ka args kw)" "cached Ch p ttl ka f args kw s w = (Inr (Some v), s', w')"
  shows "wf s' \<and> cached Ch p ttl ka g args kw s' w2 = (Inr (Some v), s', w2)"
proof -
  have "wf s' \<and> view s' (build_key p ka args kw) = Some v"
    using assms
    by (auto simp: cached_def Let_def get_view set_wf set_view split: prod.splits sum.splits option.splits)
  with assms(2) show ?thesis by (simp add: cached_hit)
qed

lemma cached_none_not_stored:
  "wf s \<Longrightarrow> ns (build_key p ka args kw) \<Longrightarrow> view s (build_key p ka args kw) = None \<Longrightarrow>
   fst (f args kw w) = Inr None \<or> (\<exists>e. fst (f args kw w) = Inl e) \<Longrightarrow>
   fst (snd (cached Ch p ttl ka f args kw s w)) = s"
  by (auto simp: cached_def Let_def get_view split: prod.splits)

end

text \<open>
  The decorator \<^verbatim>\<open>cached\<close> over the Redis cache calls the function at most once per key and life of
  the entry: a non-empty result is stored and returned to later calls of any function under that
  key without running it, while failures and \<^verbatim>\<open>None\<close> are passed on and not stored.
\<close>

theorem cached_memoises:
  assumes "redis_cache_service R C d" "cache_wf R C ns s" "ns (build_key p ka args kw)"
    and "cached (redis_cache R C d) p ttl ka f args kw s w = (r, s', w')"
  shows "case r of
      Inr (Some v) \<Rightarrow> cached (redis_cache R C d) p ttl ka g args kw s' w2 = (Inr (Some v), s', w2)
    | _ \<Rightarrow> cache_view R C s (build_key p ka args kw) = None \<and> s' = s \<and> f args kw w = (r, w')"
proof -
  note a = redis_cache_service.abstract_cache [OF assms(1), of ns]
  show ?thesis
  proof (cases "\<exists>v. r = Inr (Some v)")
    case True
    then show ?thesis using abstract_cache.cached_stores [OF a assms(2,3)] assms(4) by fastforce
  next
    case False
    then have "cache_view R C s (build_key p ka args kw) = None"
      using abstract_cache.cached_hit [OF a assms(2,3), of _ ttl f w] assms(4)
      by (cases "cache_view R C s (build_key p ka args kw)") auto
    with False show ?thesis
      using abstract_cache.get_view [OF a assms(2,3)] assms(4)
      by (auto simp: cached_def Let_def split: prod.splits sum.splits option.splits)
  qed
qed

theorem cached_memoises_witness:
  "cached (redis_cache mem_redis str_codec 60) ''user'' 30 [] (\<lambda>_ _ w. (Inr (Some ''other''), w + 1))
     [''self'', ''7''] [] (cache_set mem_redis str_codec 60 ''user:7'' ''ann'' (Some 30) Map.empty) (5::nat) =
   (Inr (Some ''ann''), cache_set mem_redis str_codec 60 ''user:7'' ''ann'' (Some 30) Map.empty, 5)"
proof -
  let ?f = "\<lambda>(_ :: string list) (_ :: (string \<times> string) list) (w::nat). (Inr (Some ''ann'') :: exn + string option, w + 1)"
  have run: "cached (redis_cache mem_redis str_codec 60) ''user'' 30 [] ?f [''self'', ''7''] [] Map.empty 4 =
      (Inr (Some ''ann''), cache_set mem_redis str_codec 60 ''user:7'' ''ann'' (Some 30) Map.empty, 5)"
    by (simp add: cached_def Let_def build_key_def str_join_def redis_cache_def cache_get_def mem_defs)
  have "cache_wf mem_redis str_codec (\<lambda>_. True) Map.empty"
    by (simp add: cache_wf_def cache_entry_def mem_defs)
  from cached_memoises [OF mem_redis_cache this _ run, of "\<lambda>_ _ w. (Inr (Some ''other''), w + 1)" "5::nat"]
  show ?thesis by simp
qed

end
