(* ===== verification/Services.thy ===== *)
theory Services
  imports Repositories Cache
begin

section \<open>What the services share: their state, their forms, the user cache\<close>

text \<open>
  A service works on the unit of work and on the state of Redis (\<open>'s\<close>), which holds the cache and
  the sessions. The forms (\<^verbatim>\<open>app/schemas/user.py\<close>, \<^verbatim>\<open>app/schemas/account.py\<close>) are records; pydantic's
  dump of the detailed user form for the cache and its validation are the parameters \<open>dump\<close> and
  \<open>undump\<close>. The invariant \<open>cache_coherent\<close> says that a cached user is the user in the database.
\<close>

subsection \<open>Forms\<close>

record account_read =
  ar_id :: uuid
  ar_user_id :: uuid
  ar_name :: string
  ar_balance :: int

record profile_read =
  pr_bio :: "string option"
  pr_avatar_url :: "string option"

record user_read =
  ur_id :: uuid
  ur_email :: string
  ur_full_name :: string
  ur_is_active :: bool
  ur_role :: role
  ur_created_at :: timestamp
  ur_updated_at :: timestamp

record user_read_detail = user_read +
  ud_accounts :: "account_read list"
  ud_profile :: "profile_read option"

definition account_read_of :: "account_row \<Rightarrow> account_read" where
  "account_read_of a = \<lparr>ar_id = a_id a, ar_user_id = a_user_id a, ar_name = a_name a, ar_balance = a_balance a\<rparr>"

definition profile_read_of :: "profile_row \<Rightarrow> profile_read" where
  "profile_read_of p = \<lparr>pr_bio = p_bio p, pr_avatar_url = p_avatar_url p\<rparr>"

definition user_read_of :: "user_row \<Rightarrow> user_read" where
  "user_read_of u = \<lparr>ur_id = u_id u, ur_email = u_email u, ur_full_name = u_full_name u,
     ur_is_active = u_is_active u, ur_role = u_role u, ur_created_at = u_created_at u,
     ur_updated_at = u_updated_at u\<rparr>"

definition detail_of :: "user_read \<Rightarrow> account_read list \<Rightarrow> profile_read option \<Rightarrow> user_read_detail" where
  "detail_of u acc p = \<lparr>ur_id = ur_id u, ur_email = ur_email u, ur_full_name = ur_full_name u,
     ur_is_active = ur_is_active u, ur_role = ur_role u, ur_created_at = ur_created_at u,
     ur_updated_at = ur_updated_at u, ud_accounts = acc, ud_profile = p\<rparr>"

text \<open>\<^verbatim>\<open>UserReadDetail.model_validate(user)\<close> of a user loaded with accounts and profile.\<close>

definition user_detail :: "db \<Rightarrow> user_row \<Rightarrow> user_read_detail" where
  "user_detail d u = detail_of (user_read_of u) (map account_read_of (user_accounts d (u_id u)))
     (map_option profile_read_of (user_profile d (u_id u)))"

definition db_user_detail :: "db \<Rightarrow> uuid \<Rightarrow> user_read_detail option" where
  "db_user_detail d uid = map_option (user_detail d) (row_get u_id (users d) uid)"

lemma user_read_of_sel [simp]: "ur_id (user_read_of u) = u_id u" "ur_is_active (user_read_of u) = u_is_active u"
  "ur_email (user_read_of u) = u_email u" "ur_role (user_read_of u) = u_role u"
  by (simp_all add: user_read_of_def)

subsection \<open>Service state\<close>

record 's svc =
  sv_uow :: uow
  sv_redis :: 's

type_synonym ('s, 'a) svc_op = "'s svc \<Rightarrow> (exn + 'a) \<times> 's svc"

text \<open>A transaction, then what follows it outside the transaction when it succeeds.\<close>

definition in_tx :: "'a tx \<Rightarrow> ('a \<Rightarrow> ('s, 'b) svc_op) \<Rightarrow> ('s, 'b) svc_op" where
  "in_tx body after v = (case with_uow body (sv_uow v) of
       (Inl e, u) \<Rightarrow> (Inl e, v\<lparr>sv_uow := u\<rparr>)
     | (Inr x, u) \<Rightarrow> after x (v\<lparr>sv_uow := u\<rparr>))"

definition sv_return :: "'a \<Rightarrow> ('s, 'a) svc_op" where
  "sv_return x v = (Inr x, v)"

definition sv_db :: "'s svc \<Rightarrow> db" where
  "sv_db v = committed (sv_uow v)"

definition sv_idle :: "'s svc \<Rightarrow> bool" where
  "sv_idle v \<longleftrightarrow> session (sv_uow v) = None"

lemma sv_simps [simp]:
  "sv_db (v\<lparr>sv_redis := r\<rparr>) = sv_db v" "sv_idle (v\<lparr>sv_redis := r\<rparr>) = sv_idle v"
  "sv_db (v\<lparr>sv_uow := u\<rparr>) = committed u" "sv_idle (v\<lparr>sv_uow := u\<rparr>) = (session u = None)"
  by (simp_all add: sv_db_def sv_idle_def)

lemma in_tx_ok:
  assumes "\<And>u. db_ok (committed u) \<Longrightarrow> db_ok (committed (snd (m u)))"
    and "\<And>x v. db_ok (sv_db v) \<Longrightarrow> db_ok (sv_db (snd (f x v)))" "db_ok (sv_db v)"
  shows "db_ok (sv_db (snd (in_tx m f v)))"
proof -
  have "keeps_ok (with_uow m)" using assms(1) by (intro keeps) (simp add: keeps_ok_def)
  then have "db_ok (committed (snd (with_uow m (sv_uow v))))"
    using assms(3) by (simp add: keeps_ok_def sv_db_def)
  then show ?thesis using assms(2)
    by (cases "with_uow m (sv_uow v)"; cases "fst (with_uow m (sv_uow v))") (auto simp: in_tx_def)
qed

text \<open>
  A transaction that commits last either fails and leaves everything as it was, or has a result
  and then what follows it runs on the committed contents.
\<close>

lemma in_tx_cases:
  assumes "sv_idle v" "atomic m"
  obtains (failed) e where "m (opened (sv_db v)) = (Inl e, snd (m (opened (sv_db v))))"
      "in_tx m f v = (Inl e, v\<lparr>sv_uow := idle (sv_db v)\<rparr>)"
    | (finished) x u where "m (opened (sv_db v)) = (Inr x, u)"
      "in_tx m f v = f x (v\<lparr>sv_uow := idle (committed u)\<rparr>)"
proof (cases "m (opened (sv_db v))")
  case (Pair r u)
  with assms show ?thesis
    by (cases r) (auto simp: in_tx_def sv_idle_def sv_db_def with_uow_inactive atomic_def
        intro: failed finished)
qed

lemma in_tx_elim:
  assumes "in_tx m f v = (r, v')" "sv_idle v" "atomic m"
  obtains (failed) e where "r = Inl e" "v' = v\<lparr>sv_uow := idle (sv_db v)\<rparr>"
    | (finished) x u where "m (opened (sv_db v)) = (Inr x, u)"
      "f x (v\<lparr>sv_uow := idle (committed u)\<rparr>) = (r, v')"
  by (rule in_tx_cases [OF assms(2,3), of f]) (use assms(1) in \<open>auto intro: that\<close>)

lemma in_tx_failed:
  "sv_idle v \<Longrightarrow> m (opened (sv_db v)) = (Inl e, u) \<Longrightarrow> atomic m \<Longrightarrow>
   in_tx m f v = (Inl e, v\<lparr>sv_uow := idle (sv_db v)\<rparr>)"
  by (erule (1) in_tx_cases) auto

lemma in_tx_finished:
  "sv_idle v \<Longrightarrow> m (opened (sv_db v)) = (Inr x, u) \<Longrightarrow>
   in_tx m f v = f x (v\<lparr>sv_uow := idle (committed u)\<rparr>)"
  by (simp add: in_tx_def sv_idle_def sv_db_def with_uow_inactive)

end
