(* ===== verification/Query.thy ===== *)
theory Query
  imports Errors
begin

section \<open>Filtering, sorting and searching lists\<close>

text \<open>
  \<^verbatim>\<open>app/db/query.py\<close>: the query parameters of a list become conditions and orderings of a
  statement. A model is its columns with their Python types; a statement is what the code has put
  into it, as data (\<open>select_stmt\<close>). The parsers of \<^verbatim>\<open>float\<close>, \<^verbatim>\<open>datetime\<close> and \<^verbatim>\<open>date\<close> are parameters
  (\<^const>\<open>None\<close> is \<^verbatim>\<open>ValueError\<close>); those of \<^verbatim>\<open>int\<close> and \<^verbatim>\<open>UUID\<close> (in Prelude) are written out.
\<close>

subsection \<open>Statements\<close>

datatype pytype = TBool | TInt | TFloat | TUUID | TDatetime | TDate | TStr | TUnknown

type_synonym model = "(string \<times> pytype) list"

datatype val =
    VBool bool | VInt int | VFloat rat | VUUID string | VDatetime int | VDate int | VStr string
  | VList "val list"

datatype cond =
    Cmp string string val
  | Similar string string rat
  | AnyOf "cond list"

datatype order = Asc string | Desc string | Relevance string "string list"

record select_stmt =
  st_where :: "cond list"
  st_order :: "order list"
  st_limit :: "nat option"
  st_offset :: nat

definition select_all :: select_stmt where
  "select_all = \<lparr>st_where = [], st_order = [], st_limit = None, st_offset = 0\<rparr>"

definition add_where :: "cond \<Rightarrow> select_stmt \<Rightarrow> select_stmt" where
  "add_where c s = s\<lparr>st_where := st_where s @ [c]\<rparr>"

definition add_order :: "order \<Rightarrow> select_stmt \<Rightarrow> select_stmt" where
  "add_order o' s = s\<lparr>st_order := st_order s @ [o']\<rparr>"

subsection \<open>Values\<close>

definition OPS :: "string list" where
  "OPS = [''eq'', ''ne'', ''gt'', ''ge'', ''lt'', ''le'', ''like'', ''ilike'', ''contains'', ''in'']"

definition BOOL_TRUE :: "string list" where
  "BOOL_TRUE = [''true'', ''1'', ''yes'', ''on'']"

text \<open>\<^verbatim>\<open>int(s)\<close>: blanks around, a sign, digits with single underscores between them.\<close>

fun int_digits :: "bool \<Rightarrow> int \<Rightarrow> string \<Rightarrow> int option" where
  "int_digits ok n [] = (if ok then Some n else None)"
| "int_digits ok n (c # cs) =
     (if is_digit c then int_digits True (10 * n + (int (of_char c) - 48)) cs
      else if c = CHR ''_'' \<and> ok then int_digits False n cs
      else None)"

definition py_int :: "string \<Rightarrow> int option" where
  "py_int s = (case strip s of [] \<Rightarrow> None
     | c # cs \<Rightarrow> if c = CHR ''-'' then map_option uminus (int_digits False 0 cs)
                else if c = CHR ''+'' then int_digits False 0 cs
                else int_digits False 0 (c # cs))"

record parsers =
  p_float :: "string \<Rightarrow> rat option"
  p_datetime :: "string \<Rightarrow> int option"
  p_date :: "string \<Rightarrow> int option"

definition coerce :: "parsers \<Rightarrow> pytype \<Rightarrow> string \<Rightarrow> val option" where
  "coerce P ty raw = (case ty of
       TBool \<Rightarrow> Some (VBool (lower (strip raw) \<in> set BOOL_TRUE))
     | TInt \<Rightarrow> map_option VInt (py_int raw)
     | TFloat \<Rightarrow> map_option VFloat (p_float P raw)
     | TUUID \<Rightarrow> map_option VUUID (py_uuid raw)
     | TDatetime \<Rightarrow> map_option VDatetime (p_datetime P raw)
     | TDate \<Rightarrow> map_option VDate (p_date P raw)
     | TStr \<Rightarrow> Some (VStr raw)
     | TUnknown \<Rightarrow> Some (VStr raw))"

fun those :: "'a option list \<Rightarrow> 'a list option" where
  "those [] = Some []"
| "those (x # xs) = (case x of None \<Rightarrow> None | Some v \<Rightarrow> map_option (Cons v) (those xs))"

subsection \<open>Filters\<close>

text \<open>\<^verbatim>\<open>contains\<close> wraps the value in percent signs; \<^verbatim>\<open>str(v)\<close> of a value that is no string is a parameter.\<close>

definition op_value :: "(val \<Rightarrow> string) \<Rightarrow> string \<Rightarrow> val \<Rightarrow> val" where
  "op_value str op v = (if op = ''contains'' then VStr (''%'' @ str v @ ''%'') else v)"

definition filter_cond :: "parsers \<Rightarrow> (val \<Rightarrow> string) \<Rightarrow> model \<Rightarrow> string \<times> string \<Rightarrow> exn + cond" where
  "filter_cond P str columns kv =
     (let (key, raw) = kv; (field, op0) = partition2 CHR ''_'' key; op = (if op0 = [] then ''eq'' else op0)
      in case map_of columns field of
           None \<Rightarrow> Inl (BadRequestError (''Unknown filter field: '' @ field))
         | Some ty \<Rightarrow>
             if op \<notin> set OPS then Inl (BadRequestError (''Unknown filter operator: '' @ op))
             else (case (if op = ''in''
                         then map_option VList (those (map (coerce P ty) (split_on CHR '','' raw)))
                         else coerce P ty raw)
                   of None \<Rightarrow> Inl (BadRequestError (''Bad value for filter '' @ field @ '': '' @ raw))
                    | Some v \<Rightarrow> Inr (Cmp op field (op_value str op v))))"

fun apply_filters :: "parsers \<Rightarrow> (val \<Rightarrow> string) \<Rightarrow> model \<Rightarrow> (string \<times> string) list \<Rightarrow> select_stmt \<Rightarrow> exn + select_stmt" where
  "apply_filters P str columns [] stmt = Inr stmt"
| "apply_filters P str columns (kv # fs) stmt = (case filter_cond P str columns kv of
       Inl e \<Rightarrow> Inl e | Inr c \<Rightarrow> apply_filters P str columns fs (add_where c stmt))"

subsection \<open>Sorting\<close>

definition apply_sort :: "model \<Rightarrow> string option \<Rightarrow> string \<Rightarrow> select_stmt \<Rightarrow> exn + select_stmt" where
  "apply_sort columns sortp dflt stmt =
     (let desc = str_truthy sortp \<and> startswith (the sortp) ''-'';
          field = (if str_truthy sortp then lstrip_of (\<lambda>c. c \<in> {CHR ''-'', CHR ''+''}) (the sortp) else dflt);
          order = (\<lambda>f. if desc then Desc f else Asc f)
      in if field \<in> set (map fst columns) then Inr (add_order (order field) stmt)
         else if field = dflt
         then Inr (add_order (order (if ''id'' \<in> set (map fst columns) then ''id'' else fst (hd columns))) stmt)
         else Inl (BadRequestError (''Unknown sort field: '' @ field)))"

subsection \<open>Search\<close>

text \<open>\<^verbatim>\<open>re.sub(r"<[^>]*>", " ", q)\<close>: a tag goes from \<^verbatim>\<open><\<close> to the next \<^verbatim>\<open>>\<close>; without one the \<^verbatim>\<open><\<close> stays.\<close>

function strip_tags :: "string \<Rightarrow> string" where
  "strip_tags [] = []"
| "strip_tags (c # cs) = (if c = CHR ''<'' \<and> CHR ''>'' \<in> set cs
     then CHR '' '' # strip_tags (tl (dropWhile (\<lambda>x. x \<noteq> CHR ''>'') cs)) else c # strip_tags cs)"
  by pat_completeness auto
termination
  by (relation "measure length") (auto simp: less_Suc_eq_le intro: le_trans [OF diff_le_self length_dropWhile_le])

definition is_control :: "char \<Rightarrow> bool" where
  "is_control c \<longleftrightarrow> (of_char c :: nat) \<le> 31 \<or> (of_char c :: nat) = 127"

definition sanitize_q :: "nat \<Rightarrow> string \<Rightarrow> string" where
  "sanitize_q max_len q =
     (let q = strip_tags q;
          q = map (\<lambda>c. if is_control c then CHR '' '' else c) q
      in take max_len (strip q))"

definition apply_search ::
  "string \<Rightarrow> string list \<Rightarrow> string \<Rightarrow> rat \<Rightarrow> select_stmt \<Rightarrow> select_stmt \<times> order option" where
  "apply_search q flds dialect threshold stmt =
     (if dialect = ''postgresql''
      then (add_where (AnyOf (map (\<lambda>c. Similar q c threshold) flds)) stmt, Some (Relevance q flds))
      else (add_where (AnyOf (map (\<lambda>c. Cmp ''ilike'' c (VStr (''%'' @ q @ ''%''))) flds)) stmt, None))"

subsection \<open>Lemmas\<close>

lemma startswith_Cons: "startswith (c # cs) [d] \<longleftrightarrow> c = d"
  by (auto simp: startswith_def)

lemma filter_cond_Inr:
  "filter_cond P str columns kv = Inr c \<Longrightarrow>
   \<exists>op field v. c = Cmp op field v \<and> op \<in> set OPS \<and> field \<in> set (map fst columns)"
  by (auto simp: filter_cond_def Let_def split: prod.splits option.splits if_splits)
     (metis domI dom_map_of_conv_image_fst)+

lemma filter_cond_Inl:
  "filter_cond P str columns kv = Inl e \<Longrightarrow> \<exists>m. e = BadRequestError m"
  by (auto simp: filter_cond_def Let_def split: prod.splits option.splits if_splits)

lemma apply_filters_where:
  "apply_filters P str columns fs stmt = Inr stmt' \<Longrightarrow>
   \<exists>cs. map (filter_cond P str columns) fs = map Inr cs \<and> stmt' = stmt\<lparr>st_where := st_where stmt @ cs\<rparr>"
proof (induction fs arbitrary: stmt)
  case (Cons kv fs)
  then obtain c where c: "filter_cond P str columns kv = Inr c"
    "apply_filters P str columns fs (add_where c stmt) = Inr stmt'" by (auto split: sum.splits)
  from Cons.IH [OF c(2)] obtain cs where "map (filter_cond P str columns) fs = map Inr cs"
    "stmt' = (add_where c stmt)\<lparr>st_where := st_where (add_where c stmt) @ cs\<rparr>" by blast
  with c(1) show ?case by (intro exI [of _ "c # cs"]) (simp add: add_where_def)
qed simp

lemma apply_filters_error:
  "apply_filters P str columns fs stmt = Inl e \<Longrightarrow>
   \<exists>kv \<in> set fs. filter_cond P str columns kv = Inl e"
  by (induction fs arbitrary: stmt) (auto split: sum.splits)

lemma strip_tags_le: "length (strip_tags s) \<le> length s"
proof (induction s rule: strip_tags.induct)
  case (2 c cs)
  have "length (tl (dropWhile (\<lambda>x. x \<noteq> CHR ''>'') cs)) \<le> length cs"
    by (simp add: le_trans [OF diff_le_self length_dropWhile_le])
  with 2 show ?case by auto
qed simp

text \<open>\<open>tag_free\<close>: no \<^verbatim>\<open><\<close> with a \<^verbatim>\<open>>\<close> after it.\<close>

fun tag_free :: "string \<Rightarrow> bool" where
  "tag_free [] = True"
| "tag_free (c # cs) = ((c = CHR ''<'' \<longrightarrow> CHR ''>'' \<notin> set cs) \<and> tag_free cs)"

lemma set_strip_tags: "set (strip_tags s) \<subseteq> insert CHR '' '' (set s)"
proof (induction s rule: strip_tags.induct)
  case (2 c cs)
  have "set (tl (dropWhile (\<lambda>x. x \<noteq> CHR ''>'') cs)) \<subseteq> set cs"
    by (metis dual_order.trans list.set_sel(2) set_dropWhile_subset subsetI tl_Nil)
  with 2 show ?case by auto
qed simp

lemma tag_free_strip_tags: "tag_free (strip_tags s)"
proof (induction s rule: strip_tags.induct)
  case (2 c cs)
  then show ?case using set_strip_tags [of cs] by auto
qed simp

lemma tag_free_appendD: "tag_free (xs @ ys) \<Longrightarrow> tag_free xs \<and> tag_free ys"
  by (induction xs) auto

lemma tag_free_map_control:
  "tag_free s \<Longrightarrow> tag_free (map (\<lambda>c. if is_control c then CHR '' '' else c) s)"
  by (induction s) (auto split: if_splits)

lemma strip_infix: "\<exists>a b. s = a @ strip s @ b"
proof -
  let ?t = "dropWhile is_space s"
  have "s = takeWhile is_space s @ ?t" by simp
  moreover have "?t = rev (dropWhile is_space (rev ?t)) @ rev (takeWhile is_space (rev ?t))"
    by (metis rev_append rev_rev_ident takeWhile_dropWhile_id)
  ultimately show ?thesis unfolding strip_def by metis
qed

lemma coerce_bool_total: "coerce P TBool raw \<noteq> None"
  by (simp add: coerce_def)

subsection \<open>Properties\<close>


text \<open>
  A search text is clean: after \<^verbatim>\<open>sanitize_q\<close> it has no HTML tag left (no \<^verbatim>\<open><\<close> with a \<^verbatim>\<open>>\<close> after it), no
  control character, and at most \<open>max_len\<close> characters.
\<close>

theorem sanitize_q_clean:
  "tag_free (sanitize_q n q) \<and> list_all (\<lambda>c. \<not> is_control c) (sanitize_q n q) \<and> length (sanitize_q n q) \<le> n"
proof -
  let ?m = "map (\<lambda>c. if is_control c then CHR '' '' else c) (strip_tags q)"
  obtain a b where ab: "?m = a @ strip ?m @ b" using strip_infix by blast
  have "tag_free ?m" by (rule tag_free_map_control [OF tag_free_strip_tags])
  then have "tag_free (strip ?m)" using ab tag_free_appendD by metis
  then have "tag_free (take n (strip ?m))" using tag_free_appendD append_take_drop_id by metis
  moreover have "set (take n (strip ?m)) \<subseteq> set ?m" using set_strip_subset set_take_subset by fast
  then have "list_all (\<lambda>c. \<not> is_control c) (take n (strip ?m))"
    by (auto simp: list_all_iff is_control_def split: if_splits)
  ultimately show ?thesis by (simp add: sanitize_q_def Let_def)
qed

end
