(* ===== verification/Validation.thy ===== *)
theory Validation
  imports Errors
begin

section \<open>Field constraints of the request schemas\<close>

text \<open>
  The constraints that the schemas and parameters declare with pydantic's \<^verbatim>\<open>Field\<close>, \<^verbatim>\<open>Query\<close> and
  \<^verbatim>\<open>Header\<close> (\<^verbatim>\<open>min_length\<close>, \<^verbatim>\<open>max_length\<close>, \<^verbatim>\<open>gt\<close>, \<^verbatim>\<open>ge\<close>, \<^verbatim>\<open>le\<close>), each as the list of the errors a value has.
  A request with any error is answered by one \<^verbatim>\<open>RequestValidationError\<close> that lists them all, in the
  order of the declarations. Values have their declared JSON type; \<open>loc\<close> is where the value stands.
\<close>

type_synonym field_error = "json list \<times> string \<times> string"

definition characters :: "nat \<Rightarrow> string" where
  "characters n = str_of_nat n @ (if n = 1 then '' character'' else '' characters'')"

definition min_length :: "nat \<Rightarrow> json list \<Rightarrow> string \<Rightarrow> field_error list" where
  "min_length n loc s = (if length s < n
     then [(loc, ''String should have at least '' @ characters n, ''string_too_short'')] else [])"

definition max_length :: "nat \<Rightarrow> json list \<Rightarrow> string \<Rightarrow> field_error list" where
  "max_length n loc s = (if n < length s
     then [(loc, ''String should have at most '' @ characters n, ''string_too_long'')] else [])"

definition field_gt :: "int \<Rightarrow> json list \<Rightarrow> int \<Rightarrow> field_error list" where
  "field_gt n loc i = (if i \<le> n
     then [(loc, ''Input should be greater than '' @ str_of_int n, ''greater_than'')] else [])"

definition field_ge :: "int \<Rightarrow> json list \<Rightarrow> int \<Rightarrow> field_error list" where
  "field_ge n loc i = (if i < n
     then [(loc, ''Input should be greater than or equal to '' @ str_of_int n, ''greater_than_equal'')] else [])"

definition field_le :: "int \<Rightarrow> json list \<Rightarrow> int \<Rightarrow> field_error list" where
  "field_le n loc i = (if n < i
     then [(loc, ''Input should be less than or equal to '' @ str_of_int n, ''less_than_equal'')] else [])"

definition if_given :: "('a \<Rightarrow> field_error list) \<Rightarrow> 'a option \<Rightarrow> field_error list" where
  "if_given check x = (case x of None \<Rightarrow> [] | Some v \<Rightarrow> check v)"

definition missing :: "json list \<Rightarrow> field_error" where
  "missing loc = (loc, ''Field required'', ''missing'')"

definition validated :: "field_error list \<Rightarrow> 'a \<Rightarrow> exn + 'a" where
  "validated errs x = (if errs = [] then Inr x else Inl (RequestValidationError errs))"

abbreviation body_field :: "string \<Rightarrow> json list" where
  "body_field name \<equiv> [JStr ''body'', JStr name]"

lemmas constraint_defs = min_length_def max_length_def field_gt_def field_ge_def field_le_def if_given_def

lemma validated_Inr [simp]: "validated errs x = Inr y \<longleftrightarrow> errs = [] \<and> x = y"
  by (auto simp: validated_def)

lemma validated_Inl: "validated errs x = Inl e \<longleftrightarrow> errs \<noteq> [] \<and> e = RequestValidationError errs"
  by (auto simp: validated_def)

lemma constraints_met:
  "min_length n loc s = [] \<longleftrightarrow> n \<le> length s" "max_length n loc s = [] \<longleftrightarrow> length s \<le> n"
  "field_gt k loc i = [] \<longleftrightarrow> k < i" "field_ge k loc i = [] \<longleftrightarrow> k \<le> i" "field_le k loc i = [] \<longleftrightarrow> i \<le> k"
  by (simp_all add: constraint_defs not_less not_le)

text \<open>A request with an invalid field is answered 422, whatever else it asks for.\<close>

lemma invalid_422: "validated errs x = Inl e \<Longrightarrow> he_status (handle_exception rid e) = 422"
  by (auto simp: validated_Inl validation_handler_def render_def)

end
