(* ===== verification/Listing.thy ===== *)
theory Listing
  imports Repositories Query Validation
begin

section \<open>Lists: statement, count, page\<close>

text \<open>
  \<^verbatim>\<open>BaseRepository.paginate\<close> (app/repositories/base.py), the query parameters of a list request
  (\<^verbatim>\<open>list_params\<close>, app/api/deps.py) and the page count of the routers. How the database evaluates a
  condition and orders rows is the parameter \<open>dbms\<close>; the statement it evaluates is the code's.
\<close>

record 'r dbms =
  db_sat :: "cond \<Rightarrow> 'r \<Rightarrow> bool"
  db_arrange :: "order list \<Rightarrow> 'r list \<Rightarrow> 'r list"

definition matching :: "'r dbms \<Rightarrow> cond list \<Rightarrow> 'r list \<Rightarrow> 'r list" where
  "matching D cs rows = filter (\<lambda>r. \<forall>c \<in> set cs. db_sat D c r) rows"

definition run_stmt :: "'r dbms \<Rightarrow> select_stmt \<Rightarrow> 'r list \<Rightarrow> 'r list" where
  "run_stmt D st rows =
     (let xs = drop (st_offset st) (db_arrange D (st_order st) (matching D (st_where st) rows))
      in case st_limit st of None \<Rightarrow> xs | Some n \<Rightarrow> take n xs)"

record list_query =
  lq_page :: nat
  lq_per_page :: nat
  lq_sort :: "string option"
  lq_q :: "string option"
  lq_filters :: "(string \<times> string) list"

record list_model =
  lm_columns :: model
  lm_search_fields :: "string list"
  lm_dialect :: string
  lm_threshold :: rat

definition where_stmt ::
  "parsers \<Rightarrow> (val \<Rightarrow> string) \<Rightarrow> list_model \<Rightarrow> list_query \<Rightarrow> exn + select_stmt \<times> order option" where
  "where_stmt P str M lq =
     (case (if lq_filters lq \<noteq> [] then apply_filters P str (lm_columns M) (lq_filters lq) select_all
            else Inr select_all)
      of Inl e \<Rightarrow> Inl e
       | Inr stmt \<Rightarrow>
           if str_truthy (lq_q lq) \<and> lm_search_fields M \<noteq> []
           then Inr (apply_search (the (lq_q lq)) (lm_search_fields M) (lm_dialect M) (lm_threshold M) stmt)
           else Inr (stmt, None))"

definition order_stmt :: "list_model \<Rightarrow> list_query \<Rightarrow> order option \<Rightarrow> select_stmt \<Rightarrow> exn + select_stmt" where
  "order_stmt M lq ord stmt =
     (case ord of
        Some o' \<Rightarrow> if str_truthy (lq_sort lq)
          then (case apply_sort (lm_columns M) (lq_sort lq) ''created_at'' stmt of
                  Inl e \<Rightarrow> Inl e | Inr st \<Rightarrow> Inr (add_order o' st))
          else Inr (add_order o' stmt)
      | None \<Rightarrow> apply_sort (lm_columns M) (lq_sort lq) ''created_at'' stmt)"

definition page_stmt :: "list_query \<Rightarrow> select_stmt \<Rightarrow> select_stmt" where
  "page_stmt lq stmt = stmt\<lparr>st_limit := Some (lq_per_page lq), st_offset := (lq_page lq - 1) * lq_per_page lq\<rparr>"

definition tx_lift :: "exn + 'a \<Rightarrow> 'a tx" where
  "tx_lift r = (case r of Inl e \<Rightarrow> tx_fail e | Inr x \<Rightarrow> tx_return x)"

definition paginate ::
  "engine \<Rightarrow> 'r table \<Rightarrow> 'r dbms \<Rightarrow> parsers \<Rightarrow> (val \<Rightarrow> string) \<Rightarrow> list_model \<Rightarrow> list_query \<Rightarrow>
   ('r list \<times> nat) tx" where
  "paginate E T D P str M lq =
     tx_bind (tx_lift (where_stmt P str M lq)) (\<lambda>(stmt, ord).
     tx_bind (tx_query E (\<lambda>d. length (matching D (st_where stmt) (tb_rows T d)))) (\<lambda>n.
     tx_bind (tx_lift (order_stmt M lq ord stmt)) (\<lambda>stmt.
     tx_bind (tx_query E (\<lambda>d. run_stmt D (page_stmt lq stmt) (tb_rows T d))) (\<lambda>items.
     tx_return (items, n)))))"

subsection \<open>The request\<close>

definition LIST_RESERVED :: "string list" where
  "LIST_RESERVED = [''page'', ''per_page'', ''sort'', ''q'']"

text \<open>
  \<^verbatim>\<open>list_params\<close>: FastAPI has parsed the declared parameters; it checks their bounds, and every other
  query parameter becomes a filter.
\<close>

definition list_params ::
  "(string \<times> string) list \<Rightarrow> int \<Rightarrow> int \<Rightarrow> string option \<Rightarrow> string option \<Rightarrow> exn + list_query" where
  "list_params query page per_page sortp q =
     (let loc = (\<lambda>name. [JStr ''query'', JStr name])
      in validated (field_ge 1 (loc ''page'') page @ field_ge 1 (loc ''per_page'') per_page @
           field_le 200 (loc ''per_page'') per_page @ if_given (max_length 200 (loc ''q'')) q)
         \<lparr>lq_page = nat page, lq_per_page = nat per_page, lq_sort = sortp, lq_q = q,
          lq_filters = filter (\<lambda>(k, v). k \<notin> set LIST_RESERVED) query\<rparr>)"

definition pages_of :: "nat \<Rightarrow> nat \<Rightarrow> nat" where
  "pages_of rows per_page = (rows + per_page - 1) div per_page"

definition list_meta :: "list_query \<Rightarrow> nat \<Rightarrow> response_meta" where
  "list_meta lq rows = \<lparr>rm_request_id = None, rm_page = Some (int (lq_page lq)),
     rm_per_page = Some (int (lq_per_page lq)), rm_total = Some (int rows),
     rm_pages = Some (int (pages_of rows (lq_per_page lq)))\<rparr>"

subsection \<open>Lemmas\<close>

lemma lift_tx [keeps]: "uncommitted (tx_lift r)" "keeps_ok (tx_lift r)"
  by (cases r; simp add: tx_lift_def keeps)+

lemma runs_lift [runs]: "tx_lift r u = (Inr x, u') \<longleftrightarrow> r = Inr x \<and> u' = u"
  by (cases r) (auto simp: tx_lift_def runs)

lemma uncommitted_paginate [keeps]: "uncommitted (paginate E T D P str M lq)"
  unfolding paginate_def by (intro keeps | simp add: split_beta)+

lemma apply_sort_where: "apply_sort cols srt d st = Inr st' \<Longrightarrow> st_where st' = st_where st"
  by (auto simp: apply_sort_def Let_def add_order_def split: if_splits)

lemma order_stmt_where: "order_stmt M lq ord stmt = Inr st \<Longrightarrow> st_where st = st_where stmt"
  by (auto simp: order_stmt_def add_order_def split: option.splits if_splits sum.splits dest: apply_sort_where)

lemma runs_paginate [runs]:
  "paginate E T D P str M lq u = (Inr x, u') \<longleftrightarrow> (\<exists>w stmt ord st. ran E u w \<and> u' = u \<and>
     where_stmt P str M lq = Inr (stmt, ord) \<and> order_stmt M lq ord stmt = Inr st \<and>
     x = (run_stmt D (page_stmt lq st) (tb_rows T w), length (matching D (st_where stmt) (tb_rows T w))))"
  unfolding paginate_def by (auto simp: runs ran_def split_beta)

text \<open>Consecutive pages, put together, are the list.\<close>

lemma pages_cover:
  assumes "0 < k"
  shows "concat (map (\<lambda>p. take k (drop (p * k) xs)) [0..<pages_of (length xs) k]) = xs"
proof (induction "length xs" arbitrary: xs rule: less_induct)
  case less
  show ?case
  proof (cases "xs = []")
    case True
    with assms show ?thesis by (simp add: pages_of_def)
  next
    case False
    let ?ys = "drop k xs"
    have n: "pages_of (length xs) k = Suc (pages_of (length ?ys) k)"
    proof (cases "length xs \<le> k")
      case True
      with False assms have "length xs + k - 1 = k + (length xs - 1)" "length xs - 1 < k"
        by (cases xs; simp)+
      then have "(length xs + k - 1) div k = 1" using assms by (metis add.right_neutral div_less div_self
        div_add_self1 less_nat_zero_code add_0 One_nat_def plus_1_eq_Suc not_gr_zero)
      with True assms show ?thesis by (simp add: pages_of_def)
    next
      case False
      then have "length xs + k - 1 = (length xs - 1) + k" "length ?ys + k - 1 = length xs - 1"
        using assms by simp_all
      with assms show ?thesis unfolding pages_of_def by (metis Suc_eq_plus1 div_add_self2 less_numeral_extra(3))
    qed
    have "concat (map (\<lambda>p. take k (drop (p * k) ?ys)) [0..<pages_of (length ?ys) k]) = ?ys"
      using less.hyps [of ?ys] False assms by simp
    moreover have "map (\<lambda>p. take k (drop (p * k) xs)) [1..<Suc (pages_of (length ?ys) k)] =
        map (\<lambda>p. take k (drop (p * k) ?ys)) [0..<pages_of (length ?ys) k]"
      by (simp add: map_Suc_upt [symmetric] add.commute del: upt_Suc)
    ultimately show ?thesis unfolding n by (simp add: upt_conv_Cons del: upt_Suc)
  qed
qed


definition demo_list :: list_query where
  "demo_list = \<lparr>lq_page = 1, lq_per_page = 2, lq_sort = None, lq_q = None, lq_filters = []\<rparr>"

definition demo_model :: list_model where
  "demo_model = \<lparr>lm_columns = [(''id'', TUUID), (''name'', TStr)], lm_search_fields = [],
     lm_dialect = ''sqlite'', lm_threshold = 1 / 10\<rparr>"

definition demo_parsers :: parsers where
  "demo_parsers = \<lparr>p_float = (\<lambda>_. None), p_datetime = (\<lambda>_. None), p_date = (\<lambda>_. None)\<rparr>"

definition demo_categories :: db where
  "demo_categories = empty_db\<lparr>categories := [\<lparr>c_id = ''1'', c_name = ''a''\<rparr>, \<lparr>c_id = ''2'', c_name = ''b''\<rparr>,
     \<lparr>c_id = ''3'', c_name = ''c''\<rparr>]\<rparr>"


end
