(* ===== verification/User_Service.thy ===== *)
theory User_Service
  imports Services Listing
begin

section \<open>The user service\<close>

text \<open>
  \<^verbatim>\<open>app/services/user.py\<close>: create (with the event in the transactional outbox), get (cache-aside),
  list, update (optimistic lock), delete (with the revocation of the user's sessions), the profile
  upsert and the stream. Each operation is a transaction and what follows it on the cache.
\<close>

definition CACHE_TTL :: nat where
  "CACHE_TTL = 30"

definition user_cache_key :: "uuid \<Rightarrow> string" where
  "user_cache_key user_id = ''user:'' @ user_id"

lemma user_cache_key_inj [simp]: "user_cache_key a = user_cache_key b \<longleftrightarrow> a = b"
  by (simp add: user_cache_key_def)

text \<open>The keys of the user cache.\<close>

definition is_user_key :: "string \<Rightarrow> bool" where
  "is_user_key k \<longleftrightarrow> startswith k ''user:''"

lemma is_user_key [simp]: "is_user_key (user_cache_key i)"
  by (simp only: is_user_key_def user_cache_key_def startswith_append)

definition drop_cached :: "('s, 'v) cache \<Rightarrow> uuid \<Rightarrow> 's svc \<Rightarrow> 's svc" where
  "drop_cached Ch uid v = v\<lparr>sv_redis := snd (ca_delete Ch [user_cache_key uid] (sv_redis v))\<rparr>"

definition cache_put :: "('s, 'v) cache \<Rightarrow> (user_read_detail \<Rightarrow> 'v) \<Rightarrow> user_read_detail \<Rightarrow> 's svc \<Rightarrow> 's svc" where
  "cache_put Ch dump dto v =
     v\<lparr>sv_redis := ca_set Ch (user_cache_key (ur_id dto)) (dump dto) (Some CACHE_TTL) (sv_redis v)\<rparr>"

subsection \<open>Operations\<close>

record user_create =
  uc_email :: string
  uc_full_name :: string

definition new_user :: "uuid \<Rightarrow> timestamp \<Rightarrow> string \<Rightarrow> string \<Rightarrow> string option \<Rightarrow> role \<Rightarrow> user_row" where
  "new_user i now email full_name hashed r = \<lparr>u_id = i, u_email = email, u_full_name = full_name,
     u_is_active = True, u_hashed_password = hashed, u_role = r, u_version_id = 1,
     u_created_at = now, u_updated_at = now\<rparr>"

definition users_created :: string where
  "users_created = ''users.created''"

definition user_created_payload :: "user_row \<Rightarrow> json" where
  "user_created_payload u = JObj [(''id'', JStr (u_id u)), (''email'', JStr (u_email u))]"

definition create_tx :: "engine \<Rightarrow> uuid \<Rightarrow> uuid \<Rightarrow> timestamp \<Rightarrow> user_create \<Rightarrow> user_read tx" where
  "create_tx E new_id event_id now data =
     tx_bind (get_by_email E (uc_email data)) (\<lambda>existing.
       if existing \<noteq> None then tx_fail (ConflictError ''User with this email already exists'')
       else tx_bind (repo_add E User (new_user new_id now (uc_email data) (uc_full_name data) None DEFAULT_ROLE))
         (\<lambda>user. tx_bind (add_event event_id now users_created (user_created_payload user) None)
         (\<lambda>_. tx_bind (commit E) (\<lambda>_. tx_return (user_read_of user)))))"

definition create_user ::
  "engine \<Rightarrow> ('s, 'v) cache \<Rightarrow> (user_read_detail \<Rightarrow> 'v) \<Rightarrow> uuid \<Rightarrow> uuid \<Rightarrow> timestamp \<Rightarrow> user_create \<Rightarrow>
   ('s, user_read) svc_op" where
  "create_user E Ch dump new_id event_id now data =
     in_tx (create_tx E new_id event_id now data)
       (\<lambda>dto v. (Inr dto, cache_put Ch dump (detail_of dto [] None) v))"

definition get_tx :: "engine \<Rightarrow> uuid \<Rightarrow> user_read_detail option tx" where
  "get_tx E uid = tx_bind (repo (tb_name User)) (\<lambda>_. tx_query E (\<lambda>d. db_user_detail d uid))"

definition get_user ::
  "engine \<Rightarrow> ('s, 'v) cache \<Rightarrow> (user_read_detail \<Rightarrow> 'v) \<Rightarrow> ('v \<Rightarrow> exn + user_read_detail) \<Rightarrow> uuid \<Rightarrow>
   ('s, user_read_detail) svc_op" where
  "get_user E Ch dump undump uid v =
     (case ca_get Ch (user_cache_key uid) (sv_redis v) of
        Inl e \<Rightarrow> (Inl e, v)
      | Inr (Some hit) \<Rightarrow> (undump hit, v)
      | Inr None \<Rightarrow> in_tx (get_tx E uid)
          (\<lambda>user v. case user of None \<Rightarrow> (Inl (NotFoundError ''User not found''), v)
             | Some dto \<Rightarrow> (Inr dto, cache_put Ch dump dto v)) v)"

text \<open>\<open>list_users\<close>: the search text is sanitised, an empty one is none.\<close>

definition clean_query :: "list_query \<Rightarrow> list_query" where
  "clean_query lq = lq\<lparr>lq_q := (if str_truthy (lq_q lq)
     then (let q = sanitize_q 100 (the (lq_q lq)) in if q = [] then None else Some q) else None)\<rparr>"

definition user_model :: "string \<Rightarrow> rat \<Rightarrow> list_model" where
  "user_model dialect threshold = \<lparr>lm_columns = [(''email'', TStr), (''full_name'', TStr), (''is_active'', TBool),
     (''hashed_password'', TStr), (''role'', TStr), (''id'', TUUID), (''created_at'', TDatetime),
     (''updated_at'', TDatetime), (''version_id'', TInt)],
     lm_search_fields = [''full_name'', ''email''], lm_dialect = dialect, lm_threshold = threshold\<rparr>"

definition list_users ::
  "engine \<Rightarrow> user_row dbms \<Rightarrow> parsers \<Rightarrow> (val \<Rightarrow> string) \<Rightarrow> list_model \<Rightarrow> list_query \<Rightarrow>
   ('s, user_read_detail list \<times> nat) svc_op" where
  "list_users E D P str M lq = in_tx
     (tx_bind (paginate E User D P str M (clean_query lq)) (\<lambda>(rows, n).
        tx_bind (tx_query E (\<lambda>d. map (user_detail d) rows)) (\<lambda>items. tx_return (items, n)))) sv_return"

record user_update =
  uu_full_name :: "string option"
  uu_is_active :: "bool option"

definition apply_update :: "user_update \<Rightarrow> user_row \<Rightarrow> user_row" where
  "apply_update data u =
     (let u = (case uu_full_name data of None \<Rightarrow> u | Some n \<Rightarrow> u\<lparr>u_full_name := n\<rparr>)
      in case uu_is_active data of None \<Rightarrow> u | Some b \<Rightarrow> u\<lparr>u_is_active := b\<rparr>)"

text \<open>
  \<^verbatim>\<open>VersionedMixin\<close> and \<^verbatim>\<open>onupdate\<close>: when an attribute changed, the flush writes the row with the
  next version number and a new \<^verbatim>\<open>updated_at\<close>.
\<close>

definition versioned :: "timestamp \<Rightarrow> user_row \<Rightarrow> user_row \<Rightarrow> user_row" where
  "versioned now old new = (if new = old then old
     else new\<lparr>u_version_id := u_version_id old + 1, u_updated_at := now\<rparr>)"

text \<open>
  The \<^verbatim>\<open>UPDATE\<close> of a changed row asks for the version that was read; when no row has it any more, the
  flush raises. An unchanged row is not written. In a transaction that runs alone the row is the one
  that was read.
\<close>

definition save_versioned :: "timestamp \<Rightarrow> user_row \<Rightarrow> user_row \<Rightarrow> unit tx" where
  "save_versioned now old new =
     (if new = old then tx_return ()
      else tx_bind uow_session (\<lambda>w. case row_get u_id (users w) (u_id old) of
          Some cur \<Rightarrow> if u_version_id cur = u_version_id old then save_row User (versioned now old new)
            else tx_fail StaleDataError
        | None \<Rightarrow> tx_fail StaleDataError))"

definition stale_to_conflict :: "exn \<Rightarrow> exn" where
  "stale_to_conflict e = (if e = StaleDataError
     then ConflictError ''User was modified concurrently, refresh and retry'' else e)"

definition update_with :: "engine \<Rightarrow> timestamp \<Rightarrow> uuid \<Rightarrow> user_update \<Rightarrow> user_row \<Rightarrow> user_read tx" where
  "update_with E now uid data old =
     tx_bind (tx_catch (tx_bind (save_versioned now old (apply_update data old)) (\<lambda>_. commit E))
       (\<lambda>e. tx_fail (stale_to_conflict e))) (\<lambda>_.
     tx_query E (\<lambda>d. user_read_of (case row_get u_id (users d) uid of
       Some u \<Rightarrow> u | None \<Rightarrow> versioned now old (apply_update data old))))"

definition update_tx :: "engine \<Rightarrow> timestamp \<Rightarrow> uuid \<Rightarrow> user_update \<Rightarrow> user_read tx" where
  "update_tx E now uid data =
     tx_bind (repo_get E User uid) (\<lambda>found. case found of
       None \<Rightarrow> tx_fail (NotFoundError ''User not found'')
     | Some old \<Rightarrow> update_with E now uid data old)"

lemma keeps_save_versioned [keeps]: "keeps_ok (save_versioned now old new)" "uncommitted (save_versioned now old new)"
  unfolding save_versioned_def by (rule keeps)+

lemma runs_save_versioned [runs]: "save_versioned now old new u = (Inr z, u') \<longleftrightarrow>
    new = old \<and> u' = u \<or> new \<noteq> old \<and> (\<exists>w cur. session u = Some w \<and> row_get u_id (users w) (u_id old) = Some cur \<and>
      u_version_id cur = u_version_id old \<and> u' = u\<lparr>session := Some (w\<lparr>users := row_put u_id (versioned now old new) (users w)\<rparr>)\<rparr>)"
  by (auto simp: save_versioned_def runs table_defs split: option.splits if_splits)

definition update_user ::
  "engine \<Rightarrow> ('s, 'v) cache \<Rightarrow> timestamp \<Rightarrow> uuid \<Rightarrow> user_update \<Rightarrow> ('s, user_read) svc_op" where
  "update_user E Ch now uid data = in_tx (update_tx E now uid data) (\<lambda>dto v. (Inr dto, drop_cached Ch uid v))"

definition delete_tx :: "engine \<Rightarrow> uuid \<Rightarrow> unit tx" where
  "delete_tx E uid = tx_bind (repo_delete_by_id E User uid) (\<lambda>deleted.
     if deleted = 0 then tx_fail (NotFoundError ''User not found'') else commit E)"

text \<open>\<open>sessions\<close> is \<^verbatim>\<open>self.sessions.revoke_all\<close>, when there is a session store.\<close>

definition delete_user ::
  "engine \<Rightarrow> ('s, 'v) cache \<Rightarrow> (string \<Rightarrow> 's \<Rightarrow> nat \<times> 's) option \<Rightarrow> uuid \<Rightarrow> ('s, unit) svc_op" where
  "delete_user E Ch sessions uid = in_tx (delete_tx E uid) (\<lambda>_ v.
     (let v = drop_cached Ch uid v
      in (Inr (), case sessions of None \<Rightarrow> v
           | Some rvk \<Rightarrow> v\<lparr>sv_redis := snd (rvk uid (sv_redis v))\<rparr>)))"

text \<open>The fields of \<^verbatim>\<open>ProfileUpsert\<close> that the request set (\<^verbatim>\<open>exclude_unset\<close>).\<close>

record profile_upsert =
  pu_bio :: "string option option"
  pu_avatar_url :: "string option option"

definition apply_profile :: "profile_upsert \<Rightarrow> profile_row \<Rightarrow> profile_row" where
  "apply_profile data p =
     (let p = (case pu_bio data of None \<Rightarrow> p | Some b \<Rightarrow> p\<lparr>p_bio := b\<rparr>)
      in case pu_avatar_url data of None \<Rightarrow> p | Some a \<Rightarrow> p\<lparr>p_avatar_url := a\<rparr>)"

definition new_profile :: "uuid \<Rightarrow> uuid \<Rightarrow> profile_row" where
  "new_profile i uid = \<lparr>p_id = i, p_user_id = uid, p_bio = None, p_avatar_url = None\<rparr>"

definition put_profile :: "uuid \<Rightarrow> uuid \<Rightarrow> profile_upsert \<Rightarrow> db \<Rightarrow> db" where
  "put_profile new_id uid data d = (case user_profile d uid of
       None \<Rightarrow> d\<lparr>profiles := profiles d @ [apply_profile data (new_profile new_id uid)]\<rparr>
     | Some p \<Rightarrow> d\<lparr>profiles := row_put p_id (apply_profile data p) (profiles d)\<rparr>)"

definition upsert_profile_tx :: "engine \<Rightarrow> uuid \<Rightarrow> uuid \<Rightarrow> profile_upsert \<Rightarrow> profile_read tx" where
  "upsert_profile_tx E new_id uid data =
     tx_bind (repo_get E User uid) (\<lambda>found. case found of
       None \<Rightarrow> tx_fail (NotFoundError ''User not found'')
     | Some u \<Rightarrow> tx_bind (tx_query E (\<lambda>d. user_profile d uid)) (\<lambda>profile.
         tx_bind (tx_stage (put_profile new_id uid data)) (\<lambda>_.
         tx_bind (commit E) (\<lambda>_. tx_return (profile_read_of (apply_profile data
           (case profile of None \<Rightarrow> new_profile new_id uid | Some p \<Rightarrow> p)))))))"

definition upsert_profile ::
  "engine \<Rightarrow> ('s, 'v) cache \<Rightarrow> uuid \<Rightarrow> uuid \<Rightarrow> profile_upsert \<Rightarrow> ('s, profile_read) svc_op" where
  "upsert_profile E Ch new_id uid data =
     in_tx (upsert_profile_tx E new_id uid data) (\<lambda>dto v. (Inr dto, drop_cached Ch uid v))"

text \<open>\<^verbatim>\<open>stream_all\<close>: one JSON line per user, in the order of creation.\<close>

definition stream_all :: "engine \<Rightarrow> (user_read \<Rightarrow> string) \<Rightarrow> ('s, string list) svc_op" where
  "stream_all E to_json = in_tx
     (tx_bind (repo_stream E User 1000 (Some (sort_key u_created_at))) (\<lambda>rows.
        tx_return (map (\<lambda>u. to_json (user_read_of u) @ [CHR 0x0A]) rows))) sv_return"

subsection \<open>Transactions: what they commit\<close>

lemma atomic_ops [keeps]:
  "atomic (create_tx E i ei now data)" "atomic (delete_tx E uid)" "atomic (upsert_profile_tx E i uid pdata)"
  "uncommitted (get_tx E uid)"
  unfolding create_tx_def delete_tx_def upsert_profile_tx_def get_tx_def
  by (intro keeps | rule uncommitted_atomic)+

lemma atomic_update_with [keeps]: "atomic (update_with E now uid data old)"
  unfolding update_with_def
  by (auto simp: atomic_def tx_bind_def tx_catch_def save_versioned_def save_row_def tx_stage_def commit_def flush_def tx_defs
      split: option.splits prod.splits sum.splits if_splits)

lemma atomic_update [keeps]: "atomic (update_tx E now uid data)"
  unfolding update_tx_def by (rule keeps | rule uncommitted_atomic)+

definition created_db :: "uuid \<Rightarrow> uuid \<Rightarrow> timestamp \<Rightarrow> user_create \<Rightarrow> db \<Rightarrow> db" where
  "created_db i ei now data d =
     (let u = new_user i now (uc_email data) (uc_full_name data) None DEFAULT_ROLE
      in d\<lparr>users := users d @ [u], outbox_messages := outbox_messages d @
        [\<lparr>o_id = ei, o_topic = users_created, o_payload = user_created_payload u, o_key = None,
          o_created_at = now, o_published_at = None, o_attempts = 0\<rparr>]\<rparr>)"

lemma create_tx_runs:
  "create_tx E i ei now data (opened d) = (Inr dto, u) \<Longrightarrow>
   committed u = created_db i ei now data d \<and> db_ok (committed u) \<and>
   uc_email data \<notin> u_email ` set (users d) \<and>
   dto = user_read_of (new_user i now (uc_email data) (uc_full_name data) None DEFAULT_ROLE)"
  by (auto simp: create_tx_def get_by_email_def add_event_def runs table_defs created_db_def Let_def ran_def
      find_None_iff split: if_splits)

definition updated_db :: "timestamp \<Rightarrow> user_row \<Rightarrow> user_update \<Rightarrow> db \<Rightarrow> db" where
  "updated_db now old data d = d\<lparr>users := row_put u_id (versioned now old (apply_update data old)) (users d)\<rparr>"

lemma apply_update_key [simp]: "u_id (versioned now old (apply_update data old)) = u_id old"
  "u_email (versioned now old (apply_update data old)) = u_email old"
  "u_hashed_password (versioned now old (apply_update data old)) = u_hashed_password old"
  "u_role (versioned now old (apply_update data old)) = u_role old"
  by (auto simp: versioned_def apply_update_def Let_def split: option.splits)

text \<open>What an update commits, from a row \<open>old\<close> that may have been read before other transactions committed.\<close>

lemma update_with_runs:
  assumes "update_with E now uid data old u = (Inr dto, u')" "session u = Some d"
  shows "(if apply_update data old = old then committed u' = d
      else committed u' = updated_db now old data d \<and>
        (\<exists>cur. row_get u_id (users d) (u_id old) = Some cur \<and> u_version_id cur = u_version_id old)) \<and>
    db_ok (committed u') \<and> dto = user_read_of (case row_get u_id (users (committed u')) uid of
      Some r \<Rightarrow> r | None \<Rightarrow> versioned now old (apply_update data old))"
  using assms by (cases "apply_update data old = old") (auto simp: update_with_def runs updated_db_def ran_def)

lemma update_tx_runs:
  assumes "update_tx E now uid data (opened d) = (Inr dto, u)"
  shows "\<exists>old. row_get u_id (users d) uid = Some old \<and> committed u = updated_db now old data d \<and>
    db_ok (committed u) \<and> dto = user_read_of (versioned now old (apply_update data old))"
proof -
  from assms obtain old where old: "row_get u_id (users d) uid = Some old" "db_ok d"
    and w: "update_with E now uid data old (used User (opened d)) = (Inr dto, u)"
    by (auto simp: update_tx_def runs table_defs split: option.splits)
  have s: "session (used User (opened d)) = Some d" by (simp add: table_defs)
  note r = update_with_runs [OF w s] row_get_Some [OF old(1)]
  have same: "updated_db now old data d = d" if "apply_update data old = old"
    using row_put_same [of u_id "users d" uid old] old that
    by (simp add: updated_db_def versioned_def db_ok_def db_constraints_def)
  then have c: "committed u = updated_db now old data d" using r by (auto split: if_splits)
  have "row_get u_id (users (committed u)) uid = Some (versioned now old (apply_update data old))"
    using r by (auto simp: c updated_db_def row_get_put)
  with old(1) c r show ?thesis by simp
qed

definition deleted_db :: "uuid \<Rightarrow> db \<Rightarrow> db" where
  "deleted_db uid d = drop_user_rows uid (d\<lparr>users := filter (\<lambda>u. u_id u \<noteq> uid) (users d)\<rparr>)"

lemma delete_tx_runs:
  "delete_tx E uid (opened d) = (Inr x, u) \<Longrightarrow>
   committed u = deleted_db uid d \<and> db_ok (committed u) \<and> uid \<in> u_id ` set (users d)"
  by (auto simp: delete_tx_def runs table_defs deleted_db_def ran_def filter_empty_conv split: if_splits)

lemma upsert_profile_tx_runs:
  "upsert_profile_tx E i uid data (opened d) = (Inr dto, u) \<Longrightarrow>
   committed u = put_profile i uid data d \<and> db_ok (committed u) \<and> uid \<in> u_id ` set (users d) \<and>
   dto = profile_read_of (apply_profile data (case user_profile d uid of None \<Rightarrow> new_profile i uid | Some p \<Rightarrow> p))"
  by (auto simp: upsert_profile_tx_def runs table_defs ran_def split: option.splits dest: row_get_Some)

lemma get_tx_iff: "get_tx E uid u = (Inr r, u') \<longleftrightarrow> (\<exists>w. ran E u w \<and> r = db_user_detail w uid \<and> u' = used User u)"
  unfolding get_tx_def runs_repo_bind by (auto simp: runs ran_def)

lemma get_tx_runs: "get_tx E uid (opened d) = (Inr r, u) \<Longrightarrow> r = db_user_detail d uid \<and> committed u = d"
  by (auto simp: get_tx_iff)

end
