(* ===== verification/Account_Service.thy ===== *)
theory Account_Service
  imports User_Service
begin

section \<open>The account service\<close>

text \<open>
  \<^verbatim>\<open>app/services/account.py\<close>: categories, accounts, deposits and withdrawals with the row lock, the
  reads with their relations, and the request check of \<^verbatim>\<open>AmountRequest\<close> (app/schemas/account.py).
  The ledger invariant \<open>ledger_ok\<close> says that each balance is the sum of the account's transactions
  and never negative.
\<close>

subsection \<open>Forms\<close>

record category_read =
  cr_id :: uuid
  cr_name :: string

record transaction_read =
  tr_id :: uuid
  tr_amount :: int
  tr_kind :: string
  tr_acquirer :: acquirer_name
  tr_created_at :: timestamp
  tr_categories :: "category_read list"

record account_with_transactions = account_read +
  at_transactions :: "transaction_read list"

record transaction_brief =
  tb_tid :: uuid
  tb_amount :: int
  tb_kind :: string
  tb_created_at :: timestamp

record account_brief =
  ab_id :: uuid
  ab_name :: string
  ab_balance :: int
  ab_transactions :: "transaction_brief list"

record user_overview =
  uo_id :: uuid
  uo_email :: string
  uo_full_name :: string
  uo_profile :: "profile_read option"
  uo_accounts :: "account_brief list"

definition category_read_of :: "category_row \<Rightarrow> category_read" where
  "category_read_of c = \<lparr>cr_id = c_id c, cr_name = c_name c\<rparr>"

definition transaction_read_of :: "transaction_row \<times> category_row list \<Rightarrow> transaction_read" where
  "transaction_read_of tc = (let (t, cs) = tc in \<lparr>tr_id = t_id t, tr_amount = t_amount t, tr_kind = t_kind t,
     tr_acquirer = t_acquirer t, tr_created_at = t_created_at t, tr_categories = map category_read_of cs\<rparr>)"

definition account_with_transactions_of ::
  "account_row \<times> (transaction_row \<times> category_row list) list \<Rightarrow> account_with_transactions" where
  "account_with_transactions_of x = (let (a, ts) = x in \<lparr>ar_id = a_id a, ar_user_id = a_user_id a,
     ar_name = a_name a, ar_balance = a_balance a, at_transactions = map transaction_read_of ts\<rparr>)"

definition transaction_brief_of :: "transaction_row \<Rightarrow> transaction_brief" where
  "transaction_brief_of t = \<lparr>tb_tid = t_id t, tb_amount = t_amount t, tb_kind = t_kind t, tb_created_at = t_created_at t\<rparr>"

definition account_brief_of :: "account_row \<times> transaction_row list \<Rightarrow> account_brief" where
  "account_brief_of x = (let (a, ts) = x in \<lparr>ab_id = a_id a, ab_name = a_name a, ab_balance = a_balance a,
     ab_transactions = map transaction_brief_of ts\<rparr>)"

definition user_overview_of ::
  "user_row \<times> profile_row option \<times> (account_row \<times> transaction_row list) list \<Rightarrow> user_overview" where
  "user_overview_of x = (let (u, p, as) = x in \<lparr>uo_id = u_id u, uo_email = u_email u, uo_full_name = u_full_name u,
     uo_profile = map_option profile_read_of p, uo_accounts = map account_brief_of as\<rparr>)"

text \<open>\<^verbatim>\<open>AmountRequest\<close>: the amount is positive and the provider switched on, or the answer is 422.\<close>

record amount_request =
  am_amount :: int
  am_acquirer :: acquirer_name
  am_category_ids :: "uuid list"

definition amount_errors :: "settings \<Rightarrow> amount_request \<Rightarrow> field_error list" where
  "amount_errors c r = field_gt 0 (body_field ''amount'') (am_amount r) @
     (if am_acquirer r \<notin> enabled_acquirers c
      then [(body_field ''acquirer'', ''Value error, acquirer '' @ [CHR 0x27] @ acquirer_value (am_acquirer r) @
             [CHR 0x27] @ '' is not enabled'', ''value_error'')] else [])"

definition validate_amount :: "settings \<Rightarrow> amount_request \<Rightarrow> exn + amount_request" where
  "validate_amount c r = validated (amount_errors c r) r"

subsection \<open>Operations\<close>

definition create_category_tx :: "engine \<Rightarrow> uuid \<Rightarrow> string \<Rightarrow> category_read tx" where
  "create_category_tx E new_id name =
     tx_bind (tx_catch
       (tx_bind (repo_add E Category \<lparr>c_id = new_id, c_name = name\<rparr>) (\<lambda>cat.
          tx_bind (commit E) (\<lambda>_. tx_return cat)))
       (\<lambda>e. tx_fail (if e = IntegrityError then ConflictError ''Category with this name already exists'' else e)))
     (\<lambda>cat. tx_return (category_read_of cat))"

definition create_category :: "engine \<Rightarrow> uuid \<Rightarrow> string \<Rightarrow> ('s, category_read) svc_op" where
  "create_category E new_id name = in_tx (create_category_tx E new_id name) sv_return"

definition list_categories :: "engine \<Rightarrow> (category_row list \<Rightarrow> category_row list) \<Rightarrow> ('s, category_read list) svc_op" where
  "list_categories E by_name = in_tx (tx_bind (repo_list E Category 50 0 (Some by_name))
     (\<lambda>cats. tx_return (map category_read_of cats))) sv_return"

definition create_account_tx :: "engine \<Rightarrow> uuid \<Rightarrow> uuid \<Rightarrow> string \<Rightarrow> account_read tx" where
  "create_account_tx E new_id user_id name =
     tx_bind (repo_get E User user_id) (\<lambda>u.
       if u = None then tx_fail (NotFoundError ''User not found'')
       else tx_bind (repo_add E Account \<lparr>a_id = new_id, a_user_id = user_id, a_name = name, a_balance = 0\<rparr>)
         (\<lambda>acc. tx_bind (commit E) (\<lambda>_. tx_return (account_read_of acc))))"

definition create_account ::
  "engine \<Rightarrow> ('s, 'v) cache \<Rightarrow> uuid \<Rightarrow> uuid \<Rightarrow> string \<Rightarrow> ('s, account_read) svc_op" where
  "create_account E Ch new_id user_id name =
     in_tx (create_account_tx E new_id user_id name) (\<lambda>dto v. (Inr dto, drop_cached Ch user_id v))"

definition get_account :: "engine \<Rightarrow> uuid \<Rightarrow> ('s, account_with_transactions) svc_op" where
  "get_account E account_id = in_tx (tx_bind (get_with_transactions E account_id) (\<lambda>acc.
     case acc of None \<Rightarrow> tx_fail (NotFoundError ''Account not found'')
       | Some a \<Rightarrow> tx_return (account_with_transactions_of a))) sv_return"

definition link_categories :: "uuid \<Rightarrow> category_row list \<Rightarrow> unit tx" where
  "link_categories tid cats = tx_stage (\<lambda>d. d\<lparr>transaction_categories :=
     transaction_categories d @ map (\<lambda>c. (tid, c_id c)) cats\<rparr>)"

text \<open>
  Both operations read the account with \<^verbatim>\<open>for_update=True\<close>; \<open>deposit_with\<close> and \<open>withdraw_with\<close> are what
  they do once they hold the row.
\<close>

definition deposit_with ::
  "engine \<Rightarrow> uuid \<Rightarrow> timestamp \<Rightarrow> int \<Rightarrow> acquirer_name \<Rightarrow> uuid list \<Rightarrow> account_row \<Rightarrow> (account_read \<times> uuid) tx" where
  "deposit_with E new_id now amount acquirer category_ids acc =
     (let acc = acc\<lparr>a_balance := a_balance acc + amount\<rparr>;
          t = \<lparr>t_id = new_id, t_account_id = a_id acc, t_amount = amount, t_kind = ''deposit'',
               t_acquirer = acquirer, t_created_at = now\<rparr>
         in tx_bind (save_row Account acc) (\<lambda>_.
            tx_bind (get_many E category_ids) (\<lambda>cats.
              if category_ids \<noteq> [] \<and> length cats \<noteq> card (set category_ids)
              then tx_fail (NotFoundError ''One or more categories not found'')
              else tx_bind (link_categories new_id cats) (\<lambda>_.
                   tx_bind (repo_add E Transaction t) (\<lambda>_.
                   tx_bind (commit E) (\<lambda>_. tx_return (account_read_of acc, a_user_id acc)))))))"

definition deposit_tx ::
  "engine \<Rightarrow> uuid \<Rightarrow> timestamp \<Rightarrow> uuid \<Rightarrow> int \<Rightarrow> acquirer_name \<Rightarrow> uuid list \<Rightarrow> (account_read \<times> uuid) tx" where
  "deposit_tx E new_id now account_id amount acquirer category_ids =
     tx_bind (repo_get E Account account_id) (\<lambda>found. case found of
       None \<Rightarrow> tx_fail (NotFoundError ''Account not found'')
     | Some acc \<Rightarrow> deposit_with E new_id now amount acquirer category_ids acc)"

definition deposit ::
  "engine \<Rightarrow> ('s, 'v) cache \<Rightarrow> uuid \<Rightarrow> timestamp \<Rightarrow> uuid \<Rightarrow> int \<Rightarrow> acquirer_name \<Rightarrow> uuid list \<Rightarrow>
   ('s, account_read) svc_op" where
  "deposit E Ch new_id now account_id amount acquirer category_ids =
     in_tx (deposit_tx E new_id now account_id amount acquirer category_ids)
       (\<lambda>(dto, uid) v. (Inr dto, drop_cached Ch uid v))"

definition withdraw_with ::
  "engine \<Rightarrow> uuid \<Rightarrow> timestamp \<Rightarrow> int \<Rightarrow> acquirer_name \<Rightarrow> account_row \<Rightarrow> (account_read \<times> uuid) tx" where
  "withdraw_with E new_id now amount acquirer acc =
     (if a_balance acc < amount then tx_fail (ConflictError ''Insufficient funds'')
      else let acc = acc\<lparr>a_balance := a_balance acc - amount\<rparr>;
             t = \<lparr>t_id = new_id, t_account_id = a_id acc, t_amount = - amount, t_kind = ''withdrawal'',
                  t_acquirer = acquirer, t_created_at = now\<rparr>
         in tx_bind (save_row Account acc) (\<lambda>_.
            tx_bind (repo_add E Transaction t) (\<lambda>_.
            tx_bind (commit E) (\<lambda>_. tx_return (account_read_of acc, a_user_id acc)))))"

definition withdraw_tx ::
  "engine \<Rightarrow> uuid \<Rightarrow> timestamp \<Rightarrow> uuid \<Rightarrow> int \<Rightarrow> acquirer_name \<Rightarrow> (account_read \<times> uuid) tx" where
  "withdraw_tx E new_id now account_id amount acquirer =
     tx_bind (repo_get E Account account_id) (\<lambda>found. case found of
       None \<Rightarrow> tx_fail (NotFoundError ''Account not found'')
     | Some acc \<Rightarrow> withdraw_with E new_id now amount acquirer acc)"

lemmas deposit_defs = deposit_tx_def deposit_with_def
lemmas withdraw_defs = withdraw_tx_def withdraw_with_def

definition withdraw ::
  "engine \<Rightarrow> ('s, 'v) cache \<Rightarrow> uuid \<Rightarrow> timestamp \<Rightarrow> uuid \<Rightarrow> int \<Rightarrow> acquirer_name \<Rightarrow> ('s, account_read) svc_op" where
  "withdraw E Ch new_id now account_id amount acquirer =
     in_tx (withdraw_tx E new_id now account_id amount acquirer)
       (\<lambda>(dto, uid) v. (Inr dto, drop_cached Ch uid v))"

definition get_user_overview :: "engine \<Rightarrow> uuid \<Rightarrow> ('s, user_overview) svc_op" where
  "get_user_overview E user_id = in_tx (tx_bind (get_overview E user_id) (\<lambda>u.
     case u of None \<Rightarrow> tx_fail (NotFoundError ''User not found'')
       | Some x \<Rightarrow> tx_return (user_overview_of x))) sv_return"

subsection \<open>Transactions: what they commit\<close>

lemma atomic_account_ops [keeps]:
  "atomic (create_category_tx E i n)" "atomic (create_account_tx E i u n)"
  "atomic (deposit_tx E i now a x q cs)" "atomic (withdraw_tx E i now a x q)"
proof -
  have r: "atomic (tx_bind m (\<lambda>x. tx_return (f x)))" if "atomic m" for m :: "'a tx" and f :: "'a \<Rightarrow> 'b"
    using that by (auto simp: atomic_def tx_bind_def tx_return_def split: prod.splits sum.splits)
  show "atomic (create_category_tx E i n)"
    unfolding create_category_tx_def by (rule r, rule keeps, rule keeps) (intro keeps)+
qed (unfold create_account_tx_def deposit_defs withdraw_defs Let_def link_categories_def,
    (rule keeps | rule uncommitted_atomic)+)

definition moved_db :: "account_row \<Rightarrow> transaction_row \<Rightarrow> (uuid \<times> uuid) list \<Rightarrow> db \<Rightarrow> db" where
  "moved_db acc t links d = d\<lparr>accounts := row_put a_id acc (accounts d),
     transaction_categories := transaction_categories d @ links, transactions := transactions d @ [t]\<rparr>"

lemma moved_db_Nil: "moved_db acc t [] d =
    d\<lparr>accounts := row_put a_id acc (accounts d), transactions := transactions d @ [t]\<rparr>"
  by (cases d) (simp add: moved_db_def)

lemma create_category_tx_runs:
  "create_category_tx E i name (opened d) = (Inr dto, u) \<Longrightarrow>
   committed u = d\<lparr>categories := categories d @ [\<lparr>c_id = i, c_name = name\<rparr>]\<rparr> \<and> db_ok (committed u)"
  by (auto simp: create_category_tx_def runs table_defs ran_def)

lemma create_account_tx_runs:
  "create_account_tx E i uid name (opened d) = (Inr dto, u) \<Longrightarrow>
   committed u = d\<lparr>accounts := accounts d @ [\<lparr>a_id = i, a_user_id = uid, a_name = name, a_balance = 0\<rparr>]\<rparr> \<and>
   db_ok (committed u) \<and> uid \<in> u_id ` set (users d)"
  by (auto simp: create_account_tx_def runs table_defs ran_def split: if_splits dest: row_get_Some)

lemma deposit_tx_runs:
  assumes "deposit_tx E i now aid amount acq cids (opened d) = (Inr (dto, uid), u)"
  shows "\<exists>acc links. row_get a_id (accounts d) aid = Some acc \<and> uid = a_user_id acc \<and>
    committed u = moved_db (acc\<lparr>a_balance := a_balance acc + amount\<rparr>)
      \<lparr>t_id = i, t_account_id = a_id acc, t_amount = amount, t_kind = ''deposit'', t_acquirer = acq, t_created_at = now\<rparr>
      links d \<and> db_ok (committed u) \<and> dto = account_read_of (acc\<lparr>a_balance := a_balance acc + amount\<rparr>)"
proof -
  from assms obtain acc where acc: "row_get a_id (accounts d) aid = Some acc"
    by (auto simp: deposit_defs runs table_defs split: option.splits)
  show ?thesis
  proof (cases "cids = []")
    case True
    with assms acc show ?thesis
      by (auto simp: deposit_defs get_many_def link_categories_def runs table_defs ran_def Let_def
          moved_db_Nil intro!: exI [of _ "[] :: (uuid \<times> uuid) list"])
  next
    case False
    with assms acc show ?thesis
      by (auto simp: deposit_defs get_many_def link_categories_def runs table_defs ran_def Let_def
          moved_db_def split: if_splits)
  qed
qed

lemma withdraw_tx_runs:
  assumes "withdraw_tx E i now aid amount acq (opened d) = (Inr (dto, uid), u)"
  shows "\<exists>acc. row_get a_id (accounts d) aid = Some acc \<and> uid = a_user_id acc \<and> amount \<le> a_balance acc \<and>
    committed u = moved_db (acc\<lparr>a_balance := a_balance acc - amount\<rparr>)
      \<lparr>t_id = i, t_account_id = a_id acc, t_amount = - amount, t_kind = ''withdrawal'', t_acquirer = acq, t_created_at = now\<rparr>
      [] d \<and> db_ok (committed u) \<and> dto = account_read_of (acc\<lparr>a_balance := a_balance acc - amount\<rparr>)"
  using assms
  by (auto simp: withdraw_defs runs table_defs ran_def Let_def moved_db_Nil split: option.splits if_splits)

end
