(* ===== verification/Session_Store.thy ===== *)
theory Session_Store
  imports Redis Config "HOL-Library.List_Lexorder"
begin

section \<open>Sessions in Redis\<close>

text \<open>
  \<^verbatim>\<open>app/security/session_store.py\<close>. A session is the hash \<^verbatim>\<open>sess:{sid}\<close>, live as long as the key is;
  the set \<^verbatim>\<open>usess:{user_id}\<close> indexes a user's sessions. The fresh identifiers (\<^verbatim>\<open>uuid4\<close>) and the
  clock reading are arguments. The invariant \<open>sess_inv\<close> says that the index of a user has every
  live session of the user, and outlives it; it holds in every state that the store and the passage
  of time can reach, which is what makes "log out everywhere" complete.
\<close>

definition sess_ttl :: "settings \<Rightarrow> nat" where
  "sess_ttl c = nat (refresh_token_expire_days c * 24 * 3600)"

definition sk :: "string \<Rightarrow> string" where
  "sk sid = ''sess:'' @ sid"

definition uk :: "string \<Rightarrow> string" where
  "uk user_id = ''usess:'' @ user_id"

lemma sess_keys [simp]: "sk a = sk b \<longleftrightarrow> a = b" "uk a = uk b \<longleftrightarrow> a = b" "sk a \<noteq> uk b" "uk b \<noteq> sk a"
  by (simp_all add: sk_def uk_def)

text \<open>\<^verbatim>\<open>_dec\<close>: a missing field reads as the empty string.\<close>

definition dec :: "string option \<Rightarrow> string" where
  "dec v = (case v of None \<Rightarrow> [] | Some x \<Rightarrow> x)"

definition sess_mapping ::
  "string \<Rightarrow> string \<Rightarrow> string \<Rightarrow> string option \<Rightarrow> string option \<Rightarrow> (string \<times> string) list" where
  "sess_mapping user_id jti now ip ua =
     [(''uid'', user_id), (''jti'', jti), (''created_at'', now), (''last_used'', now),
      (''ip'', str_or ip []), (''ua'', take 256 (str_or ua []))]"

subsection \<open>Operations\<close>

definition create ::
  "'r redis \<Rightarrow> nat \<Rightarrow> string \<Rightarrow> string \<Rightarrow> string \<Rightarrow> string \<Rightarrow> string option \<Rightarrow> string option \<Rightarrow> 'r \<Rightarrow>
   (string \<times> string) \<times> 'r" where
  "create R ttl sid jti now user_id ip ua s =
     (let s = r_hset R (sk sid) (sess_mapping user_id jti now ip ua) s;
          s = r_expire R (sk sid) ttl s;
          s = r_sadd R (uk user_id) sid s;
          s = r_expire R (uk user_id) ttl s
      in ((sid, jti), s))"

definition validate :: "'r redis \<Rightarrow> string \<Rightarrow> string \<Rightarrow> string \<Rightarrow> 'r \<Rightarrow> bool" where
  "validate R sid jti user_id s =
     (let data = r_hgetall R s (sk sid)
      in if data = [] then False
         else dec (map_of data ''uid'') = user_id \<and> dec (map_of data ''jti'') = jti)"

text \<open>The pipeline of \<^verbatim>\<open>rotate\<close>, which Redis runs after the check and not with it.\<close>

definition rotate_write ::
  "'r redis \<Rightarrow> nat \<Rightarrow> string \<Rightarrow> string \<Rightarrow> string \<Rightarrow> string \<Rightarrow> 'r \<Rightarrow> 'r" where
  "rotate_write R ttl new_jti now sid user_id s =
     (let s = r_hset R (sk sid) [(''jti'', new_jti), (''last_used'', now)] s;
          s = r_expire R (sk sid) ttl s
      in r_expire R (uk user_id) ttl s)"

definition rotate ::
  "'r redis \<Rightarrow> nat \<Rightarrow> string \<Rightarrow> string \<Rightarrow> string \<Rightarrow> string \<Rightarrow> 'r \<Rightarrow> string option \<times> 'r" where
  "rotate R ttl new_jti now sid user_id s =
     (let data = r_hgetall R s (sk sid)
      in if data = [] \<or> dec (map_of data ''uid'') \<noteq> user_id then (None, s)
         else (Some new_jti, rotate_write R ttl new_jti now sid user_id s))"

definition exists_session :: "'r redis \<Rightarrow> string \<Rightarrow> 'r \<Rightarrow> bool" where
  "exists_session R sid s = r_exists R s (sk sid)"

definition revoke :: "'r redis \<Rightarrow> string \<Rightarrow> 'r \<Rightarrow> int \<times> 'r" where
  "revoke R sid s =
     (if sid = [] then (0, s)
      else (let uid = dec (r_hget R s (sk sid) ''uid'')
            in if uid = [] then (0, s)
               else (1, r_srem R (uk uid) sid (snd (r_del R (sk sid) s)))))"

definition list_sids :: "'r redis \<Rightarrow> string \<Rightarrow> 'r \<Rightarrow> string list" where
  "list_sids R user_id s = r_smembers R s (uk user_id)"

record session_meta =
  sm_sid :: string
  sm_created_at :: "string option"
  sm_last_used_at :: "string option"
  sm_ip :: "string option"
  sm_user_agent :: "string option"

definition field_or_none :: "(string \<times> string) list \<Rightarrow> string \<Rightarrow> string option" where
  "field_or_none data k = (let v = dec (map_of data k) in if v = [] then None else Some v)"

definition session_meta_of :: "string \<Rightarrow> (string \<times> string) list \<Rightarrow> session_meta" where
  "session_meta_of sid data =
     \<lparr>sm_sid = sid, sm_created_at = field_or_none data ''created_at'',
      sm_last_used_at = field_or_none data ''last_used'', sm_ip = field_or_none data ''ip'',
      sm_user_agent = field_or_none data ''ua''\<rparr>"

definition list_sessions :: "'r redis \<Rightarrow> string \<Rightarrow> 'r \<Rightarrow> session_meta list" where
  "list_sessions R user_id s =
     sort_key (\<lambda>m. map (of_char :: char \<Rightarrow> nat) (str_or (sm_created_at m) []))
       (concat (map (\<lambda>sid. let data = r_hgetall R s (sk sid)
                           in if data = [] then [] else [session_meta_of sid data])
                    (list_sids R user_id s)))"

definition revoke_all :: "'r redis \<Rightarrow> string \<Rightarrow> 'r \<Rightarrow> nat \<times> 'r" where
  "revoke_all R user_id s =
     (let sids = list_sids R user_id s
      in if sids = [] then (0, s)
         else (let s = fold (\<lambda>sid s. snd (r_del R (sk sid) s)) sids s;
                   s = snd (r_del R (uk user_id) s)
               in (length sids, s)))"

definition revoke_others :: "'r redis \<Rightarrow> string \<Rightarrow> string \<Rightarrow> 'r \<Rightarrow> nat \<times> 'r" where
  "revoke_others R user_id keep_sid s =
     (let others = filter (\<lambda>sid. sid \<noteq> keep_sid) (list_sids R user_id s)
      in if others = [] then (0, s)
         else (length others,
               fold (\<lambda>sid s. r_srem R (uk user_id) sid (snd (r_del R (sk sid) s))) others s))"

subsection \<open>The invariant\<close>

definition live :: "'r redis \<Rightarrow> 'r \<Rightarrow> string \<Rightarrow> bool" where
  "live R s sid \<longleftrightarrow> kv R s (sk sid) \<noteq> None"

definition owner :: "'r redis \<Rightarrow> 'r \<Rightarrow> string \<Rightarrow> string option" where
  "owner R s sid = hash_at R s (sk sid) ''uid''"

definition current_jti :: "'r redis \<Rightarrow> 'r \<Rightarrow> string \<Rightarrow> string option" where
  "current_jti R s sid = hash_at R s (sk sid) ''jti''"

definition sess_kinds :: "'r redis \<Rightarrow> 'r \<Rightarrow> bool" where
  "sess_kinds R s \<longleftrightarrow> (\<forall>sid. is_hash_key R s (sk sid)) \<and> (\<forall>u. is_set_key R s (uk u))"

text \<open>
  The entry of a live session: a hash with an owner, whose index has the session and lives at
  least as long. The entry of an index: a set, whose live members belong to its user.
\<close>

definition session_entry :: "nat \<Rightarrow> (string \<Rightarrow> entry option) \<Rightarrow> string \<Rightarrow> bool" where
  "session_entry ttl m sid \<longleftrightarrow> (\<forall>v t. m (sk sid) = Some (v, t) \<longrightarrow>
     (\<exists>h u n ms n'. v = RHash h \<and> t = Some n \<and> h ''uid'' = Some u \<and> u \<noteq> [] \<and>
        m (uk u) = Some (RSet ms, Some n') \<and> sid \<in> ms \<and> n \<le> n'))"

definition index_entry :: "nat \<Rightarrow> (string \<Rightarrow> entry option) \<Rightarrow> string \<Rightarrow> bool" where
  "index_entry ttl m u \<longleftrightarrow> (\<forall>v t. m (uk u) = Some (v, t) \<longrightarrow>
     (\<exists>ms n. v = RSet ms \<and> t = Some n \<and> n \<le> ttl \<and>
        (\<forall>sid \<in> ms. \<forall>v' t'. m (sk sid) = Some (v', t') \<longrightarrow>
           (\<exists>h. v' = RHash h \<and> h ''uid'' = Some u))))"

definition sess_ok :: "nat \<Rightarrow> (string \<Rightarrow> entry option) \<Rightarrow> bool" where
  "sess_ok ttl m \<longleftrightarrow> (\<forall>sid. session_entry ttl m sid) \<and> (\<forall>u. index_entry ttl m u)"

definition sess_inv :: "'r redis \<Rightarrow> nat \<Rightarrow> 'r \<Rightarrow> bool" where
  "sess_inv R ttl s \<longleftrightarrow> sess_ok ttl (kv R s)"

lemmas sess_ok_defs = sess_ok_def session_entry_def index_entry_def

lemma sess_inv_kinds: "sess_inv R ttl s \<Longrightarrow> sess_kinds R s"
  unfolding sess_inv_def sess_ok_defs sess_kinds_def key_kind_defs by metis

lemma sess_inv_live:
  assumes "sess_inv R ttl s" "live R s sid"
  obtains h u n ms n' where "kv R s (sk sid) = Some (RHash h, Some n)" "h ''uid'' = Some u" "u \<noteq> []"
    "kv R s (uk u) = Some (RSet ms, Some n')" "sid \<in> ms" "n \<le> n'" "n' \<le> ttl"
    "owner R s sid = Some u"
proof -
  from assms(2) obtain v t where vt: "kv R s (sk sid) = Some (v, t)" by (auto simp: live_def)
  with assms(1) obtain h u n ms n' where a: "v = RHash h" "t = Some n" "h ''uid'' = Some u" "u \<noteq> []"
    "kv R s (uk u) = Some (RSet ms, Some n')" "sid \<in> ms" "n \<le> n'"
    unfolding sess_inv_def sess_ok_defs by metis
  moreover have "n' \<le> ttl" using assms(1) a(5) unfolding sess_inv_def sess_ok_defs by fastforce
  ultimately show ?thesis using vt by (intro that [of h n u ms n']) (auto simp: owner_def view_defs)
qed

lemma sess_inv_index:
  assumes "sess_inv R ttl s" "sid \<in> set_at R s (uk u)" "live R s sid"
  shows "owner R s sid = Some u"
proof -
  from assms(2) obtain ms t where "kv R s (uk u) = Some (RSet ms, t)" "sid \<in> ms"
    by (auto simp: view_defs split: option.splits rval.splits)
  with assms(1,3) show ?thesis
    unfolding sess_inv_def sess_ok_defs live_def owner_def view_defs by fastforce
qed

subsection \<open>Preservation, on keyspaces\<close>

lemma sess_okD:
  assumes "sess_ok ttl m" "m (sk sid) = Some (v, t)"
  obtains h u n ms n' where "v = RHash h" "t = Some n" "h ''uid'' = Some u" "u \<noteq> []"
    "m (uk u) = Some (RSet ms, Some n')" "sid \<in> ms" "n \<le> n'" "n' \<le> ttl"
proof -
  from assms obtain h u n ms n' where a: "v = RHash h" "t = Some n" "h ''uid'' = Some u" "u \<noteq> []"
    "m (uk u) = Some (RSet ms, Some n')" "sid \<in> ms" "n \<le> n'"
    unfolding sess_ok_defs by metis
  moreover have "n' \<le> ttl" using assms(1) a(5) unfolding sess_ok_defs by fastforce
  ultimately show ?thesis by (rule that)
qed

lemma sess_okD_index:
  assumes "sess_ok ttl m" "m (uk u) = Some (v, t)"
  obtains ms n where "v = RSet ms" "t = Some n" "n \<le> ttl"
    "\<And>sid v' t'. sid \<in> ms \<Longrightarrow> m (sk sid) = Some (v', t') \<Longrightarrow> \<exists>h. v' = RHash h \<and> h ''uid'' = Some u"
  using assms unfolding sess_ok_def index_entry_def by metis

lemma sess_okI:
  assumes "\<And>sid v t. m (sk sid) = Some (v, t) \<Longrightarrow> \<exists>h u n ms n'. v = RHash h \<and> t = Some n \<and>
      h ''uid'' = Some u \<and> u \<noteq> [] \<and> m (uk u) = Some (RSet ms, Some n') \<and> sid \<in> ms \<and> n \<le> n'"
    and "\<And>u v t. m (uk u) = Some (v, t) \<Longrightarrow> \<exists>ms n. v = RSet ms \<and> t = Some n \<and> n \<le> ttl \<and>
      (\<forall>sid \<in> ms. \<forall>v' t'. m (sk sid) = Some (v', t') \<longrightarrow> (\<exists>h. v' = RHash h \<and> h ''uid'' = Some u))"
  shows "sess_ok ttl m"
  unfolding sess_ok_defs using assms by blast

text \<open>
  Writing a session of user \<open>u\<close> and its index at full time to live: a new session, or a rotation.
\<close>

lemma sess_ok_write:
  assumes ok: "sess_ok ttl m" and u: "h ''uid'' = Some u" "u \<noteq> []" and sid: "sid \<in> ms'"
    and keep: "\<And>ms t. m (uk u) = Some (RSet ms, t) \<Longrightarrow> ms \<subseteq> ms'"
    and new: "\<And>x v t. x \<in> ms' \<Longrightarrow> x \<noteq> sid \<Longrightarrow> m (sk x) = Some (v, t) \<Longrightarrow>
       \<exists>h. v = RHash h \<and> h ''uid'' = Some u"
    and mine: "\<And>u' ms t. u' \<noteq> u \<Longrightarrow> m (uk u') = Some (RSet ms, t) \<Longrightarrow> sid \<notin> ms"
  shows "sess_ok ttl (m(sk sid \<mapsto> (RHash h, Some ttl), uk u \<mapsto> (RSet ms', Some ttl)))"
proof (rule sess_okI, goal_cases)
  case (1 x v t)
  show ?case
  proof (cases "x = sid")
    case True
    with 1 u sid show ?thesis by auto
  next
    case False
    with 1 have "m (sk x) = Some (v, t)" by simp
    then obtain h' u' n ms n' where x: "v = RHash h'" "t = Some n" "h' ''uid'' = Some u'" "u' \<noteq> []"
      "m (uk u') = Some (RSet ms, Some n')" "x \<in> ms" "n \<le> n'" "n' \<le> ttl"
      by (rule sess_okD [OF ok])
    show ?thesis
    proof (cases "u' = u")
      case True
      with x keep have "x \<in> ms'" by blast
      with x True show ?thesis by auto
    next
      case False
      with x show ?thesis by auto
    qed
  qed
next
  case (2 u' v t)
  show ?case
  proof (cases "u' = u")
    case True
    with 2 u new show ?thesis by auto
  next
    case False
    with 2 have m: "m (uk u') = Some (v, t)" by simp
    obtain ms n where "v = RSet ms" "t = Some n" "n \<le> ttl"
      "\<And>x v' t'. x \<in> ms \<Longrightarrow> m (sk x) = Some (v', t') \<Longrightarrow> \<exists>h. v' = RHash h \<and> h ''uid'' = Some u'"
      by (rule sess_okD_index [OF ok m]) blast
    moreover from this m mine [OF False] have "sid \<notin> ms" by blast
    ultimately show ?thesis by (auto split: if_splits)
  qed
qed

text \<open>Dropping sessions, and then shrinking an index to at least its live sessions.\<close>

lemma sess_ok_drop:
  assumes "sess_ok ttl m"
  shows "sess_ok ttl (\<lambda>k. if k \<in> sk ` A then None else m k)"
proof (rule sess_okI, goal_cases)
  case (1 sid v t)
  then have "m (sk sid) = Some (v, t)" by (simp split: if_splits)
  then show ?case by (rule sess_okD [OF assms]) auto
next
  case (2 u v t)
  then have "m (uk u) = Some (v, t)" by (simp split: if_splits)
  then show ?case by (rule sess_okD_index [OF assms]) auto
qed

lemma sess_ok_shrink:
  assumes ok: "sess_ok ttl m" and u: "m (uk u) = Some (RSet ms, t)" and "ms' \<subseteq> ms"
    and dead: "\<And>sid. sid \<in> ms - ms' \<Longrightarrow> m (sk sid) = None"
  shows "sess_ok ttl (m(uk u := (if ms' = {} then None else Some (RSet ms', t))))"
proof (rule sess_okI, goal_cases)
  case (1 sid v t')
  then have s: "m (sk sid) = Some (v, t')" by simp
  from sess_okD [OF ok s] obtain h u' n ms2 n' where x: "v = RHash h" "t' = Some n"
    "h ''uid'' = Some u'" "u' \<noteq> []" "m (uk u') = Some (RSet ms2, Some n')" "sid \<in> ms2" "n \<le> n'"
    by metis
  show ?case
  proof (cases "u' = u")
    case True
    with x u have "sid \<in> ms" by simp
    with dead [of sid] s have "sid \<in> ms'" by (cases "sid \<in> ms'") auto
    with x u True show ?thesis by auto
  next
    case False
    with x show ?thesis by auto
  qed
next
  case (2 u' v t')
  show ?case
  proof (cases "u' = u")
    case True
    obtain n where n: "t = Some n" "n \<le> ttl"
      and mem: "\<And>x v' t'. x \<in> ms \<Longrightarrow> m (sk x) = Some (v', t') \<Longrightarrow> \<exists>h. v' = RHash h \<and> h ''uid'' = Some u"
      by (rule sess_okD_index [OF ok u]) auto
    from 2 True have v: "v = RSet ms'" "t' = t" by (auto split: if_splits)
    have "\<exists>h. v' = RHash h \<and> h ''uid'' = Some u'"
      if "x \<in> ms'" "(m(uk u := (if ms' = {} then None else Some (RSet ms', t)))) (sk x) = Some (v', t'')" for x v' t''
      using that mem [of x v' t''] True assms(3) by auto
    with v n show ?thesis by blast
  next
    case False
    with 2 have "m (uk u') = Some (v, t')" by simp
    then show ?thesis by (rule sess_okD_index [OF ok]) auto
  qed
qed

text \<open>Time: \<open>n\<close> seconds pass, keys whose time to live runs out disappear.\<close>

definition tick_entry :: "nat \<Rightarrow> entry option \<Rightarrow> entry option" where
  "tick_entry n e = (case e of Some (v, Some t) \<Rightarrow> if t \<le> n then None else Some (v, Some (t - n)) | _ \<Rightarrow> e)"

lemma sess_ok_tick:
  assumes ok: "sess_ok ttl m"
  shows "sess_ok ttl (\<lambda>k. tick_entry n (m k))"
proof (rule sess_okI, goal_cases)
  case (1 sid v t)
  then obtain t0 where s: "m (sk sid) = Some (v, t0)"
    by (auto simp: tick_entry_def split: option.splits if_splits prod.splits)
  show ?case
  proof (rule sess_okD [OF ok s])
    fix h u k ms n'
    assume x: "v = RHash h" "t0 = Some k" "h ''uid'' = Some u" "u \<noteq> []"
      "m (uk u) = Some (RSet ms, Some n')" "sid \<in> ms" "k \<le> n'"
    from 1 x(2) s have k: "n < k" "t = Some (k - n)" by (auto simp: tick_entry_def split: if_splits)
    with x have "tick_entry n (m (uk u)) = Some (RSet ms, Some (n' - n))" "k - n \<le> n' - n"
      by (auto simp: tick_entry_def)
    with x k show ?thesis by blast
  qed
next
  case (2 u v t)
  then obtain t0 where s: "m (uk u) = Some (v, t0)"
    by (auto simp: tick_entry_def split: option.splits if_splits prod.splits)
  obtain ms k where x: "v = RSet ms" "t0 = Some k" "k \<le> ttl"
    and mem: "\<And>x v' t'. x \<in> ms \<Longrightarrow> m (sk x) = Some (v', t') \<Longrightarrow> \<exists>h. v' = RHash h \<and> h ''uid'' = Some u"
    by (rule sess_okD_index [OF ok s]) auto
  from 2 x(2) s have k: "t = Some (k - n)" by (auto simp: tick_entry_def split: if_splits)
  have "\<exists>h. v' = RHash h \<and> h ''uid'' = Some u"
    if "y \<in> ms" "tick_entry n (m (sk y)) = Some (v', t')" for y v' t'
    using that(2) mem [OF that(1), of v'] by (auto simp: tick_entry_def split: option.splits if_splits)
  with x k show ?case by (intro exI [of _ ms] exI [of _ "k - n"]) auto
qed

lemma sess_ok_cong:
  assumes "sess_ok ttl m" "\<And>sid. m' (sk sid) = m (sk sid)" "\<And>u. m' (uk u) = m (uk u)"
  shows "sess_ok ttl m'"
  using assms by (simp add: sess_ok_defs)

context redis_service
begin

lemma hgetall_Nil: "sess_kinds R s \<Longrightarrow> r_hgetall R s (sk sid) = [] \<longleftrightarrow> hash_at R s (sk sid) = Map.empty"
  using hgetall_law [of s "sk sid"] by (auto simp: sess_kinds_def)

lemma kv_create:
  assumes "sess_kinds R s" "0 < ttl"
  shows "kv R (snd (create R ttl sid jti now u ip ua s)) =
    (kv R s)(sk sid \<mapsto> (RHash (hash_at R s (sk sid) ++ map_of (sess_mapping u jti now ip ua)), Some ttl),
             uk u \<mapsto> (RSet (insert sid (set_at R s (uk u))), Some ttl))"
proof -
  let ?s1 = "r_hset R (sk sid) (sess_mapping u jti now ip ua) s"
  let ?s2 = "r_expire R (sk sid) ttl ?s1"
  have 1: "kv R ?s1 = (kv R s)(sk sid \<mapsto>
      (RHash (hash_at R s (sk sid) ++ map_of (sess_mapping u jti now ip ua)), ttl_of R s (sk sid)))"
    by (rule hset_law) (use assms in \<open>simp add: sess_kinds_def\<close>)
  have 2: "kv R ?s2 = (kv R s)(sk sid \<mapsto>
      (RHash (hash_at R s (sk sid) ++ map_of (sess_mapping u jti now ip ua)), Some ttl))"
    using assms(2) by (simp add: expire_law 1)
  have k: "is_set_key R ?s2 (uk u)" "set_at R ?s2 (uk u) = set_at R s (uk u)"
    using assms(1) by (simp_all add: sess_kinds_def key_kind_defs view_defs 2)
  show ?thesis
    using assms(2) by (simp add: create_def Let_def expire_law sadd_law [OF k(1)] 2 k(2))
qed

lemma rotate_cases:
  assumes "sess_kinds R s" "0 < ttl"
  obtains (absent) "rotate R ttl nj now sid u s = (None, s)" "\<not> (live R s sid \<and> owner R s sid = Some u)"
  | (rotated) s' where "rotate R ttl nj now sid u s = (Some nj, s')" "live R s sid"
      "dec (owner R s sid) = u"
      "kv R s' = (case kv R s (uk u) of None \<Rightarrow> id | Some (v, _) \<Rightarrow> (\<lambda>m. m(uk u \<mapsto> (v, Some ttl))))
         ((kv R s)(sk sid \<mapsto> (RHash ((hash_at R s (sk sid))(''jti'' \<mapsto> nj, ''last_used'' \<mapsto> now)), Some ttl)))"
proof -
  have h: "map_of (r_hgetall R s (sk sid)) = hash_at R s (sk sid)"
    using hgetall_law assms(1) by (simp add: sess_kinds_def)
  show thesis
  proof (cases "r_hgetall R s (sk sid) = [] \<or> dec (hash_at R s (sk sid) ''uid'') \<noteq> u")
    case True
    then have "rotate R ttl nj now sid u s = (None, s)" by (simp add: rotate_def h)
    moreover have "\<not> (live R s sid \<and> owner R s sid = Some u)"
      using True hgetall_Nil [OF assms(1)] by (auto simp: owner_def dec_def)
    ultimately show ?thesis by (rule absent)
  next
    case False
    let ?s1 = "r_hset R (sk sid) [(''jti'', nj), (''last_used'', now)] s"
    have "hash_at R s (sk sid) \<noteq> Map.empty" using False hgetall_Nil [OF assms(1)] by simp
    then have l: "live R s sid" by (auto simp: live_def hash_at_def split: option.splits)
    have 1: "kv R ?s1 = (kv R s)(sk sid \<mapsto>
        (RHash ((hash_at R s (sk sid))(''jti'' \<mapsto> nj, ''last_used'' \<mapsto> now)), ttl_of R s (sk sid)))"
      using hset_law [of s "sk sid"] assms(1) by (simp add: sess_kinds_def fun_upd_twist)
    show ?thesis
      by (rule rotated [of "r_expire R (uk u) ttl (r_expire R (sk sid) ttl ?s1)"])
         (use False l assms(2) in \<open>auto simp: rotate_def rotate_write_def h Let_def owner_def expire_law 1 fun_eq_iff
             split: option.splits\<close>)
  qed
qed

lemma kv_del_fold:
  "kv R (fold (\<lambda>sid s. snd (r_del R (sk sid) s)) sids s) =
   (\<lambda>k. if k \<in> sk ` set sids then None else kv R s k)"
  by (induction sids arbitrary: s) (auto simp: kv_del fun_eq_iff)

lemma list_sids_set:
  assumes "sess_kinds R s"
  shows "set (list_sids R u s) = set_at R s (uk u)" "distinct (list_sids R u s)"
  using smembers_law assms by (auto simp: list_sids_def sess_kinds_def)

lemma kv_revoke_all:
  assumes "sess_kinds R s"
  shows "kv R (snd (revoke_all R u s)) =
    (\<lambda>k. if k \<in> sk ` set_at R s (uk u) \<or> (k = uk u \<and> set_at R s (uk u) \<noteq> {}) then None else kv R s k)"
  using list_sids_set [OF assms, of u]
  by (auto simp: revoke_all_def Let_def kv_del kv_del_fold fun_eq_iff)

lemma kv_revoke:
  assumes "sess_inv R ttl s" "live R s sid" "sid \<noteq> []" "owner R s sid = Some u"
  shows "fst (revoke R sid s) = 1 \<and> kv R (snd (revoke R sid s)) =
    (let m = set_at R s (uk u) - {sid}; f = (kv R s)(sk sid := None)
     in if m = {} then f(uk u := None) else f(uk u \<mapsto> (RSet m, ttl_of R s (uk u))))"
proof -
  have k: "sess_kinds R s" using assms(1) by (rule sess_inv_kinds)
  have "u \<noteq> []" using sess_inv_live [OF assms(1,2)] assms(4) by (metis option.inject)
  moreover have "r_hget R s (sk sid) ''uid'' = Some u"
    using assms(4) hgetall_law k by (simp add: r_hget_def owner_def sess_kinds_def)
  moreover have "is_set_key R (snd (r_del R (sk sid) s)) (uk u)"
    "set_at R (snd (r_del R (sk sid) s)) (uk u) = set_at R s (uk u)"
    "ttl_of R (snd (r_del R (sk sid) s)) (uk u) = ttl_of R s (uk u)"
    using k by (simp_all add: sess_kinds_def key_kind_defs view_defs kv_del ttl_of_def)
  ultimately show ?thesis
    using assms(3) by (simp add: revoke_def Let_def dec_def srem_law kv_del)
qed

lemma revoke_dead:
  assumes "sess_kinds R s" "\<not> live R s sid \<or> sid = []"
  shows "revoke R sid s = (0, s)"
proof (cases "sid = []")
  case True
  then show ?thesis by (simp add: revoke_def)
next
  case False
  with assms(2) have "hash_at R s (sk sid) = Map.empty"
    by (auto simp: live_def view_defs split: option.splits)
  with assms(1) have "r_hget R s (sk sid) ''uid'' = None"
    using hgetall_law [of s "sk sid"] by (simp add: r_hget_def sess_kinds_def)
  then show ?thesis by (simp add: revoke_def Let_def dec_def)
qed

lemma drop_member:
  assumes inv: "sess_inv R ttl s" and mem: "sid \<in> set_at R s (uk u)"
  defines "s' \<equiv> r_srem R (uk u) sid (snd (r_del R (sk sid) s))"
  shows "sess_inv R ttl s'" "set_at R s' (uk u) = set_at R s (uk u) - {sid}"
    "kv R s' (sk x) = (if x = sid then None else kv R s (sk x))"
    "u' \<noteq> u \<Longrightarrow> kv R s' (uk u') = kv R s (uk u')"
proof -
  let ?f = "(kv R s)(sk sid := None)"
  have k: "is_set_key R (snd (r_del R (sk sid) s)) (uk u)"
    "set_at R (snd (r_del R (sk sid) s)) (uk u) = set_at R s (uk u)"
    "ttl_of R (snd (r_del R (sk sid) s)) (uk u) = ttl_of R s (uk u)"
    using sess_inv_kinds [OF inv]
    by (simp_all add: sess_kinds_def key_kind_defs view_defs kv_del ttl_of_def)
  let ?ms = "set_at R s (uk u)"
  have kv': "kv R s' = ?f(uk u := (if ?ms - {sid} = {} then None
      else Some (RSet (?ms - {sid}), ttl_of R s (uk u))))"
    by (simp add: s'_def srem_law [OF k(1)] k(2,3) kv_del Let_def)
  from mem obtain t where t: "kv R s (uk u) = Some (RSet ?ms, t)" "ttl_of R s (uk u) = t"
    by (auto simp: view_defs ttl_of_def split: option.splits rval.splits)
  have "sess_ok ttl ?f"
    using sess_ok_drop [of ttl "kv R s" "{sid}"] inv by (simp add: sess_inv_def fun_upd_def)
  then have "sess_ok ttl (?f(uk u := (if ?ms - {sid} = {} then None else Some (RSet (?ms - {sid}), t))))"
    by (rule sess_ok_shrink) (use t in auto)
  then show "sess_inv R ttl s'" unfolding sess_inv_def kv' t(2) .
  show "set_at R s' (uk u) = ?ms - {sid}" unfolding set_at_def [of R s'] kv' by simp
  show "kv R s' (sk x) = (if x = sid then None else kv R s (sk x))" by (simp add: kv')
  show "u' \<noteq> u \<Longrightarrow> kv R s' (uk u') = kv R s (uk u')" by (simp add: kv')
qed

lemma inv_create:
  assumes inv: "sess_inv R ttl s" and "0 < ttl" "u \<noteq> []"
    and fresh: "\<not> live R s sid" "\<And>u'. sid \<notin> set_at R s (uk u')"
  shows "sess_inv R ttl (snd (create R ttl sid jti now u ip ua s))"
proof -
  have k: "sess_kinds R s" using inv by (rule sess_inv_kinds)
  have "kv R s (sk sid) = None" using fresh(1) by (simp only: live_def not_not)
  then have "hash_at R s (sk sid) = Map.empty" by (simp add: hash_at_def)
  then show ?thesis
    unfolding sess_inv_def kv_create [OF k assms(2)]
  proof (intro sess_ok_write, goal_cases)
    case 5
    then show ?case by (auto simp: view_defs)
  next
    case (6 x v t)
    then have x: "x \<in> set_at R s (uk u)" "live R s x" by (auto simp: live_def)
    obtain h u0 n ms n' where "kv R s (sk x) = Some (RHash h, Some n)" "h ''uid'' = Some u0"
      "owner R s x = Some u0" by (rule sess_inv_live [OF inv x(2)])
    with 6 sess_inv_index [OF inv x] show ?case by auto
  next
    case (7 u' ms t)
    with fresh(2) [of u'] show ?case by (auto simp: view_defs)
  qed (use assms in \<open>auto simp: sess_inv_def sess_mapping_def\<close>)
qed

lemma inv_rotate:
  assumes inv: "sess_inv R ttl s" and "0 < ttl"
  shows "sess_inv R ttl (snd (rotate R ttl nj now sid u s))"
proof (rule rotate_cases [OF sess_inv_kinds [OF inv] assms(2), of nj now sid u], goal_cases)
  case 1
  with inv show ?thesis by simp
next
  case rotated: (2 s')
  obtain h u0 n ms n' where x: "kv R s (sk sid) = Some (RHash h, Some n)" "h ''uid'' = Some u0"
    "u0 \<noteq> []" "kv R s (uk u0) = Some (RSet ms, Some n')" "sid \<in> ms" "owner R s sid = Some u0"
    by (rule sess_inv_live [OF inv rotated(2)])
  have u: "u0 = u" using rotated(3) x(6) by (simp add: dec_def)
  have "kv R s' = (kv R s)(sk sid \<mapsto> (RHash (h(''jti'' \<mapsto> nj, ''last_used'' \<mapsto> now)), Some ttl),
      uk u \<mapsto> (RSet ms, Some ttl))"
    using rotated(4) x u by (simp add: hash_at_def)
  moreover have "sess_ok ttl ((kv R s)(sk sid \<mapsto> (RHash (h(''jti'' \<mapsto> nj, ''last_used'' \<mapsto> now)), Some ttl),
      uk u \<mapsto> (RSet ms, Some ttl)))"
  proof (rule sess_ok_write, goal_cases)
    case (6 y v t)
    have "sess_ok ttl (kv R s)" "kv R s (uk u) = Some (RSet ms, Some n')"
      using inv x(4) u by (simp_all add: sess_inv_def)
    from sess_okD_index [OF this] 6 show ?case by blast
  next
    case (7 u' ms' t)
    then show ?case
      using sess_inv_index [OF inv _ rotated(2), of u'] x(6) u by (auto simp: view_defs)
  qed (use inv x u in \<open>auto simp: sess_inv_def\<close>)
  ultimately show ?thesis using rotated(1) by (simp add: sess_inv_def)
qed

lemma inv_revoke:
  assumes inv: "sess_inv R ttl s"
  shows "sess_inv R ttl (snd (revoke R sid s))"
proof (cases "live R s sid \<and> sid \<noteq> []")
  case True
  obtain h u n ms n' where x: "kv R s (uk u) = Some (RSet ms, Some n')" "sid \<in> ms" "u \<noteq> []"
    "owner R s sid = Some u" using sess_inv_live [OF inv] True by metis
  have "r_hget R s (sk sid) ''uid'' = Some u"
    using x hgetall_law sess_inv_kinds [OF inv] by (simp add: r_hget_def owner_def sess_kinds_def)
  then show ?thesis
    using drop_member(1) [OF inv, of sid u] x True by (simp add: revoke_def dec_def view_defs)
next
  case False
  with inv revoke_dead [OF sess_inv_kinds [OF inv], of sid] show ?thesis by simp
qed

lemma inv_revoke_all:
  assumes inv: "sess_inv R ttl s"
  shows "sess_inv R ttl (snd (revoke_all R u s))"
proof (cases "set_at R s (uk u) = {}")
  case True
  with inv show ?thesis by (simp add: sess_inv_def kv_revoke_all [OF sess_inv_kinds [OF inv]])
next
  case False
  let ?f = "\<lambda>k. if k \<in> sk ` set_at R s (uk u) then None else kv R s k"
  from False obtain t where t: "kv R s (uk u) = Some (RSet (set_at R s (uk u)), t)"
    by (auto simp: view_defs split: option.splits rval.splits)
  have "sess_ok ttl ?f" using sess_ok_drop inv by (simp add: sess_inv_def)
  then have "sess_ok ttl (?f(uk u := (if {} = ({} :: string set) then None else Some (RSet {}, t))))"
    by (rule sess_ok_shrink) (use t in auto)
  then have "sess_ok ttl (?f(uk u := None))" by simp
  moreover have "kv R (snd (revoke_all R u s)) = ?f(uk u := None)"
    using False by (auto simp: kv_revoke_all [OF sess_inv_kinds [OF inv]])
  ultimately show ?thesis by (simp add: sess_inv_def)
qed

lemma drop_members:
  assumes "sess_inv R ttl s" "set xs \<subseteq> set_at R s (uk u)" "distinct xs"
  defines "s' \<equiv> fold (\<lambda>sid s. r_srem R (uk u) sid (snd (r_del R (sk sid) s))) xs s"
  shows "sess_inv R ttl s' \<and> set_at R s' (uk u) = set_at R s (uk u) - set xs \<and>
    (\<forall>x. kv R s' (sk x) = (if x \<in> set xs then None else kv R s (sk x))) \<and>
    (\<forall>u'. u' \<noteq> u \<longrightarrow> kv R s' (uk u') = kv R s (uk u'))"
  unfolding s'_def using assms(1-3)
proof (induction xs arbitrary: s)
  case (Cons y ys)
  let ?s1 = "r_srem R (uk u) y (snd (r_del R (sk y) s))"
  have y: "y \<in> set_at R s (uk u)" using Cons.prems by simp
  note d = drop_member [OF Cons.prems(1) y]
  have "set ys \<subseteq> set_at R ?s1 (uk u)" using Cons.prems d(2) by auto
  from Cons.IH [OF d(1) this] Cons.prems(3) d(2-4) show ?case by auto
qed simp

lemma inv_revoke_others:
  assumes inv: "sess_inv R ttl s"
  shows "sess_inv R ttl (snd (revoke_others R u keep s))"
  using drop_members [OF inv, of "filter (\<lambda>sid. sid \<noteq> keep) (list_sids R u s)" u] inv
    list_sids_set [OF sess_inv_kinds [OF inv], of u]
  by (auto simp: revoke_others_def Let_def)

lemma inv_tick: "sess_inv R ttl s \<Longrightarrow> kv R s' = (\<lambda>k. tick_entry n (kv R s k)) \<Longrightarrow> sess_inv R ttl s'"
  by (simp add: sess_inv_def sess_ok_tick)

lemma inv_cong:
  "sess_inv R ttl s \<Longrightarrow> \<forall>sid. kv R s' (sk sid) = kv R s (sk sid) \<Longrightarrow>
   \<forall>u. kv R s' (uk u) = kv R s (uk u) \<Longrightarrow> sess_inv R ttl s'"
  unfolding sess_inv_def by (rule sess_ok_cong) auto

end

subsection \<open>Histories\<close>

text \<open>
  What happens to the sessions: the operations of the store, time, and writes to other keys
  (cache, limiter, idempotency). A new session has an identifier that was never used.
\<close>

inductive sess_step :: "'r redis \<Rightarrow> nat \<Rightarrow> 'r \<Rightarrow> 'r \<Rightarrow> bool" for R ttl where
  Create: "\<not> live R s sid \<Longrightarrow> (\<forall>u'. sid \<notin> set_at R s (uk u')) \<Longrightarrow> u \<noteq> [] \<Longrightarrow>
     sess_step R ttl s (snd (create R ttl sid jti now u ip ua s))"
| Rotate: "sess_step R ttl s (snd (rotate R ttl nj now sid u s))"
| Revoke: "sess_step R ttl s (snd (revoke R sid s))"
| RevokeAll: "sess_step R ttl s (snd (revoke_all R u s))"
| RevokeOthers: "sess_step R ttl s (snd (revoke_others R u keep s))"
| Tick: "kv R s' = (\<lambda>k. tick_entry n (kv R s k)) \<Longrightarrow> sess_step R ttl s s'"
| Elsewhere: "(\<forall>sid. kv R s' (sk sid) = kv R s (sk sid)) \<Longrightarrow> (\<forall>u. kv R s' (uk u) = kv R s (uk u)) \<Longrightarrow>
     sess_step R ttl s s'"

inductive sess_reach :: "'r redis \<Rightarrow> nat \<Rightarrow> 'r \<Rightarrow> bool" for R ttl where
  Start: "(\<forall>sid. kv R s (sk sid) = None) \<Longrightarrow> (\<forall>u. kv R s (uk u) = None) \<Longrightarrow> sess_reach R ttl s"
| Step: "sess_reach R ttl s \<Longrightarrow> sess_step R ttl s s' \<Longrightarrow> sess_reach R ttl s'"

context redis_service
begin

lemma sess_inv_step: "sess_step R ttl s s' \<Longrightarrow> 0 < ttl \<Longrightarrow> sess_inv R ttl s \<Longrightarrow> sess_inv R ttl s'"
  by (induction rule: sess_step.induct)
     (auto intro: inv_create inv_rotate inv_revoke inv_revoke_all inv_revoke_others inv_tick inv_cong)

lemma inv_reach: "sess_reach R ttl s \<Longrightarrow> 0 < ttl \<Longrightarrow> sess_inv R ttl s"
proof (induction rule: sess_reach.induct)
  case (Start s)
  then show ?case by (simp add: sess_inv_def sess_ok_defs)
qed (rule sess_inv_step)

lemma validate_iff:
  assumes "sess_kinds R s"
  shows "validate R sid j u s \<longleftrightarrow> hash_at R s (sk sid) \<noteq> Map.empty \<and>
    dec (owner R s sid) = u \<and> dec (current_jti R s sid) = j"
  using hgetall_Nil [OF assms] hgetall_law [of s "sk sid"] assms
  by (auto simp: validate_def Let_def owner_def current_jti_def sess_kinds_def)

lemma validate_live: "sess_kinds R s \<Longrightarrow> validate R sid j u s \<Longrightarrow> live R s sid"
  by (auto simp: validate_iff live_def hash_at_def split: option.splits)

lemma index_of_live:
  "sess_inv R ttl s \<Longrightarrow> live R s sid \<Longrightarrow> owner R s sid = Some u \<Longrightarrow> sid \<in> set_at R s (uk u)"
  by (erule (1) sess_inv_live) (auto simp: set_at_def)

lemma kv_rotate_write_dead:
  assumes "sess_kinds R s" "\<not> live R s sid" "0 < ttl"
  shows "kv R (rotate_write R ttl nj now sid u s) (sk sid) =
    Some (RHash [''jti'' \<mapsto> nj, ''last_used'' \<mapsto> now], Some ttl)"
proof -
  have d: "kv R s (sk sid) = None" using assms(2) by (simp only: live_def not_not)
  have "kv R (r_hset R (sk sid) [(''jti'', nj), (''last_used'', now)] s) = (kv R s)(sk sid \<mapsto>
      (RHash [''jti'' \<mapsto> nj, ''last_used'' \<mapsto> now], None))"
    using hset_law [of s "sk sid"] assms(1) d
    by (simp add: sess_kinds_def hash_at_def ttl_of_def fun_upd_twist)
  then show ?thesis
    using assms(3) by (simp add: rotate_write_def Let_def expire_law split: option.splits prod.splits)
qed

end

end
