(* ===== verification/Session_Safety.thy ===== *)
theory Session_Safety
  imports Session_Store
begin

section \<open>What the session store promises\<close>

text \<open>
  The properties of \<^verbatim>\<open>SessionStore\<close> over every history of its operations: the index of a user is
  complete, "log out everywhere" and "log out elsewhere" are complete and touch nobody else, only
  the newest refresh identifier of a session is accepted, and what the gap between the check and
  the write of \<^verbatim>\<open>rotate\<close> lets through.
\<close>

text \<open>The history of the witnesses: two sessions of \<open>u1\<close>, one of \<open>u2\<close>, then five seconds.\<close>

definition demo_sessions :: mem where
  "demo_sessions = snd (create mem_redis 100 ''c'' ''j3'' ''t'' ''u2'' None None
     (snd (create mem_redis 100 ''b'' ''j2'' ''t'' ''u1'' (Some ''1.2.3.4'') None
       (snd (create mem_redis 100 ''a'' ''j1'' ''t'' ''u1'' None None Map.empty)))))"

lemmas session_ops = create_def rotate_def rotate_write_def revoke_all_def revoke_others_def
  list_sids_def validate_def exists_session_def sess_mapping_def dec_def

lemma demo_sessions_reach: "sess_reach mem_redis 100 demo_sessions"
proof -
  let ?a = "snd (create mem_redis 100 ''a'' ''j1'' ''t'' ''u1'' None None Map.empty)"
  let ?b = "snd (create mem_redis 100 ''b'' ''j2'' ''t'' ''u1'' (Some ''1.2.3.4'') None ?a)"
  have "sess_reach mem_redis 100 Map.empty"
    by (rule sess_reach.Start) (simp_all add: mem_defs)
  then have a: "sess_reach mem_redis 100 ?a"
    by (rule sess_reach.Step)
       (rule sess_step.Create, simp_all add: live_def mem_defs view_defs)
  have b: "sess_reach mem_redis 100 ?b"
    by (rule sess_reach.Step [OF a], rule sess_step.Create)
       (auto simp: live_def mem_defs view_defs create_def sk_def uk_def)
  show ?thesis
    unfolding demo_sessions_def
    by (rule sess_reach.Step [OF b], rule sess_step.Create)
       (auto simp: live_def mem_defs view_defs create_def sk_def uk_def)
qed

lemma demo_sessions_kv:
  "owner mem_redis demo_sessions ''a'' = Some ''u1''" "owner mem_redis demo_sessions ''c'' = Some ''u2''"
  "live mem_redis demo_sessions ''a''" "live mem_redis demo_sessions ''b''"
  "owner mem_redis demo_sessions ''b'' = Some ''u1''"
  by (simp_all add: demo_sessions_def live_def owner_def session_ops mem_defs view_defs sk_def uk_def)



lemma revoke_all_kills:
  assumes "redis_service R" "0 < ttl" "sess_reach R ttl s" "owner R s sid = Some u'"
  shows "fst (revoke_all R u s) = length (list_sids R u s) \<and>
    list_sids R u (snd (revoke_all R u s)) = [] \<and>
    (u' = u \<longrightarrow> \<not> exists_session R sid (snd (revoke_all R u s)) \<and>
       \<not> validate R sid j u (snd (revoke_all R u s))) \<and>
    (u' \<noteq> u \<longrightarrow> validate R sid j u' (snd (revoke_all R u s)) = validate R sid j u' s)"
proof -
  let ?s' = "snd (revoke_all R u s)"
  have inv: "sess_inv R ttl s" by (rule redis_service.inv_reach [OF assms(1,3,2)])
  have inv': "sess_inv R ttl ?s'" by (rule redis_service.inv_revoke_all [OF assms(1) inv])
  note k = sess_inv_kinds [OF inv] and k' = sess_inv_kinds [OF inv']
  note kv = redis_service.kv_revoke_all [OF assms(1) k, of u]
  have l: "live R s sid" using assms(4) by (auto simp: owner_def live_def hash_at_def split: option.splits)
  have mine: "sid \<in> set_at R s (uk u')"
    by (rule redis_service.index_of_live [OF assms(1) inv l assms(4)])
  have "set_at R ?s' (uk u) = {}" by (auto simp: set_at_def [of R ?s'] kv) (simp add: set_at_def)
  then have 1: "list_sids R u ?s' = []"
    using redis_service.list_sids_set(1) [OF assms(1) k', of u] by simp
  have 2: "\<not> live R ?s' sid" if "u' = u" using mine that by (auto simp: live_def kv)
  have "kv R ?s' (sk sid) = kv R s (sk sid)" if "u' \<noteq> u"
    using sess_inv_index [OF inv _ l, of u] assms(4) that by (auto simp: kv)
  then have 3: "validate R sid j u' ?s' = validate R sid j u' s" if "u' \<noteq> u"
    using that by (simp add: redis_service.validate_iff [OF assms(1)] k k' owner_def current_jti_def hash_at_def)
  have "fst (revoke_all R u s) = length (list_sids R u s)" by (simp add: revoke_all_def Let_def)
  moreover have "\<not> validate R sid j u ?s' \<and> \<not> exists_session R sid ?s'" if "u' = u"
    using redis_service.validate_live [OF assms(1) k'] redis_service.exists_law [OF assms(1)] 2 that
    by (metis exists_session_def live_def)
  ultimately show ?thesis using 1 3 by blast
qed



text \<open>
  Log out elsewhere: after \<^verbatim>\<open>revoke_others(user_id, keep_sid)\<close> the user's sessions are dead except
  the kept one, which stays as it was, as do the sessions of the other users.
\<close>
theorem revoke_others_keeps_current:
  assumes "redis_service R" "0 < ttl" "sess_reach R ttl s" "owner R s sid = Some u'"
  shows "(u' = u \<and> sid \<noteq> keep \<longrightarrow> \<not> exists_session R sid (snd (revoke_others R u keep s))) \<and>
    (u' \<noteq> u \<or> sid = keep \<longrightarrow>
       kv R (snd (revoke_others R u keep s)) (sk sid) = kv R s (sk sid) \<and>
       sid \<in> set (list_sids R u' (snd (revoke_others R u keep s))))"
proof -
  let ?xs = "filter (\<lambda>sid. sid \<noteq> keep) (list_sids R u s)" and ?s' = "snd (revoke_others R u keep s)"
  have inv: "sess_inv R ttl s" by (rule redis_service.inv_reach [OF assms(1,3,2)])
  note l = redis_service.list_sids_set [OF assms(1) sess_inv_kinds [OF inv], of u]
  have s': "?s' = fold (\<lambda>sid s. r_srem R (uk u) sid (snd (r_del R (sk sid) s))) ?xs s"
    by (simp add: revoke_others_def Let_def)
  have *: "sess_inv R ttl ?s' \<and> set_at R ?s' (uk u) = set_at R s (uk u) - set ?xs \<and>
      (\<forall>x. kv R ?s' (sk x) = (if x \<in> set ?xs then None else kv R s (sk x))) \<and>
      (\<forall>u'. u' \<noteq> u \<longrightarrow> kv R ?s' (uk u') = kv R s (uk u'))"
    unfolding s' by (rule redis_service.drop_members [OF assms(1) inv]) (use l in auto)
  have live: "live R s sid" using assms(4) by (auto simp: owner_def live_def hash_at_def split: option.splits)
  have mine: "sid \<in> set_at R s (uk u')"
    by (rule redis_service.index_of_live [OF assms(1) inv live assms(4)])
  have other: "sid \<notin> set_at R s (uk u)" if "u' \<noteq> u"
    using sess_inv_index [OF inv _ live, of u] assms(4) that by auto
  have "set (list_sids R u' ?s') = set_at R ?s' (uk u')"
    using redis_service.list_sids_set(1) [OF assms(1) sess_inv_kinds] * by blast
  moreover have "set_at R ?s' (uk u') = set_at R s (uk u')" if "u' \<noteq> u"
    using * that by (simp add: set_at_def)
  ultimately show ?thesis
    using * mine other l redis_service.exists_law [OF assms(1)]
    by (cases "u' = u") (auto simp: exists_session_def)
qed

theorem revoke_others_keeps_current_witness:
  "\<not> exists_session mem_redis ''a'' (snd (revoke_others mem_redis ''u1'' ''b'' demo_sessions)) \<and>
   ''c'' \<in> set (list_sids mem_redis ''u2'' (snd (revoke_others mem_redis ''u1'' ''b'' demo_sessions)))"
  using revoke_others_keeps_current [OF mem_redis_service _ demo_sessions_reach demo_sessions_kv(1), where u = "''u1''" and keep = "''b''"]
    revoke_others_keeps_current [OF mem_redis_service _ demo_sessions_reach demo_sessions_kv(2), where u = "''u1''" and keep = "''b''"]
  by simp

lemma rotate_newest:
  assumes "redis_service R" "0 < ttl" "sess_reach R ttl s" "owner R s sid = Some u"
  shows "fst (rotate R ttl nj now sid u s) = Some nj \<and>
    (validate R sid j u (snd (rotate R ttl nj now sid u s)) \<longleftrightarrow> j = nj) \<and>
    owner R (snd (rotate R ttl nj now sid u s)) sid = Some u \<and>
    ttl_of R (snd (rotate R ttl nj now sid u s)) (sk sid) = Some ttl \<and>
    (u' \<noteq> u \<longrightarrow> rotate R ttl nj now sid u' s = (None, s))"
proof -
  have inv: "sess_inv R ttl s" by (rule redis_service.inv_reach [OF assms(1,3,2)])
  have k': "sess_kinds R (snd (rotate R ttl nj now sid u s))"
    by (rule sess_inv_kinds [OF redis_service.inv_rotate [OF assms(1) inv assms(2)]])
  have live: "live R s sid" using assms(4) by (auto simp: owner_def live_def hash_at_def split: option.splits)
  have "rotate R ttl nj now sid u' s = (None, s)" if "u' \<noteq> u"
    by (rule redis_service.rotate_cases [OF assms(1) sess_inv_kinds [OF inv] assms(2), of nj now sid u'])
       (use assms(4) that in \<open>auto simp: dec_def\<close>)
  moreover have "fst (rotate R ttl nj now sid u s) = Some nj \<and>
      kv R (snd (rotate R ttl nj now sid u s)) (sk sid) =
        Some (RHash ((hash_at R s (sk sid))(''jti'' \<mapsto> nj, ''last_used'' \<mapsto> now)), Some ttl)"
    by (rule redis_service.rotate_cases [OF assms(1) sess_inv_kinds [OF inv] assms(2), of nj now sid u])
       (use live assms(4) in \<open>auto split: option.splits prod.splits\<close>)
  ultimately show ?thesis
    using assms(4) redis_service.validate_iff [OF assms(1) k', of sid j u]
    by (auto simp: owner_def current_jti_def hash_at_def ttl_of_def dec_def fun_eq_iff)
qed

text \<open>
  Rotation of a live session of \<open>u\<close> succeeds, keeps the owner and renews the time to live; after
  it the session accepts exactly one refresh identifier, the new one: any older one (the presented
  one, or one from before) is refused. For another user's identity it answers \<^verbatim>\<open>None\<close> and changes nothing.
\<close>
theorem rotate_accepts_only_newest:
  assumes "redis_service R" "0 < ttl" "sess_reach R ttl s" "owner R s sid = Some u"
  shows "fst (rotate R ttl nj now sid u s) = Some nj \<and>
    (validate R sid j u (snd (rotate R ttl nj now sid u s)) \<longleftrightarrow> j = nj) \<and>
    owner R (snd (rotate R ttl nj now sid u s)) sid = Some u \<and>
    ttl_of R (snd (rotate R ttl nj now sid u s)) (sk sid) = Some ttl \<and>
    (u' \<noteq> u \<longrightarrow> rotate R ttl nj now sid u' s = (None, s))"
  by (rule rotate_newest [OF assms])

theorem rotate_accepts_only_newest_witness:
  "validate mem_redis ''a'' ''j9'' ''u1'' (snd (rotate mem_redis 100 ''j9'' ''t2'' ''a'' ''u1'' demo_sessions)) \<and>
   \<not> validate mem_redis ''a'' ''j1'' ''u1'' (snd (rotate mem_redis 100 ''j9'' ''t2'' ''a'' ''u1'' demo_sessions))"
  using rotate_accepts_only_newest [OF mem_redis_service _ demo_sessions_reach demo_sessions_kv(1), where nj = "''j9''" and now = "''t2''" and j = "''j9''"]
    rotate_accepts_only_newest [OF mem_redis_service _ demo_sessions_reach demo_sessions_kv(1), where nj = "''j9''" and now = "''t2''" and j = "''j1''"]
  by simp

text \<open>
  The pipeline of \<^verbatim>\<open>rotate\<close> is not guarded: when "log out everywhere" runs between the check of
  \<^verbatim>\<open>rotate\<close> and its pipeline, the write brings the key of the revoked session back, so
  \<^verbatim>\<open>exists(sid)\<close>, the test behind \<^verbatim>\<open>AUTH_VALIDATE_SESSION\<close>, is true again for a full time to live,
  though no refresh token of it validates and the index does not list it, so that a second "log out
  everywhere" does not remove it.
\<close>
theorem rotate_revives_revoked_session:
  assumes "redis_service R" "0 < ttl" "sess_reach R ttl s" "owner R s sid = Some u"
  shows "exists_session R sid (rotate_write R ttl nj now sid u (snd (revoke_all R u s))) \<and>
    \<not> validate R sid j u (rotate_write R ttl nj now sid u (snd (revoke_all R u s))) \<and>
    exists_session R sid (snd (revoke_all R u (rotate_write R ttl nj now sid u (snd (revoke_all R u s)))))"
proof -
  let ?s1 = "snd (revoke_all R u s)"
  let ?s2 = "rotate_write R ttl nj now sid u ?s1"
  have inv: "sess_inv R ttl s" by (rule redis_service.inv_reach [OF assms(1,3,2)])
  have inv1: "sess_inv R ttl ?s1" by (rule redis_service.inv_revoke_all [OF assms(1) inv])
  note k1 = sess_inv_kinds [OF inv1]
  note kv = redis_service.kv_revoke_all [OF assms(1) sess_inv_kinds [OF inv], of u]
  have live: "live R s sid" using assms(4) by (auto simp: owner_def live_def hash_at_def split: option.splits)
  have mine: "sid \<in> set_at R s (uk u)"
    by (rule redis_service.index_of_live [OF assms(1) inv live assms(4)])
  have u: "u \<noteq> []" using sess_inv_live [OF inv live] assms(4) by (metis option.inject)
  have dead: "\<not> live R ?s1 sid" "kv R ?s1 (uk u) = None" using mine by (auto simp: live_def kv)
  have 2: "kv R ?s2 (sk sid) = Some (RHash [''jti'' \<mapsto> nj, ''last_used'' \<mapsto> now], Some ttl)"
    by (rule redis_service.kv_rotate_write_dead [OF assms(1) k1 dead(1) assms(2)])
  have h: "is_hash_key R ?s2 (sk sid)" using 2 by (simp add: is_hash_key_def)
  have "map_of (r_hgetall R ?s2 (sk sid)) ''uid'' = None"
    using redis_service.hgetall_law [OF assms(1) h] 2 by (simp add: hash_at_def)
  then have v: "\<not> validate R sid j u ?s2" using u by (simp add: validate_def Let_def dec_def)
  have "kv R ?s2 (uk u) = None"
    using k1 dead assms(2)
    by (auto simp: rotate_write_def Let_def redis_service.expire_law [OF assms(1)]
        redis_service.hset_law [OF assms(1)] sess_kinds_def split: option.splits)
  then have "set (r_smembers R ?s2 (uk u)) = {}"
    using redis_service.smembers_law [OF assms(1), of ?s2 "uk u"] by (simp add: is_set_key_def set_at_def)
  then have "snd (revoke_all R u ?s2) = ?s2" by (simp add: revoke_all_def list_sids_def)
  with 2 v redis_service.exists_law [OF assms(1)] show ?thesis by (simp add: exists_session_def)
qed

theorem rotate_revives_revoked_session_witness:
  "exists_session mem_redis ''a''
     (rotate_write mem_redis 100 ''j9'' ''t'' ''a'' ''u1'' (snd (revoke_all mem_redis ''u1'' demo_sessions)))"
  using rotate_revives_revoked_session [OF mem_redis_service _ demo_sessions_reach demo_sessions_kv(1)] by simp

end
