(* ===== verification/Jwt.thy ===== *)
theory Jwt
  imports Config Roles
begin

section \<open>Tokens, passwords, cookies\<close>

text \<open>
  \<^verbatim>\<open>app/security/jwt.py\<close>, \<^verbatim>\<open>app/security/password.py\<close>, \<^verbatim>\<open>app/security/cookies.py\<close>. PyJWT and the argon2
  hasher are parameters. What the code relies on of PyJWT is the locale \<open>jwt_service\<close>: a token that
  was signed with the key decodes to its claims until its expiry, and from then on is reported
  expired. Claims are a record of the fields the code writes; time is in seconds.
\<close>

subsection \<open>PyJWT\<close>

record claims =
  cl_sub :: "string option"
  cl_role :: "string option"
  cl_type :: "string option"
  cl_sid :: "string option"
  cl_jti :: "string option"
  cl_iat :: int
  cl_exp :: "int option"

datatype jwt_error = ExpiredSignatureError | InvalidTokenError

record jwt_lib =
  j_encode :: "claims \<Rightarrow> string \<Rightarrow> string \<Rightarrow> string"
  j_decode :: "int \<Rightarrow> string \<Rightarrow> string \<Rightarrow> string \<Rightarrow> jwt_error + claims"

locale jwt_service =
  fixes J :: jwt_lib
  assumes decode_valid: "cl_exp c = Some e \<Longrightarrow> now < e \<Longrightarrow> cl_iat c \<le> now \<Longrightarrow>
            j_decode J now (j_encode J c key alg) key alg = Inr c"
    and decode_expired: "cl_exp c = Some e \<Longrightarrow> e \<le> now \<Longrightarrow>
            j_decode J now (j_encode J c key alg) key alg = Inl ExpiredSignatureError"

subsection \<open>Tokens\<close>

datatype token_type = ACCESS | REFRESH

fun token_type_value :: "token_type \<Rightarrow> string" where
  "token_type_value ACCESS = ''access''"
| "token_type_value REFRESH = ''refresh''"

record token_payload =
  tp_sub :: string
  tp_type :: token_type
  tp_role :: "role option"
  tp_sid :: "string option"
  tp_jti :: "string option"
  tp_exp :: int

definition encode :: "jwt_lib \<Rightarrow> settings \<Rightarrow> claims \<Rightarrow> string" where
  "encode J c cl = j_encode J cl (jwt_secret_key c) (jwt_algorithm c)"

definition create_access_token :: "jwt_lib \<Rightarrow> settings \<Rightarrow> int \<Rightarrow> string \<Rightarrow> role \<Rightarrow> string \<Rightarrow> string" where
  "create_access_token J c now subject r sid = encode J c
     \<lparr>cl_sub = Some subject, cl_role = Some (role_value r), cl_type = Some (token_type_value ACCESS),
      cl_sid = Some sid, cl_jti = None, cl_iat = now,
      cl_exp = Some (now + access_token_expire_minutes c * 60)\<rparr>"

definition create_refresh_token :: "jwt_lib \<Rightarrow> settings \<Rightarrow> int \<Rightarrow> string \<Rightarrow> string \<Rightarrow> string \<Rightarrow> string" where
  "create_refresh_token J c now subject sid jti = encode J c
     \<lparr>cl_sub = Some subject, cl_role = None, cl_type = Some (token_type_value REFRESH),
      cl_sid = Some sid, cl_jti = Some jti, cl_iat = now,
      cl_exp = Some (now + refresh_token_expire_days c * 86400)\<rparr>"

text \<open>A missing claim read with \<^verbatim>\<open>raw["..."]\<close> is a \<^verbatim>\<open>KeyError\<close>, an unknown role a \<^verbatim>\<open>ValueError\<close>.\<close>

definition decode_token :: "jwt_lib \<Rightarrow> settings \<Rightarrow> int \<Rightarrow> string \<Rightarrow> token_type \<Rightarrow> exn + token_payload" where
  "decode_token J c now token expected =
     (case j_decode J now token (jwt_secret_key c) (jwt_algorithm c) of
        Inl ExpiredSignatureError \<Rightarrow> Inl (TokenError ''Token expired'')
      | Inl InvalidTokenError \<Rightarrow> Inl (TokenError ''Invalid token'')
      | Inr raw \<Rightarrow>
          if cl_type raw \<noteq> Some (token_type_value expected) then Inl (TokenError ''Wrong token type'')
          else (case cl_sub raw of
             None \<Rightarrow> Inl (OtherError ''KeyError'' ''sub'')
           | Some sub \<Rightarrow>
               (case (if str_truthy (cl_role raw) then map_option Some (role_of (the (cl_role raw))) else Some None) of
                  None \<Rightarrow> Inl (ValueError ''role'')
                | Some r \<Rightarrow>
                    (case cl_exp raw of
                       None \<Rightarrow> Inl (OtherError ''KeyError'' ''exp'')
                     | Some e \<Rightarrow> Inr \<lparr>tp_sub = sub, tp_type = expected, tp_role = r, tp_sid = cl_sid raw,
                         tp_jti = cl_jti raw, tp_exp = e\<rparr>))))"

lemma token_type_value_inj [simp]: "token_type_value a = token_type_value b \<longleftrightarrow> a = b"
  by (cases a; cases b) simp_all

context jwt_service
begin

lemma decode_access:
  assumes "now \<le> t" "t < now + access_token_expire_minutes c * 60"
  shows "decode_token J c t (create_access_token J c now sub r sid) ACCESS = Inr
    \<lparr>tp_sub = sub, tp_type = ACCESS, tp_role = Some r, tp_sid = Some sid, tp_jti = None,
     tp_exp = now + access_token_expire_minutes c * 60\<rparr>"
  using assms decode_valid [of _ _ t "jwt_secret_key c" "jwt_algorithm c"]
  by (cases r) (simp_all add: decode_token_def create_access_token_def encode_def role_of_def)

lemma decode_refresh:
  assumes "now \<le> t" "t < now + refresh_token_expire_days c * 86400"
  shows "decode_token J c t (create_refresh_token J c now sub sid jti) REFRESH = Inr
    \<lparr>tp_sub = sub, tp_type = REFRESH, tp_role = None, tp_sid = Some sid, tp_jti = Some jti,
     tp_exp = now + refresh_token_expire_days c * 86400\<rparr>"
  using assms decode_valid [of _ _ t "jwt_secret_key c" "jwt_algorithm c"]
  by (simp add: decode_token_def create_refresh_token_def encode_def)

lemma decode_wrong_type:
  assumes "ty \<noteq> ACCESS" "now \<le> t"
  shows "\<exists>m. decode_token J c t (create_access_token J c now sub r sid) ty = Inl (TokenError m)"
proof (cases "t < now + access_token_expire_minutes c * 60")
  case True
  then show ?thesis using assms decode_valid [of _ _ t "jwt_secret_key c" "jwt_algorithm c"]
    by (cases ty) (simp_all add: decode_token_def create_access_token_def encode_def)
next
  case False
  then show ?thesis using decode_expired [of _ _ t "jwt_secret_key c" "jwt_algorithm c"]
    by (simp add: decode_token_def create_access_token_def encode_def)
qed

lemma decode_refresh_as_access:
  assumes "now \<le> t"
  shows "\<exists>m. decode_token J c t (create_refresh_token J c now sub sid jti) ACCESS = Inl (TokenError m)"
proof (cases "t < now + refresh_token_expire_days c * 86400")
  case True
  then show ?thesis using assms decode_valid [of _ _ t "jwt_secret_key c" "jwt_algorithm c"]
    by (simp add: decode_token_def create_refresh_token_def encode_def)
next
  case False
  then show ?thesis using decode_expired [of _ _ t "jwt_secret_key c" "jwt_algorithm c"]
    by (simp add: decode_token_def create_refresh_token_def encode_def)
qed

lemma decode_expired_access:
  "now + access_token_expire_minutes c * 60 \<le> t \<Longrightarrow>
   decode_token J c t (create_access_token J c now sub r sid) ACCESS = Inl (TokenError ''Token expired'')"
  using decode_expired [of _ _ t "jwt_secret_key c" "jwt_algorithm c"]
  by (simp add: decode_token_def create_access_token_def encode_def)

end

subsection \<open>A concrete library\<close>

text \<open>
  For the witnesses: a token is the key, the algorithm and the claims, each text preceded by its
  length in unary; a token with another key or algorithm is invalid.
\<close>

definition put_text :: "string \<Rightarrow> string" where
  "put_text s = replicate (length s) CHR ''1'' @ CHR ''0'' # s"

definition get_text :: "string \<Rightarrow> string \<times> string" where
  "get_text t = (let n = length (takeWhile (\<lambda>c. c = CHR ''1'') t); r = drop (Suc n) t in (take n r, drop n r))"

lemma takeWhile_replicate_sep: "takeWhile (\<lambda>c. c = x) (replicate n x @ y # r) = replicate n x" if "x \<noteq> y"
  using that by (induction n) auto

lemma get_put_text [simp]: "get_text (put_text s @ r) = (s, r)"
  by (simp add: get_text_def put_text_def takeWhile_replicate_sep Let_def drop_Suc)

definition put_opt :: "string option \<Rightarrow> string" where
  "put_opt v = (case v of None \<Rightarrow> put_text [] | Some s \<Rightarrow> put_text (CHR ''s'' # s))"

definition get_opt :: "string \<Rightarrow> string option \<times> string" where
  "get_opt t = (let (v, r) = get_text t in (if v = [] then None else Some (tl v), r))"

lemma get_put_opt [simp]: "get_opt (put_opt v @ r) = (v, r)"
  by (cases v) (simp_all add: put_opt_def get_opt_def)

definition int_text :: "int \<Rightarrow> string" where
  "int_text i = (if i < 0 then replicate (nat (- i)) CHR ''m'' else replicate (nat i) CHR ''p'')"

definition text_int :: "string \<Rightarrow> int" where
  "text_int s = (if CHR ''m'' \<in> set s then - int (length s) else int (length s))"

lemma text_int_text [simp]: "text_int (int_text i) = i"
  by (auto simp: text_int_def int_text_def)

definition claims_text :: "claims \<Rightarrow> string" where
  "claims_text c = put_opt (cl_sub c) @ put_opt (cl_role c) @ put_opt (cl_type c) @ put_opt (cl_sid c) @
     put_opt (cl_jti c) @ put_text (int_text (cl_iat c)) @ put_opt (map_option int_text (cl_exp c))"

definition text_claims :: "string \<Rightarrow> claims" where
  "text_claims t = (let (a, t) = get_opt t; (b, t) = get_opt t; (c, t) = get_opt t; (d, t) = get_opt t;
       (e, t) = get_opt t; (f, t) = get_text t; (g, t) = get_opt t
     in \<lparr>cl_sub = a, cl_role = b, cl_type = c, cl_sid = d, cl_jti = e, cl_iat = text_int f,
         cl_exp = map_option text_int g\<rparr>)"

lemma text_claims_text [simp]: "text_claims (claims_text c) = c"
proof -
  have "get_opt (put_opt v) = (v, [])" for v using get_put_opt [of v "[]"] by simp
  then show ?thesis
    by (cases c) (auto simp: text_claims_def claims_text_def option.map_comp comp_def option.map_ident)
qed

definition demo_jwt :: jwt_lib where
  "demo_jwt = \<lparr>j_encode = (\<lambda>c key alg. put_text key @ put_text alg @ claims_text c),
     j_decode = (\<lambda>now t key alg. let (k, t) = get_text t; (a, t) = get_text t; c = text_claims t
       in if k \<noteq> key \<or> a \<noteq> alg then Inl InvalidTokenError
          else if cl_exp c \<noteq> None \<and> the (cl_exp c) \<le> now then Inl ExpiredSignatureError
          else if now < cl_iat c then Inl InvalidTokenError else Inr c)\<rparr>"

lemma demo_jwt_service: "jwt_service demo_jwt"
  by unfold_locales (auto simp: demo_jwt_def Let_def)

interpretation demo_jwt: jwt_service demo_jwt
  by (rule demo_jwt_service)

subsection \<open>Passwords\<close>

record hasher =
  h_hash :: "string \<Rightarrow> string \<Rightarrow> string"
  h_verify :: "string \<Rightarrow> string \<Rightarrow> bool"

text \<open>The salt is the first argument of the hash; \<^verbatim>\<open>verify\<close> accepts a hash of the same password only.\<close>

locale password_hasher =
  fixes H :: hasher
  assumes verify_hash: "h_verify H p (h_hash H salt q) \<longleftrightarrow> p = q"
    and hash_nonempty: "h_hash H salt p \<noteq> []"

definition hash_password :: "hasher \<Rightarrow> string \<Rightarrow> string \<Rightarrow> string" where
  "hash_password H salt plain = h_hash H salt plain"

definition verify_password :: "hasher \<Rightarrow> string \<Rightarrow> string option \<Rightarrow> bool" where
  "verify_password H plain hashed = (if \<not> str_truthy hashed then False else h_verify H plain (the hashed))"

definition demo_hasher :: hasher where
  "demo_hasher = \<lparr>h_hash = (\<lambda>salt p. CHR ''$'' # p), h_verify = (\<lambda>p h. h = CHR ''$'' # p)\<rparr>"

lemma demo_hasher_ok: "password_hasher demo_hasher"
  by unfold_locales (auto simp: demo_hasher_def)

interpretation demo_hasher: password_hasher demo_hasher
  by (rule demo_hasher_ok)

context password_hasher
begin

lemma verify_hashed: "verify_password H p (Some (hash_password H salt q)) \<longleftrightarrow> p = q"
  using verify_hash hash_nonempty by (simp add: verify_password_def hash_password_def)

end

subsection \<open>Cookies\<close>

record token_pair =
  access_token :: string
  refresh_token :: string
  token_type :: string
  expires_in :: int

record cookie =
  ck_name :: string
  ck_value :: string
  ck_max_age :: int
  ck_httponly :: bool
  ck_secure :: bool
  ck_samesite :: string
  ck_path :: string

definition ACCESS_COOKIE :: string where
  "ACCESS_COOKIE = ''access_token''"

definition REFRESH_COOKIE :: string where
  "REFRESH_COOKIE = ''refresh_token''"

definition refresh_path :: "settings \<Rightarrow> string" where
  "refresh_path c = api_v1_prefix c @ ''/auth''"

definition samesite :: "settings \<Rightarrow> string" where
  "samesite c = (let v = lower (auth_cookie_samesite c)
     in if v \<notin> {''lax'', ''strict'', ''none''} then ''lax'' else v)"

text \<open>A response's cookies; setting one replaces the cookie of that name and path.\<close>

definition put_cookie :: "cookie \<Rightarrow> cookie list \<Rightarrow> cookie list" where
  "put_cookie k cs = filter (\<lambda>x. \<not> (ck_name x = ck_name k \<and> ck_path x = ck_path k)) cs @ [k]"

definition set_auth_cookies :: "settings \<Rightarrow> token_pair \<Rightarrow> cookie list \<Rightarrow> cookie list" where
  "set_auth_cookies c pair cs =
     (let same = samesite c; secure = auth_cookie_secure c;
          cs = put_cookie \<lparr>ck_name = ACCESS_COOKIE, ck_value = access_token pair,
             ck_max_age = access_token_expire_minutes c * 60, ck_httponly = True, ck_secure = secure,
             ck_samesite = same, ck_path = ''/''\<rparr> cs
      in put_cookie \<lparr>ck_name = REFRESH_COOKIE, ck_value = refresh_token pair,
             ck_max_age = refresh_token_expire_days c * 86400, ck_httponly = True, ck_secure = secure,
             ck_samesite = same, ck_path = refresh_path c\<rparr> cs)"

text \<open>Deleting a cookie sets it empty with no time left.\<close>

definition clear_auth_cookies :: "settings \<Rightarrow> cookie list \<Rightarrow> cookie list" where
  "clear_auth_cookies c cs =
     (let same = samesite c; secure = auth_cookie_secure c;
          cs = put_cookie \<lparr>ck_name = ACCESS_COOKIE, ck_value = [], ck_max_age = 0, ck_httponly = True,
             ck_secure = secure, ck_samesite = same, ck_path = ''/''\<rparr> cs
      in put_cookie \<lparr>ck_name = REFRESH_COOKIE, ck_value = [], ck_max_age = 0, ck_httponly = True,
             ck_secure = secure, ck_samesite = same, ck_path = refresh_path c\<rparr> cs)"

text \<open>
  The token cookies cannot be read by scripts and are cleared where they were set: every cookie
  that \<^verbatim>\<open>set_auth_cookies\<close> or \<^verbatim>\<open>clear_auth_cookies\<close> leaves is HttpOnly with a legal \<^verbatim>\<open>SameSite\<close>, clearing
  after setting leaves no token in the browser, and the refresh token goes to the auth paths only.
\<close>

theorem auth_cookies_protected:
  "list_all (\<lambda>k. ck_httponly k \<and> ck_secure k = auth_cookie_secure c \<and>
      ck_samesite k \<in> {''lax'', ''strict'', ''none''}) (set_auth_cookies c pair [] @ clear_auth_cookies c []) \<and>
   list_all (\<lambda>k. ck_value k = [] \<and> ck_max_age k = 0) (clear_auth_cookies c (set_auth_cookies c pair [])) \<and>
   map ck_path (filter (\<lambda>k. ck_name k = REFRESH_COOKIE) (set_auth_cookies c pair [])) = [api_v1_prefix c @ ''/auth'']"
proof -
  have "samesite c \<in> {''lax'', ''strict'', ''none''}" by (simp add: samesite_def Let_def)
  then show ?thesis
    by (auto simp: set_auth_cookies_def clear_auth_cookies_def put_cookie_def Let_def refresh_path_def
        ACCESS_COOKIE_def REFRESH_COOKIE_def)
qed

end
