(* ===== verification/Auth_Service.thy ===== *)
theory Auth_Service
  imports User_Service Session_Safety Jwt
begin

section \<open>Authentication\<close>

text \<open>
  \<^verbatim>\<open>app/services/auth.py\<close> (register, login, refresh with rotation and reuse detection, password
  change, logout) and the authentication part of \<^verbatim>\<open>app/api/deps.py\<close> (\<^verbatim>\<open>get_current_user\<close>,
  \<^verbatim>\<open>require_roles\<close>, \<^verbatim>\<open>require_at_least\<close>). The state is the services' (\<open>'r svc\<close>, Redis holds the sessions).
  Fresh identifiers, the salt and the clock (\<open>now\<close> in seconds, \<open>iso_now\<close> its ISO text) are arguments.
\<close>

record auth_env =
  ae_engine :: engine
  ae_jwt :: jwt_lib
  ae_hasher :: hasher
  ae_settings :: settings

subsection \<open>Service\<close>

record register_request =
  rg_email :: string
  rg_password :: string
  rg_full_name :: string
  rg_role :: role

record login_request =
  lg_email :: string
  lg_password :: string

definition register_tx :: "engine \<Rightarrow> uuid \<Rightarrow> timestamp \<Rightarrow> string \<Rightarrow> register_request \<Rightarrow> user_read tx" where
  "register_tx E new_id now hashed data =
     tx_bind (get_by_email E (rg_email data)) (\<lambda>existing.
       if existing \<noteq> None then tx_fail (ConflictError ''User with this email already exists'')
       else tx_bind (repo_add E User (new_user new_id now (rg_email data) (rg_full_name data) (Some hashed) (rg_role data)))
         (\<lambda>user. tx_bind (commit E) (\<lambda>_. tx_return (user_read_of user))))"

definition register :: "auth_env \<Rightarrow> string \<Rightarrow> uuid \<Rightarrow> timestamp \<Rightarrow> register_request \<Rightarrow> ('r, user_read) svc_op" where
  "register A salt new_id now data =
     (let hashed = hash_password (ae_hasher A) salt (rg_password data)
      in in_tx (register_tx (ae_engine A) new_id now hashed data) sv_return)"

definition pair :: "auth_env \<Rightarrow> int \<Rightarrow> string \<Rightarrow> role \<Rightarrow> string \<Rightarrow> string \<Rightarrow> token_pair" where
  "pair A now uid r sid jti =
     \<lparr>access_token = create_access_token (ae_jwt A) (ae_settings A) now uid r sid,
      refresh_token = create_refresh_token (ae_jwt A) (ae_settings A) now uid sid jti,
      token_type = ''bearer'', expires_in = access_token_expire_minutes (ae_settings A) * 60\<rparr>"

definition session_ttl :: "auth_env \<Rightarrow> nat" where
  "session_ttl A = sess_ttl (ae_settings A)"

definition snapshot_tx :: "engine \<Rightarrow> string \<Rightarrow> user_row option tx" where
  "snapshot_tx E email = get_by_email E email"

definition login ::
  "auth_env \<Rightarrow> 'r redis \<Rightarrow> string \<Rightarrow> string \<Rightarrow> int \<Rightarrow> string \<Rightarrow> login_request \<Rightarrow> string option \<Rightarrow> string option \<Rightarrow>
   ('r, token_pair) svc_op" where
  "login A R sid jti now iso_now data ip ua = in_tx (snapshot_tx (ae_engine A) (lg_email data)) (\<lambda>snapshot v.
     case snapshot of
       None \<Rightarrow> (Inl (UnauthorizedError ''Invalid credentials''), v)
     | Some u \<Rightarrow>
         if \<not> verify_password (ae_hasher A) (lg_password data) (u_hashed_password u)
         then (Inl (UnauthorizedError ''Invalid credentials''), v)
         else if \<not> u_is_active u then (Inl (UnauthorizedError ''User is inactive''), v)
         else (case create R (session_ttl A) sid jti iso_now (u_id u) ip ua (sv_redis v) of
             ((sid, jti), s) \<Rightarrow> (Inr (pair A now (u_id u) (u_role u) sid jti), v\<lparr>sv_redis := s\<rparr>)))"

record session_info = session_meta +
  si_current :: bool

definition list_user_sessions :: "'r redis \<Rightarrow> string \<Rightarrow> string option \<Rightarrow> 'r svc \<Rightarrow> session_info list" where
  "list_user_sessions R user_id current_sid v =
     map (\<lambda>s. session_meta.extend s \<lparr>si_current = (Some (sm_sid s) = current_sid)\<rparr>)
       (list_sessions R user_id (sv_redis v))"

definition revoke_in :: "'r redis \<Rightarrow> string \<Rightarrow> 'r svc \<Rightarrow> 'r svc" where
  "revoke_in R sid v = v\<lparr>sv_redis := snd (revoke R sid (sv_redis v))\<rparr>"

text \<open>
  The two halves of \<^verbatim>\<open>refresh\<close>: up to the validation of the token's session, and from the rotation on.
  Between them other requests run.
\<close>

definition refresh_validated :: "auth_env \<Rightarrow> 'r redis \<Rightarrow> int \<Rightarrow> string \<Rightarrow> ('r, string \<times> string) svc_op" where
  "refresh_validated A R now token v =
     (case decode_token (ae_jwt A) (ae_settings A) now token REFRESH of
        Inl (TokenError m) \<Rightarrow> (Inl (UnauthorizedError m), v)
      | Inl e \<Rightarrow> (Inl e, v)
      | Inr p \<Rightarrow>
          if \<not> str_truthy (tp_sid p) \<or> \<not> str_truthy (tp_jti p) \<or>
             \<not> validate R (the (tp_sid p)) (the (tp_jti p)) (tp_sub p) (sv_redis v)
          then (Inl (UnauthorizedError ''Refresh token revoked or already used''),
                if str_truthy (tp_sid p) then revoke_in R (the (tp_sid p)) v else v)
          else (Inr (the (tp_sid p), tp_sub p), v))"

definition user_tx :: "engine \<Rightarrow> string \<Rightarrow> user_row option tx" where
  "user_tx E sub = (case py_uuid sub of None \<Rightarrow> tx_fail (ValueError ''badly formed hexadecimal UUID string'')
     | Some uid \<Rightarrow> repo_get E User uid)"

definition refresh_rotated :: "auth_env \<Rightarrow> 'r redis \<Rightarrow> string \<Rightarrow> int \<Rightarrow> string \<Rightarrow> string \<times> string \<Rightarrow> ('r, token_pair) svc_op" where
  "refresh_rotated A R new_jti now iso_now sp v =
     (let (sid, sub) = sp
      in case rotate R (session_ttl A) new_jti iso_now sid sub (sv_redis v) of
        (None, s) \<Rightarrow> (Inl (UnauthorizedError ''Session no longer exists''), v\<lparr>sv_redis := s\<rparr>)
      | (Some jti, s) \<Rightarrow> in_tx (user_tx (ae_engine A) sub) (\<lambda>user v.
          case user of
            None \<Rightarrow> (Inl (UnauthorizedError ''User not found or inactive''), revoke_in R sid v)
          | Some u \<Rightarrow>
              if \<not> u_is_active u then (Inl (UnauthorizedError ''User not found or inactive''), revoke_in R sid v)
              else (Inr (pair A now (u_id u) (u_role u) sid jti), v)) (v\<lparr>sv_redis := s\<rparr>))"

definition refresh :: "auth_env \<Rightarrow> 'r redis \<Rightarrow> string \<Rightarrow> int \<Rightarrow> string \<Rightarrow> string \<Rightarrow> ('r, token_pair) svc_op" where
  "refresh A R new_jti now iso_now token v = (case refresh_validated A R now token v of
       (Inl e, v) \<Rightarrow> (Inl e, v)
     | (Inr sp, v) \<Rightarrow> refresh_rotated A R new_jti now iso_now sp v)"

definition set_password_tx :: "engine \<Rightarrow> timestamp \<Rightarrow> string \<Rightarrow> string \<Rightarrow> unit tx" where
  "set_password_tx E now sub hashed = tx_bind (user_tx E sub) (\<lambda>found. case found of
       None \<Rightarrow> tx_fail (UnauthorizedError ''User not found'')
     | Some u \<Rightarrow> tx_bind (save_versioned now u (u\<lparr>u_hashed_password := Some hashed\<rparr>)) (\<lambda>_. commit E))"

definition change_password ::
  "auth_env \<Rightarrow> string \<Rightarrow> timestamp \<Rightarrow> string \<Rightarrow> string \<Rightarrow> string \<Rightarrow> ('r, unit) svc_op" where
  "change_password A salt now user_id current_password new_password =
     in_tx (user_tx (ae_engine A) user_id) (\<lambda>user v.
       let current_hash = (case user of None \<Rightarrow> None | Some u \<Rightarrow> u_hashed_password u)
       in if current_hash = None \<or> \<not> verify_password (ae_hasher A) current_password current_hash
          then (Inl (UnauthorizedError ''Current password is incorrect''), v)
          else in_tx (set_password_tx (ae_engine A) now user_id (hash_password (ae_hasher A) salt new_password)) sv_return v)"

definition logout_current :: "'r redis \<Rightarrow> string option \<Rightarrow> 'r svc \<Rightarrow> int \<times> 'r svc" where
  "logout_current R sid v = (if str_truthy sid
     then (case revoke R (the sid) (sv_redis v) of (n, s) \<Rightarrow> (n, v\<lparr>sv_redis := s\<rparr>)) else (0, v))"

definition logout_all :: "'r redis \<Rightarrow> string \<Rightarrow> 'r svc \<Rightarrow> nat \<times> 'r svc" where
  "logout_all R user_id v = (case revoke_all R user_id (sv_redis v) of (n, s) \<Rightarrow> (n, v\<lparr>sv_redis := s\<rparr>))"

definition logout_others :: "'r redis \<Rightarrow> string \<Rightarrow> string option \<Rightarrow> 'r svc \<Rightarrow> nat \<times> 'r svc" where
  "logout_others R user_id keep_sid v = (if \<not> str_truthy keep_sid then logout_all R user_id v
     else (case revoke_others R user_id (the keep_sid) (sv_redis v) of (n, s) \<Rightarrow> (n, v\<lparr>sv_redis := s\<rparr>)))"

subsection \<open>Dependencies\<close>

record current_user =
  cu_id :: uuid
  cu_role :: role
  cu_sid :: "string option"

definition ANONYMOUS :: current_user where
  "ANONYMOUS = \<lparr>cu_id = ''00000000-0000-0000-0000-000000000000'', cu_role = SERVICE, cu_sid = None\<rparr>"

record auth_request =
  rq_access_cookie :: "string option"
  rq_bearer :: "string option"

definition get_current_user :: "auth_env \<Rightarrow> 'r redis \<Rightarrow> int \<Rightarrow> auth_request \<Rightarrow> 'r \<Rightarrow> exn + current_user" where
  "get_current_user A R now req s =
     (if \<not> auth_jwt_enabled (ae_settings A) then Inr ANONYMOUS
      else let token = (if cookie_auth (ae_settings A) then rq_access_cookie req else rq_bearer req)
        in if \<not> str_truthy token then Inl (UnauthorizedError ''Missing access token'')
           else (case decode_token (ae_jwt A) (ae_settings A) now (the token) ACCESS of
              Inl (TokenError m) \<Rightarrow> Inl (UnauthorizedError m)
            | Inl e \<Rightarrow> Inl e
            | Inr p \<Rightarrow>
                if auth_validate_session (ae_settings A) \<and>
                   (\<not> str_truthy (tp_sid p) \<or> \<not> exists_session R (the (tp_sid p)) s)
                then Inl (UnauthorizedError ''Session revoked or expired'')
                else (case py_uuid (tp_sub p) of
                   None \<Rightarrow> Inl (ValueError ''badly formed hexadecimal UUID string'')
                 | Some uid \<Rightarrow> Inr \<lparr>cu_id = uid, cu_role = (case tp_role p of None \<Rightarrow> USER | Some r \<Rightarrow> r),
                     cu_sid = tp_sid p\<rparr>)))"

definition require_roles :: "settings \<Rightarrow> role list \<Rightarrow> current_user \<Rightarrow> exn + current_user" where
  "require_roles c roles user =
     (if \<not> auth_jwt_enabled c then Inr user
      else if cu_role user \<notin> set roles then Inl (ForbiddenError ''Insufficient role'')
      else Inr user)"

definition require_at_least :: "settings \<Rightarrow> role \<Rightarrow> current_user \<Rightarrow> exn + current_user" where
  "require_at_least c minimum user =
     (if \<not> auth_jwt_enabled c then Inr user
      else if \<not> role_at_least (cu_role user) minimum then Inl (ForbiddenError ''Insufficient role level'')
      else Inr user)"

subsection \<open>What the transactions do\<close>

lemma snapshot_runs: "snapshot_tx E email (opened d) = (Inr x, u) \<Longrightarrow>
    committed u = d \<and> x = find (\<lambda>r. u_email r = email) (users d)"
  by (auto simp: snapshot_tx_def get_by_email_def runs table_defs)

lemma uncommitted_auth [keeps]: "uncommitted (snapshot_tx E e)" "uncommitted (user_tx E s)"
  unfolding snapshot_tx_def user_tx_def by (intro keeps)+

lemma user_tx_runs: "user_tx E sub (opened d) = (Inr x, u) \<Longrightarrow>
    committed u = d \<and> (\<exists>uid. py_uuid sub = Some uid \<and> x = row_get u_id (users d) uid)"
  by (auto simp: user_tx_def runs table_defs split: option.splits)

definition with_password :: "timestamp \<Rightarrow> user_row \<Rightarrow> string \<Rightarrow> db \<Rightarrow> db" where
  "with_password now old h d =
     d\<lparr>users := row_put u_id (versioned now old (old\<lparr>u_hashed_password := Some h\<rparr>)) (users d)\<rparr>"

lemma set_password_tx_runs:
  assumes "set_password_tx E now sub h (opened d) = (Inr x, u)"
  shows "\<exists>uid old. py_uuid sub = Some uid \<and> row_get u_id (users d) uid = Some old \<and>
     committed u = with_password now old h d \<and> db_ok (committed u)"
proof -
  from assms obtain uid old u1 where old: "row_get u_id (users d) uid = Some old" "db_ok d" and uid: "py_uuid sub = Some uid"
    and s: "save_versioned now old (old\<lparr>u_hashed_password := Some h\<rparr>) (used User (opened d)) = (Inr (), u1)"
    and c: "commit E u1 = (Inr x, u)"
    by (auto simp: set_password_tx_def user_tx_def runs_bind runs_basic(2) runs_commit table_defs ran_def runs_repos split: option.splits)
  have "committed u = with_password now old h d \<and> db_ok (committed u)"
  proof (cases "old\<lparr>u_hashed_password := Some h\<rparr> = old")
    case True
    have "row_put u_id old (users d) = users d"
      using row_put_same [OF _ old(1)] old(2) by (simp add: db_ok_def db_constraints_def)
    moreover have "u1 = used User (opened d)" using s by (simp add: save_versioned_def True runs_basic)
    ultimately show ?thesis using c by (simp add: with_password_def runs_commit versioned_def True ran_def table_defs)
  next
    case False
    then show ?thesis using s c
      by (auto simp: with_password_def runs_save_versioned runs_commit ran_def table_defs)
  qed
  with old uid show ?thesis by blast
qed

lemma versioned_password:
  "u_id (versioned now old (old\<lparr>u_hashed_password := h\<rparr>)) = u_id old"
  "u_hashed_password (versioned now old (old\<lparr>u_hashed_password := h\<rparr>)) = h"
  "versioned now old (old\<lparr>u_hashed_password := h\<rparr>) \<noteq> old \<Longrightarrow>
     u_updated_at (versioned now old (old\<lparr>u_hashed_password := h\<rparr>)) = now"
proof -
  let ?n = "old\<lparr>u_hashed_password := h\<rparr>"
  have "u_id (versioned now old ?n) = u_id old \<and> u_hashed_password (versioned now old ?n) = h \<and>
    (versioned now old ?n \<noteq> old \<longrightarrow> u_updated_at (versioned now old ?n) = now)"
  proof (cases "?n = old")
    case True
    then have v: "versioned now old ?n = old" unfolding versioned_def by (rule if_P)
    have "u_hashed_password ?n = h" by simp
    then have "u_hashed_password old = h" unfolding True .
    then show ?thesis unfolding v by blast
  next
    case False
    then show ?thesis by (simp only: versioned_def if_False user_row.simps) simp
  qed
  then show "u_id (versioned now old ?n) = u_id old" "u_hashed_password (versioned now old ?n) = h"
    "versioned now old ?n \<noteq> old \<Longrightarrow> u_updated_at (versioned now old ?n) = now" by blast+
qed

end
