(* ===== verification/Ledger.thy ===== *)
theory Ledger
  imports Account_Service Auth_Service
begin

section \<open>Invariants of the services\<close>

text \<open>
  What every operation of the user, account and authentication services keeps: the constraints of
  the schema, the ledger (a balance is the sum of the account's transactions and not negative) and
  the coherence of the user cache (a cached user is the user in the database). The client side of the
  cache interface is the locale \<open>user_cache\<close>.
\<close>

subsection \<open>The ledger\<close>

definition account_sum :: "db \<Rightarrow> uuid \<Rightarrow> int" where
  "account_sum d aid = sum_list (map t_amount (filter (\<lambda>t. t_account_id t = aid) (transactions d)))"

definition ledger_ok :: "db \<Rightarrow> bool" where
  "ledger_ok d \<longleftrightarrow> (\<forall>a \<in> set (accounts d). a_balance a = account_sum d (a_id a) \<and> 0 \<le> a_balance a)"

lemma ledger_ok_cong:
  "ledger_ok d \<Longrightarrow> accounts d' = accounts d \<Longrightarrow> transactions d' = transactions d \<Longrightarrow> ledger_ok d'"
proof -
  assume a: "ledger_ok d" "accounts d' = accounts d" "transactions d' = transactions d"
  then have "account_sum d' = account_sum d" by (simp add: account_sum_def fun_eq_iff)
  with a show ?thesis by (simp only: ledger_ok_def)
qed

lemma account_sum_append [simp]: "account_sum (d\<lparr>transactions := transactions d @ [t]\<rparr>) aid =
    account_sum d aid + (if t_account_id t = aid then t_amount t else 0)"
  by (simp add: account_sum_def)

lemma sum_no_transactions:
  assumes "db_ok d" "aid \<notin> a_id ` set (accounts d)"
  shows "account_sum d aid = 0"
proof -
  have "filter (\<lambda>t. t_account_id t = aid) (transactions d) = []"
    using assms by (auto simp: db_ok_def db_constraints_def list_all_iff filter_empty_conv)
  then show ?thesis by (simp add: account_sum_def)
qed

lemma ledger_new_account:
  assumes "db_ok d" "ledger_ok d" "i \<notin> a_id ` set (accounts d)"
  shows "ledger_ok (d\<lparr>accounts := accounts d @ [\<lparr>a_id = i, a_user_id = u, a_name = n, a_balance = 0\<rparr>]\<rparr>)"
  using assms sum_no_transactions [OF assms(1,3)] by (auto simp: ledger_ok_def account_sum_def)

lemma ledger_moved:
  assumes "db_ok d" "ledger_ok d" "row_get a_id (accounts d) aid = Some acc"
    and "t_account_id t = aid" "0 \<le> a_balance acc + t_amount t"
  shows "ledger_ok (moved_db (acc\<lparr>a_balance := a_balance acc + t_amount t\<rparr>) t links d)"
proof -
  let ?acc = "acc\<lparr>a_balance := a_balance acc + t_amount t\<rparr>"
  have acc: "acc \<in> set (accounts d)" "a_id acc = aid" using row_get_Some [OF assms(3)] by auto
  have s: "account_sum (moved_db ?acc t links d) i = account_sum d i + (if i = aid then t_amount t else 0)" for i
    using assms(4) by (auto simp: moved_db_def account_sum_def)
  have "a_balance a = account_sum (moved_db ?acc t links d) (a_id a) \<and> 0 \<le> a_balance a"
    if "a \<in> set (row_put a_id ?acc (accounts d))" for a
  proof -
    from that consider "a = ?acc" | "a \<in> set (accounts d)" "a_id a \<noteq> aid"
      using acc by (auto simp: row_put_def split: if_splits)
    then show ?thesis
    proof cases
      case 1
      have "a_balance acc = account_sum d aid" using assms(2) acc by (auto simp: ledger_ok_def)
      with 1 assms(5) acc s [of aid] show ?thesis by simp
    next
      case 2
      with assms(2) s [of "a_id a"] show ?thesis by (auto simp: ledger_ok_def)
    qed
  qed
  moreover have "accounts (moved_db ?acc t links d) = row_put a_id ?acc (accounts d)" by (simp add: moved_db_def)
  ultimately show ?thesis unfolding ledger_ok_def by metis
qed

lemma moved_ok:
  assumes "db_ok d" "acc \<in> set (accounts d)" "a_id acc' = a_id acc" "a_user_id acc' = a_user_id acc"
    and "fits_bigint (a_balance acc')" "fits_bigint (t_amount t)" "t_account_id t = a_id acc"
    and "t_id t \<notin> t_id ` set (transactions d)"
  shows "db_ok (moved_db acc' t [] d)"
proof -
  let ?d = "moved_db acc' t [] d"
  have r: "users ?d = users d" "profiles ?d = profiles d" "accounts ?d = row_put a_id acc' (accounts d)"
    "transactions ?d = transactions d @ [t]" "categories ?d = categories d"
    "transaction_categories ?d = transaction_categories d" "outbox_messages ?d = outbox_messages d"
    by (simp_all add: moved_db_def)
  have ids: "a_id ` set (row_put a_id acc' (accounts d)) = a_id ` set (accounts d)"
    by (metis map_key_row_put list.set_map)
  have s: "a \<in> set (row_put a_id acc' (accounts d)) \<Longrightarrow> a = acc' \<or> a \<in> set (accounts d)" for a
    using set_row_put by fastforce
  note c = assms(1) [unfolded db_ok_def db_constraints_def columns_fit_def list_all_iff]
  have "\<forall>a \<in> set (accounts ?d). a_user_id a \<in> u_id ` set (users ?d)" "\<forall>a \<in> set (accounts ?d). fits_bigint (a_balance a)"
    using c s assms(2,4,5) unfolding r by metis+
  moreover have "\<forall>x \<in> set (transactions ?d). t_account_id x \<in> a_id ` set (accounts ?d)"
    "\<forall>x \<in> set (transactions ?d). fits_bigint (t_amount x)"
    using c assms(2,6,7) unfolding r ids by auto
  moreover have "distinct (map t_id (transactions ?d))" using c assms(8) unfolding r by simp
  moreover have "\<forall>(x, y) \<in> set (transaction_categories ?d). x \<in> t_id ` set (transactions ?d) \<and> y \<in> c_id ` set (categories ?d)"
    using c unfolding r by fastforce
  moreover have "distinct (map a_id (accounts ?d))" using c by (simp add: r)
  ultimately show ?thesis
    using c unfolding db_ok_def db_constraints_def columns_fit_def list_all_iff r(1,2,5-7) by blast
qed

lemma ledger_deleted:
  assumes "db_ok d" "ledger_ok d"
  shows "ledger_ok (deleted_db uid d)"
proof -
  let ?gone = "a_id ` set (filter (\<lambda>a. a_user_id a = uid) (accounts d))"
  have r: "accounts (deleted_db uid d) = filter (\<lambda>a. a_user_id a \<noteq> uid) (accounts d)"
    "transactions (deleted_db uid d) = filter (\<lambda>t. t_account_id t \<notin> ?gone) (transactions d)"
    by (simp_all add: deleted_db_def drop_defs)
  have "a_balance a = account_sum (deleted_db uid d) (a_id a) \<and> 0 \<le> a_balance a"
    if a: "a \<in> set (accounts d)" "a_user_id a \<noteq> uid" for a
  proof -
    have "a_id a \<notin> ?gone"
      using a assms(1) by (auto simp: db_ok_def db_constraints_def distinct_map inj_on_def)
    then have "filter (\<lambda>t. t_account_id t = a_id a) (transactions (deleted_db uid d)) =
        filter (\<lambda>t. t_account_id t = a_id a) (transactions d)"
      unfolding r filter_filter by (intro filter_cong refl) metis
    then have "account_sum (deleted_db uid d) (a_id a) = account_sum d (a_id a)"
      by (simp only: account_sum_def)
    then show ?thesis using assms(2) a(1) unfolding ledger_ok_def by metis
  qed
  then show ?thesis unfolding ledger_ok_def r(1) set_filter by blast
qed

subsection \<open>What a write changes of a user's detailed form\<close>

lemma find_append: "find p (xs @ ys) = (case find p xs of None \<Rightarrow> find p ys | Some x \<Rightarrow> Some x)"
  by (induction xs) auto

lemma row_get_filter: "(\<And>r. key r = k \<Longrightarrow> p r) \<Longrightarrow> row_get key (filter p rows) k = row_get key rows k"
  by (induction rows) (auto simp: row_get_def)

lemma user_detail_cong:
  "user_accounts d' (u_id u) = user_accounts d (u_id u) \<Longrightarrow> user_profile d' (u_id u) = user_profile d (u_id u) \<Longrightarrow>
   user_detail d' u = user_detail d u"
  by (simp add: user_detail_def)

lemma db_user_detail_cong:
  assumes "row_get u_id (users d') uid = row_get u_id (users d) uid"
    and "user_accounts d' uid = user_accounts d uid" "user_profile d' uid = user_profile d uid"
  shows "db_user_detail d' uid = db_user_detail d uid"
  using assms row_get_Some [of u_id "users d" uid]
  by (cases "row_get u_id (users d) uid") (auto simp: db_user_detail_def intro: user_detail_cong)

lemma detail_new_user:
  assumes "db_ok (d\<lparr>users := users d @ [u], outbox_messages := os\<rparr>)" "db_ok d"
  shows "db_user_detail (d\<lparr>users := users d @ [u], outbox_messages := os\<rparr>) uid =
    (if uid = u_id u then Some (detail_of (user_read_of u) [] None) else db_user_detail d uid)"
    (is "db_user_detail ?d uid = _")
proof -
  have fresh: "u_id u \<notin> u_id ` set (users d)" using assms(1) by (auto simp: db_ok_def db_constraints_def)
  then have "row_get u_id (users d) (u_id u) = None" by (simp add: row_get_None)
  moreover have "\<forall>a \<in> set (accounts d). a_user_id a \<noteq> u_id u" "\<forall>p \<in> set (profiles d). p_user_id p \<noteq> u_id u"
    using fresh assms(2) unfolding db_ok_def db_constraints_def list_all_iff by metis+
  then have "user_accounts d (u_id u) = []" "user_profile d (u_id u) = None"
    by (simp_all add: user_accounts_def user_profile_def filter_empty_conv find_None_iff)
  then have "user_detail ?d u = detail_of (user_read_of u) [] None"
    by (simp add: user_detail_def user_accounts_def user_profile_def)
  ultimately have "db_user_detail ?d (u_id u) = Some (detail_of (user_read_of u) [] None)"
    by (simp add: db_user_detail_def row_get_append) (simp add: row_get_def)
  moreover have "db_user_detail ?d uid = db_user_detail d uid" if "uid \<noteq> u_id u"
    using that by (intro db_user_detail_cong)
      (auto simp: find_append user_accounts_def user_profile_def row_get_def split: option.split)
  ultimately show ?thesis by auto
qed

lemma detail_updated:
  "uid \<noteq> u_id old \<Longrightarrow> db_user_detail (updated_db now old data d) uid = db_user_detail d uid"
  by (intro db_user_detail_cong) (simp_all add: updated_db_def row_get_put user_accounts_def user_profile_def)

lemma detail_deleted:
  assumes "db_ok d" "i \<noteq> uid"
  shows "db_user_detail (deleted_db uid d) i = db_user_detail d i"
proof (rule db_user_detail_cong)
  show "row_get u_id (users (deleted_db uid d)) i = row_get u_id (users d) i"
    using assms(2) by (simp add: deleted_db_def drop_defs row_get_filter)
  show "user_accounts (deleted_db uid d) i = user_accounts d i"
    using assms(2) by (auto simp: deleted_db_def drop_defs user_accounts_def intro: filter_cong)
  have "find (\<lambda>p. p_user_id p = i) (filter (\<lambda>p. p_user_id p \<noteq> uid) ps) = find (\<lambda>p. p_user_id p = i) ps" for ps
    using assms(2) by (induction ps) auto
  then show "user_profile (deleted_db uid d) i = user_profile d i"
    by (simp add: deleted_db_def drop_defs user_profile_def)
qed

lemma detail_profile:
  assumes "db_ok d" "i \<noteq> uid"
  shows "db_user_detail (put_profile new_id uid data d) i = db_user_detail d i"
proof (rule db_user_detail_cong)
  have k: "p_user_id (apply_profile data p) = p_user_id p" "p_id (apply_profile data p) = p_id p" for p
    by (auto simp: apply_profile_def Let_def split: option.splits)
  have f: "find (\<lambda>x. p_user_id x = i) (row_put p_id (apply_profile data p) ps) = find (\<lambda>x. p_user_id x = i) ps"
    if "p_user_id p = uid" "\<forall>x \<in> set ps. p_id x = p_id p \<longrightarrow> x = p" for p ps
    using that assms(2) by (induction ps) (auto simp: row_put_def k)
  show "user_profile (put_profile new_id uid data d) i = user_profile d i"
  proof (cases "user_profile d uid")
    case None
    have "p_user_id (apply_profile data (new_profile new_id uid)) \<noteq> i"
      using assms(2) by (simp add: k new_profile_def)
    with None show ?thesis by (simp add: put_profile_def user_profile_def find_append split: option.split)
  next
    case (Some p)
    then have p: "p \<in> set (profiles d)" "p_user_id p = uid" using find_SomeD by (auto simp: user_profile_def dest: find_SomeD)
    then have "\<forall>x \<in> set (profiles d). p_id x = p_id p \<longrightarrow> x = p"
      using assms(1) by (auto simp: db_ok_def db_constraints_def distinct_map inj_on_def)
    with Some p f show ?thesis by (simp add: put_profile_def user_profile_def)
  qed
qed (simp_all add: put_profile_def user_accounts_def split: option.split)

lemma detail_new_account:
  "i \<noteq> uid \<Longrightarrow> db_user_detail (d\<lparr>accounts := accounts d @ [\<lparr>a_id = a, a_user_id = uid, a_name = n, a_balance = b\<rparr>]\<rparr>) i =
   db_user_detail d i"
  by (intro db_user_detail_cong) (simp_all add: user_accounts_def user_profile_def)

lemma detail_moved:
  assumes "db_ok d" "acc \<in> set (accounts d)" "a_id acc' = a_id acc" "a_user_id acc' = a_user_id acc" "i \<noteq> a_user_id acc"
  shows "db_user_detail (moved_db acc' t links d) i = db_user_detail d i"
proof (rule db_user_detail_cong)
  have "\<forall>x \<in> set (accounts d). a_id x = a_id acc \<longrightarrow> x = acc"
    using assms(1,2) by (auto simp: db_ok_def db_constraints_def distinct_map inj_on_def)
  then have "filter (\<lambda>a. a_user_id a = i) (row_put a_id acc' as) = filter (\<lambda>a. a_user_id a = i) as"
    if "set as \<subseteq> set (accounts d)" for as
    using that assms(3-5) by (induction as) (auto simp: row_put_def)
  then show "user_accounts (moved_db acc' t links d) i = user_accounts d i"
    by (simp add: user_accounts_def moved_db_def)
qed (simp_all add: moved_db_def user_profile_def)

lemma detail_elsewhere:
  "users d' = users d \<Longrightarrow> accounts d' = accounts d \<Longrightarrow> profiles d' = profiles d \<Longrightarrow>
   db_user_detail d' i = db_user_detail d i"
  by (intro db_user_detail_cong) (simp_all add: user_accounts_def user_profile_def)

end
