(* ===== verification/App_State.thy ===== *)
theory App_State
  imports Ledger
begin

section \<open>Histories of the services\<close>

text \<open>
  Every history of the operations of the user, account and authentication services, with a database
  that may fail any of them (each step has its own \<open>engine\<close>), interleaved with the relay's changes
  of the outbox and with everything else that happens in Redis (expiry, other keys). The services
  are clients of the cache interface: their side is the locale \<open>user_cache\<close>, interpreted on the Redis
  cache at the end.
\<close>

text \<open>
  A change of the password writes the user's row and leaves its cached copy, which then has the old
  \<^verbatim>\<open>updated_at\<close>. The parameter \<open>pw\<close> says whether the history has changes of passwords; a copy may differ in
  that field, and in histories without them in nothing.
\<close>

definition same_detail :: "bool \<Rightarrow> user_read_detail \<Rightarrow> user_read_detail \<Rightarrow> bool" where
  "same_detail pw a b \<longleftrightarrow> a = b \<or> pw \<and> a\<lparr>ur_updated_at := 0\<rparr> = b\<lparr>ur_updated_at := 0\<rparr>"

lemma same_detail_refl [simp]: "same_detail pw a a"
  by (simp add: same_detail_def)

lemma same_detail_trans: "same_detail pw a b \<Longrightarrow> same_detail pw b c \<Longrightarrow> same_detail pw a c"
  by (auto simp: same_detail_def)

definition cache_coherent ::
  "bool \<Rightarrow> ('s \<Rightarrow> string \<Rightarrow> 'v option) \<Rightarrow> (user_read_detail \<Rightarrow> 'v) \<Rightarrow> db \<Rightarrow> 's \<Rightarrow> bool" where
  "cache_coherent pw view dump d s \<longleftrightarrow> (\<forall>uid x. view s (user_cache_key uid) = Some x \<longrightarrow>
     (\<exists>dto dto'. db_user_detail d uid = Some dto \<and> same_detail pw dto dto' \<and> x = dump dto'))"

definition app_inv :: "bool \<Rightarrow> ('s \<Rightarrow> string \<Rightarrow> 'v option) \<Rightarrow> ('s \<Rightarrow> bool) \<Rightarrow> (user_read_detail \<Rightarrow> 'v) \<Rightarrow> 's svc \<Rightarrow> bool" where
  "app_inv pw view wfc dump v \<longleftrightarrow> sv_idle v \<and> db_ok (sv_db v) \<and> ledger_ok (sv_db v) \<and> wfc (sv_redis v) \<and>
     cache_coherent pw view dump (sv_db v) (sv_redis v)"

inductive app_step ::
  "bool \<Rightarrow> ('s, 'v) cache \<Rightarrow> ('s \<Rightarrow> string \<Rightarrow> 'v option) \<Rightarrow> ('s \<Rightarrow> bool) \<Rightarrow> (user_read_detail \<Rightarrow> 'v) \<Rightarrow>
   ('v \<Rightarrow> exn + user_read_detail) \<Rightarrow> (string \<Rightarrow> 's \<Rightarrow> nat \<times> 's) \<Rightarrow> 's svc \<Rightarrow> 's svc \<Rightarrow> bool"
  for pw Ch view wfc dump undump rvk where
  CreateUser: "app_step pw Ch view wfc dump undump rvk v (snd (create_user E Ch dump i ei now udata v))"
| GetUser: "app_step pw Ch view wfc dump undump rvk v (snd (get_user E Ch dump undump uid v))"
| UpdateUser: "app_step pw Ch view wfc dump undump rvk v (snd (update_user E Ch now uid updata v))"
| DeleteUser: "app_step pw Ch view wfc dump undump rvk v (snd (delete_user E Ch (Some rvk) uid v))"
| UpsertProfile: "app_step pw Ch view wfc dump undump rvk v (snd (upsert_profile E Ch i uid pdata v))"
| CreateCategory: "app_step pw Ch view wfc dump undump rvk v (snd (create_category E i name v))"
| CreateAccount: "app_step pw Ch view wfc dump undump rvk v (snd (create_account E Ch i uid name v))"
| Deposit: "0 < amount \<Longrightarrow> app_step pw Ch view wfc dump undump rvk v (snd (deposit E Ch i now aid amount acq cids v))"
| Withdraw: "0 < amount \<Longrightarrow> app_step pw Ch view wfc dump undump rvk v (snd (withdraw E Ch i now aid amount acq v))"
| Register: "app_step pw Ch view wfc dump undump rvk v (snd (register A salt i now rdata v))"
| ChangePassword: "pw \<Longrightarrow> app_step pw Ch view wfc dump undump rvk v (snd (change_password A salt now sub old_pw new_pw v))"
| Read: "uncommitted (m :: unit tx) \<Longrightarrow> app_step pw Ch view wfc dump undump rvk v (snd (in_tx m sv_return v))"
| Outbox: "db_ok ((sv_db v)\<lparr>outbox_messages := os\<rparr>) \<Longrightarrow>
    app_step pw Ch view wfc dump undump rvk v (v\<lparr>sv_uow := idle ((sv_db v)\<lparr>outbox_messages := os\<rparr>)\<rparr>)"
| Redis: "wfc s' \<Longrightarrow> (\<forall>uid. view s' (user_cache_key uid) \<in> {None, view (sv_redis v) (user_cache_key uid)}) \<Longrightarrow>
    app_step pw Ch view wfc dump undump rvk v (v\<lparr>sv_redis := s'\<rparr>)"

inductive app_reach ::
  "bool \<Rightarrow> ('s, 'v) cache \<Rightarrow> ('s \<Rightarrow> string \<Rightarrow> 'v option) \<Rightarrow> ('s \<Rightarrow> bool) \<Rightarrow> (user_read_detail \<Rightarrow> 'v) \<Rightarrow>
   ('v \<Rightarrow> exn + user_read_detail) \<Rightarrow> (string \<Rightarrow> 's \<Rightarrow> nat \<times> 's) \<Rightarrow> 's svc \<Rightarrow> bool"
  for pw Ch view wfc dump undump rvk where
  Start: "wfc s \<Longrightarrow> (\<forall>uid. view s (user_cache_key uid) = None) \<Longrightarrow>
    app_reach pw Ch view wfc dump undump rvk \<lparr>sv_uow = idle empty_db, sv_redis = s\<rparr>"
| Step: "app_reach pw Ch view wfc dump undump rvk v \<Longrightarrow> app_step pw Ch view wfc dump undump rvk v v' \<Longrightarrow>
    app_reach pw Ch view wfc dump undump rvk v'"

text \<open>The user's form after a change of the password: only \<^verbatim>\<open>updated_at\<close> may be another.\<close>

lemma detail_password:
  assumes "db_user_detail d i = Some a" "row_get u_id (users d) uid = Some old"
  shows "\<exists>a'. db_user_detail (with_password now old h d) i = Some a' \<and> same_detail True a' a"
proof -
  let ?n = "versioned now old (old\<lparr>u_hashed_password := Some h\<rparr>)"
  have key: "u_id ?n = u_id old" "u_id old = uid" using versioned_password(1) row_get_Some [OF assms(2)] by auto
  have get: "row_get u_id (users (with_password now old h d)) i = (if i = uid then Some ?n else row_get u_id (users d) i)"
  proof -
    have "uid \<in> u_id ` set (users d)" using row_get_Some [OF assms(2)] by (metis image_eqI)
    then show ?thesis using row_get_put [of u_id ?n "users d" i] key by (simp add: with_password_def)
  qed
  have "(user_read_of ?n)\<lparr>ur_updated_at := 0\<rparr> = (user_read_of old)\<lparr>ur_updated_at := 0\<rparr>"
    by (auto simp: versioned_def user_read_of_def)
  then have "same_detail True (user_detail (with_password now old h d) ?n) (user_detail d old)"
    by (simp add: same_detail_def user_detail_def detail_of_def with_password_def user_read_of_def key
        user_accounts_def user_profile_def)
  moreover have "user_detail (with_password now old h d) u = user_detail d u" for u
    by (rule user_detail_cong) (simp_all add: with_password_def user_accounts_def user_profile_def)
  ultimately show ?thesis using assms get by (auto simp: db_user_detail_def split: if_splits)
qed

subsection \<open>The client of the cache\<close>

locale user_cache = abstract_cache Ch is_user_key view wf
  for Ch :: "('s, 'v) cache" and view wf +
  fixes dump :: "user_read_detail \<Rightarrow> 'v" and undump :: "'v \<Rightarrow> exn + user_read_detail"
    and rvk :: "string \<Rightarrow> 's \<Rightarrow> nat \<times> 's"
  assumes undump_dump: "undump (dump x) = Inr x"
    and rvk_wf: "wf s \<Longrightarrow> wf (snd (rvk u s))"
    and rvk_view: "wf s \<Longrightarrow> is_user_key k \<Longrightarrow> view (snd (rvk u s)) k = view s k"
begin

lemma coherent_drop:
  assumes "wf s" "cache_coherent pw view dump d s" "\<And>i. i \<noteq> uid \<Longrightarrow> db_user_detail d' i = db_user_detail d i"
  shows "cache_coherent pw view dump d' (snd (ca_delete Ch [user_cache_key uid] s))"
  using assms by (auto simp: cache_coherent_def delete_view split: if_splits)

lemma coherent_put:
  assumes "wf s" "cache_coherent pw view dump d s" "\<And>i. i \<noteq> uid \<Longrightarrow> db_user_detail d' i = db_user_detail d i"
    and "db_user_detail d' uid = Some dto"
  shows "cache_coherent pw view dump d' (ca_set Ch (user_cache_key uid) (dump dto) ttl s)"
  unfolding cache_coherent_def
proof (intro allI impI)
  fix i x assume "view (ca_set Ch (user_cache_key uid) (dump dto) ttl s) (user_cache_key i) = Some x"
  then have "i = uid \<and> x = dump dto \<or> i \<noteq> uid \<and> view s (user_cache_key i) = Some x"
    using assms(1) by (auto simp: set_view split: if_splits)
  then show "\<exists>a b. db_user_detail d' i = Some a \<and> same_detail pw a b \<and> x = dump b"
    using assms(2-4) same_detail_refl unfolding cache_coherent_def by metis
qed

lemma coherent_db: "cache_coherent pw view dump d s \<Longrightarrow> (\<And>i. db_user_detail d' i = db_user_detail d i) \<Longrightarrow>
    cache_coherent pw view dump d' s"
  by (simp add: cache_coherent_def)

lemma inv_in_tx:
  assumes "app_inv pw view wf dump v" "atomic m"
    and "\<And>x u. m (opened (sv_db v)) = (Inr x, u) \<Longrightarrow>
           app_inv pw view wf dump (snd (f x (v\<lparr>sv_uow := idle (committed u)\<rparr>)))"
  shows "app_inv pw view wf dump (snd (in_tx m f v))"
proof -
  have i: "sv_idle v" using assms(1) by (simp add: app_inv_def)
  obtain r v' where r: "in_tx m f v = (r, v')" by force
  show ?thesis
  proof (rule in_tx_elim [OF r i assms(2)], goal_cases)
    case (1 e)
    then show ?case using assms(1) r by (simp add: app_inv_def sv_db_def)
  next
    case (2 x u)
    then show ?case using assms(3) [OF 2(1)] r by simp
  qed
qed

lemma inv_drop:
  assumes "app_inv pw view wf dump v" "db_ok d'" "ledger_ok d'"
    and "\<And>i. i \<noteq> uid \<Longrightarrow> db_user_detail d' i = db_user_detail (sv_db v) i"
  shows "app_inv pw view wf dump (drop_cached Ch uid (v\<lparr>sv_uow := idle d'\<rparr>))"
  using assms coherent_drop [where s = "sv_redis v" and d = "sv_db v" and uid = uid and d' = d']
  by (auto simp: app_inv_def drop_cached_def delete_wf)

lemma inv_put:
  assumes "app_inv pw view wf dump v" "db_ok d'" "ledger_ok d'" "ur_id dto = uid" "db_user_detail d' uid = Some dto"
    and "\<And>i. i \<noteq> uid \<Longrightarrow> db_user_detail d' i = db_user_detail (sv_db v) i"
  shows "app_inv pw view wf dump (cache_put Ch dump dto (v\<lparr>sv_uow := idle d'\<rparr>))"
  using assms coherent_put [where s = "sv_redis v" and d = "sv_db v" and uid = uid and d' = d' and dto = dto]
  by (auto simp: app_inv_def cache_put_def set_wf)

lemma inv_db:
  assumes "app_inv pw view wf dump v" "db_ok d'" "ledger_ok d'"
    and "\<And>i. db_user_detail d' i = db_user_detail (sv_db v) i"
  shows "app_inv pw view wf dump (v\<lparr>sv_uow := idle d'\<rparr>)"
  using assms coherent_db [where d = "sv_db v" and s = "sv_redis v" and d' = d'] by (auto simp: app_inv_def)

lemma inv_create:
  assumes inv: "app_inv pw view wf dump v"
  shows "app_inv pw view wf dump (snd (create_user E Ch dump i ei now data v))"
  unfolding create_user_def
proof (rule inv_in_tx [OF inv atomic_ops(1)])
  fix x u assume "create_tx E i ei now data (opened (sv_db v)) = (Inr x, u)"
  note c = create_tx_runs [OF this]
  let ?u = "new_user i now (uc_email data) (uc_full_name data) None DEFAULT_ROLE"
  have ok: "db_ok (sv_db v)" "ledger_ok (sv_db v)" using inv by (simp_all add: app_inv_def)
  obtain os where d: "committed u = (sv_db v)\<lparr>users := users (sv_db v) @ [?u], outbox_messages := os\<rparr>"
    using c by (auto simp: created_db_def Let_def)
  have i: "u_id ?u = i" by (simp add: new_user_def)
  have okd: "db_ok (committed u)" using c by blast
  have det: "db_user_detail (committed u) j = (if j = i then Some (detail_of (user_read_of ?u) [] None)
      else db_user_detail (sv_db v) j)" for j
    using detail_new_user [where d = "sv_db v" and u = ?u and os = os, OF _ ok(1)] okd unfolding d by (simp only: i)
  have "ledger_ok (committed u)" by (rule ledger_ok_cong [OF ok(2)]) (simp_all add: d)
  then show "app_inv pw view wf dump (snd (Inr x, cache_put Ch dump (detail_of x [] None) (v\<lparr>sv_uow := idle (committed u)\<rparr>)))"
    unfolding snd_conv
    by (rule inv_put [OF inv okd _ refl]) (use c det i in \<open>auto simp: detail_of_def\<close>)
qed

lemma inv_register:
  assumes inv: "app_inv pw view wf dump v"
  shows "app_inv pw view wf dump (snd (register A salt i now data v))"
proof -
  have at: "atomic (register_tx E i now h data)" for E h
    unfolding register_tx_def by (rule keeps | rule uncommitted_atomic)+
  let ?u = "\<lambda>h. new_user i now (rg_email data) (rg_full_name data) (Some h) (rg_role data)"
  have ok: "db_ok (sv_db v)" "ledger_ok (sv_db v)" using inv by (simp_all add: app_inv_def)
  have "app_inv pw view wf dump (snd (sv_return x (v\<lparr>sv_uow := idle (committed u)\<rparr>)))"
    if run: "register_tx E i now h data (opened (sv_db v)) = (Inr x, u)" for E h x u
  proof -
    have d: "committed u = (sv_db v)\<lparr>users := users (sv_db v) @ [?u h]\<rparr>" "db_ok (committed u)"
      using run by (auto simp: register_tx_def get_by_email_def runs table_defs ran_def split: if_splits)
    have i: "u_id (?u h) = i" by (simp add: new_user_def)
    have d': "committed u = (sv_db v)\<lparr>users := users (sv_db v) @ [?u h], outbox_messages := outbox_messages (sv_db v)\<rparr>"
      using d(1) by (cases "sv_db v") simp
    have det: "db_user_detail (committed u) j = (if j = i then Some (detail_of (user_read_of (?u h)) [] None)
        else db_user_detail (sv_db v) j)" for j
      using detail_new_user [where d = "sv_db v" and u = "?u h" and os = "outbox_messages (sv_db v)", OF _ ok(1)] d(2)
      unfolding d' by (simp only: i)
    have "row_get u_id (users (sv_db v)) i = None"
      using d i by (auto simp: row_get_None db_ok_def db_constraints_def)
    then have "view (sv_redis v) (user_cache_key i) = None"
      using inv unfolding app_inv_def cache_coherent_def
      by (metis db_user_detail_def not_None_eq option.map_disc_iff)
    then have "cache_coherent pw view dump (committed u) (sv_redis v)"
      using inv det unfolding app_inv_def cache_coherent_def by auto
    moreover have "ledger_ok (committed u)" by (rule ledger_ok_cong [OF ok(2)]) (simp_all add: d)
    ultimately show ?thesis using inv d(2) by (simp add: app_inv_def sv_return_def)
  qed
  then show ?thesis unfolding register_def Let_def by (intro inv_in_tx [OF inv at])
qed

lemma inv_get:
  assumes inv: "app_inv pw view wf dump v"
  shows "app_inv pw view wf dump (snd (get_user E Ch dump undump uid v))"
proof -
  have at: "atomic (get_tx E uid)" by (rule uncommitted_atomic) (rule keeps)
  have g: "ca_get Ch (user_cache_key uid) (sv_redis v) = Inr (view (sv_redis v) (user_cache_key uid))"
    using inv by (simp add: app_inv_def get_view)
  have "app_inv pw view wf dump (snd (in_tx (get_tx E uid) (\<lambda>user v. case user of None \<Rightarrow> (Inl (NotFoundError ''User not found''), v)
             | Some dto \<Rightarrow> (Inr dto, cache_put Ch dump dto v)) v))"
  proof (rule inv_in_tx [OF inv at])
    fix x u assume "get_tx E uid (opened (sv_db v)) = (Inr x, u)"
    from get_tx_runs [OF this] have c: "x = db_user_detail (sv_db v) uid" "committed u = sv_db v" by auto
    have ok: "db_ok (sv_db v)" "ledger_ok (sv_db v)" using inv by (simp_all add: app_inv_def)
    show "app_inv pw view wf dump (snd (case x of None \<Rightarrow> (Inl (NotFoundError ''User not found''), v\<lparr>sv_uow := idle (committed u)\<rparr>)
             | Some dto \<Rightarrow> (Inr dto, cache_put Ch dump dto (v\<lparr>sv_uow := idle (committed u)\<rparr>))))"
    proof (cases x)
      case None
      then show ?thesis using inv_db [OF inv ok] by (simp add: c(2))
    next
      case (Some dto)
      then have "ur_id dto = uid"
        using c(1) row_get_Some [of u_id "users (sv_db v)" uid]
        by (auto simp: db_user_detail_def user_detail_def detail_of_def)
      with Some c inv_put [OF inv ok] show ?thesis by auto
    qed
  qed
  then show ?thesis using inv by (auto simp: get_user_def g split: option.split)
qed

lemma inv_update:
  assumes inv: "app_inv pw view wf dump v"
  shows "app_inv pw view wf dump (snd (update_user E Ch now uid data v))"
  unfolding update_user_def
proof (rule inv_in_tx [OF inv atomic_update])
  fix x u assume "update_tx E now uid data (opened (sv_db v)) = (Inr x, u)"
  then obtain old where c: "row_get u_id (users (sv_db v)) uid = Some old" "committed u = updated_db now old data (sv_db v)"
    "db_ok (committed u)" using update_tx_runs by blast
  have "ledger_ok (sv_db v)" using inv by (simp add: app_inv_def)
  then have "ledger_ok (committed u)" by (rule ledger_ok_cong) (simp_all add: c(2) updated_db_def)
  moreover have "u_id old = uid" using row_get_Some [OF c(1)] by simp
  then have "db_user_detail (committed u) i = db_user_detail (sv_db v) i" if "i \<noteq> uid" for i
    using that by (simp add: c(2) detail_updated)
  ultimately show "app_inv pw view wf dump (snd (Inr x, drop_cached Ch uid (v\<lparr>sv_uow := idle (committed u)\<rparr>)))"
    unfolding snd_conv by (rule inv_drop [OF inv c(3)])
qed

lemma inv_profile:
  assumes inv: "app_inv pw view wf dump v"
  shows "app_inv pw view wf dump (snd (upsert_profile E Ch i uid data v))"
  unfolding upsert_profile_def
proof (rule inv_in_tx [OF inv atomic_ops(3)])
  fix x u assume "upsert_profile_tx E i uid data (opened (sv_db v)) = (Inr x, u)"
  from upsert_profile_tx_runs [OF this]
  have c: "committed u = put_profile i uid data (sv_db v)" "db_ok (committed u)" by auto
  have ok: "db_ok (sv_db v)" "ledger_ok (sv_db v)" using inv by (simp_all add: app_inv_def)
  have "ledger_ok (committed u)"
    by (rule ledger_ok_cong [OF ok(2)]) (simp_all add: c(1) put_profile_def split: option.split)
  moreover have "db_user_detail (committed u) j = db_user_detail (sv_db v) j" if "j \<noteq> uid" for j
    unfolding c(1) by (rule detail_profile [OF ok(1) that])
  ultimately show "app_inv pw view wf dump (snd (Inr x, drop_cached Ch uid (v\<lparr>sv_uow := idle (committed u)\<rparr>)))"
    unfolding snd_conv by (rule inv_drop [OF inv c(2)])
qed

lemma inv_delete:
  assumes inv: "app_inv pw view wf dump v"
  shows "app_inv pw view wf dump (snd (delete_user E Ch (Some rvk) uid v))"
  unfolding delete_user_def
proof (rule inv_in_tx [OF inv atomic_ops(2)])
  fix x u assume "delete_tx E uid (opened (sv_db v)) = (Inr x, u)"
  from delete_tx_runs [OF this] have c: "committed u = deleted_db uid (sv_db v)" "db_ok (committed u)" by auto
  have ok: "db_ok (sv_db v)" "ledger_ok (sv_db v)" using inv by (simp_all add: app_inv_def)
  let ?v = "drop_cached Ch uid (v\<lparr>sv_uow := idle (committed u)\<rparr>)"
  have "ledger_ok (committed u)" unfolding c(1) by (rule ledger_deleted [OF ok])
  moreover have "db_user_detail (committed u) j = db_user_detail (sv_db v) j" if "j \<noteq> uid" for j
    unfolding c(1) by (rule detail_deleted [OF ok(1) that])
  ultimately have "app_inv pw view wf dump ?v" by (rule inv_drop [OF inv c(2)])
  then have "app_inv pw view wf dump (?v\<lparr>sv_redis := snd (rvk uid (sv_redis ?v))\<rparr>)"
    by (auto simp: app_inv_def rvk_wf rvk_view cache_coherent_def)
  then show "app_inv pw view wf dump (snd (let v = ?v in (Inr (), case Some rvk of None \<Rightarrow> v
      | Some rvk \<Rightarrow> v\<lparr>sv_redis := snd (rvk uid (sv_redis v))\<rparr>)))"
    by (simp add: Let_def)
qed

lemma inv_accounts:
  assumes inv: "app_inv pw view wf dump v"
  shows "app_inv pw view wf dump (snd (create_category E i name v))"
    "app_inv pw view wf dump (snd (create_account E Ch i uid name v))"
    "0 < amount \<Longrightarrow> app_inv pw view wf dump (snd (deposit E Ch i now aid amount acq cids v))"
    "0 < amount \<Longrightarrow> app_inv pw view wf dump (snd (withdraw E Ch i now aid amount acq v))"
proof -
  have ok: "db_ok (sv_db v)" "ledger_ok (sv_db v)" using inv by (simp_all add: app_inv_def)
  show "app_inv pw view wf dump (snd (create_category E i name v))"
    unfolding create_category_def
  proof (rule inv_in_tx [OF inv atomic_account_ops(1)])
    fix x u assume "create_category_tx E i name (opened (sv_db v)) = (Inr x, u)"
    note c = create_category_tx_runs [OF this]
    have "ledger_ok (committed u)" by (rule ledger_ok_cong [OF ok(2)]) (simp_all add: c)
    moreover have "db_user_detail (committed u) j = db_user_detail (sv_db v) j" for j
      by (rule detail_elsewhere) (simp_all add: c)
    ultimately show "app_inv pw view wf dump (snd (sv_return x (v\<lparr>sv_uow := idle (committed u)\<rparr>)))"
      unfolding sv_return_def snd_conv using c by (intro inv_db [OF inv]) auto
  qed
  show "app_inv pw view wf dump (snd (create_account E Ch i uid name v))"
    unfolding create_account_def
  proof (rule inv_in_tx [OF inv atomic_account_ops(2)])
    fix x u assume "create_account_tx E i uid name (opened (sv_db v)) = (Inr x, u)"
    note c = create_account_tx_runs [OF this]
    have "i \<notin> a_id ` set (accounts (sv_db v))" using c by (auto simp: db_ok_def db_constraints_def)
    from ledger_new_account [OF ok this] have "ledger_ok (committed u)" by (simp only: c)
    moreover have "db_user_detail (committed u) j = db_user_detail (sv_db v) j" if "j \<noteq> uid" for j
      using detail_new_account [OF that] c by simp
    ultimately show "app_inv pw view wf dump (snd (Inr x, drop_cached Ch uid (v\<lparr>sv_uow := idle (committed u)\<rparr>)))"
      unfolding snd_conv using c by (intro inv_drop [OF inv]) auto
  qed
  have moved: "app_inv pw view wf dump (drop_cached Ch (a_user_id acc) (v\<lparr>sv_uow := idle d'\<rparr>))"
    if "row_get a_id (accounts (sv_db v)) aid = Some acc" "db_ok d'" "t_account_id t = a_id acc"
      "0 \<le> a_balance acc + t_amount t" "d' = moved_db (acc\<lparr>a_balance := a_balance acc + t_amount t\<rparr>) t links (sv_db v)"
    for d' acc t links
  proof -
    have a: "acc \<in> set (accounts (sv_db v))" "a_id acc = aid" using row_get_Some [OF that(1)] by auto
    have "ledger_ok d'" unfolding that(5) by (rule ledger_moved [OF ok that(1)]) (use that a in auto)
    moreover have "db_user_detail d' j = db_user_detail (sv_db v) j" if "j \<noteq> a_user_id acc" for j
      unfolding \<open>d' = _\<close> by (rule detail_moved [OF ok(1) a(1)]) (use that in auto)
    ultimately show ?thesis using inv_drop [OF inv that(2)] by blast
  qed
  show "app_inv pw view wf dump (snd (deposit E Ch i now aid amount acq cids v))" if "0 < amount"
    unfolding deposit_def
  proof (rule inv_in_tx [OF inv atomic_account_ops(3)])
    fix x u assume "deposit_tx E i now aid amount acq cids (opened (sv_db v)) = (Inr x, u)"
    moreover obtain dto uid where x: "x = (dto, uid)" by force
    ultimately obtain acc links where c: "row_get a_id (accounts (sv_db v)) aid = Some acc" "uid = a_user_id acc"
      "committed u = moved_db (acc\<lparr>a_balance := a_balance acc + amount\<rparr>) \<lparr>t_id = i, t_account_id = a_id acc, t_amount = amount,
          t_kind = ''deposit'', t_acquirer = acq, t_created_at = now\<rparr> links (sv_db v)" "db_ok (committed u)"
      using deposit_tx_runs by blast
    have "0 \<le> a_balance acc" using ok(2) row_get_Some [OF c(1)] by (auto simp: ledger_ok_def)
    with moved [OF c(1,4), where t = "\<lparr>t_id = i, t_account_id = a_id acc, t_amount = amount,
          t_kind = ''deposit'', t_acquirer = acq, t_created_at = now\<rparr>"] c(2,3) that
    show "app_inv pw view wf dump (snd ((case x of (dto, uid) \<Rightarrow> \<lambda>v. (Inr dto, drop_cached Ch uid v)) (v\<lparr>sv_uow := idle (committed u)\<rparr>)))"
      by (simp add: x)
  qed
  show "app_inv pw view wf dump (snd (withdraw E Ch i now aid amount acq v))" if "0 < amount"
    unfolding withdraw_def
  proof (rule inv_in_tx [OF inv atomic_account_ops(4)])
    fix x u assume "withdraw_tx E i now aid amount acq (opened (sv_db v)) = (Inr x, u)"
    moreover obtain dto uid where x: "x = (dto, uid)" by force
    ultimately obtain acc where c: "row_get a_id (accounts (sv_db v)) aid = Some acc" "uid = a_user_id acc" "amount \<le> a_balance acc"
      "committed u = moved_db (acc\<lparr>a_balance := a_balance acc - amount\<rparr>) \<lparr>t_id = i, t_account_id = a_id acc, t_amount = - amount,
          t_kind = ''withdrawal'', t_acquirer = acq, t_created_at = now\<rparr> [] (sv_db v)" "db_ok (committed u)"
      using withdraw_tx_runs by blast
    with moved [OF c(1,5), where t = "\<lparr>t_id = i, t_account_id = a_id acc, t_amount = - amount,
          t_kind = ''withdrawal'', t_acquirer = acq, t_created_at = now\<rparr>"]
    show "app_inv pw view wf dump (snd ((case x of (dto, uid) \<Rightarrow> \<lambda>v. (Inr dto, drop_cached Ch uid v)) (v\<lparr>sv_uow := idle (committed u)\<rparr>)))"
      by (simp add: x)
  qed
qed

lemma inv_password:
  assumes inv: "app_inv True view wf dump v"
  shows "app_inv True view wf dump (snd (change_password A salt now sub old_pw new_pw v))"
  unfolding change_password_def
proof (rule inv_in_tx [OF inv uncommitted_atomic [OF uncommitted_auth(2)]])
  fix user u assume "user_tx (ae_engine A) sub (opened (sv_db v)) = (Inr user, u)"
  then have d: "committed u = sv_db v" using user_tx_runs by blast
  have ok: "db_ok (sv_db v)" "ledger_ok (sv_db v)" using inv by (simp_all add: app_inv_def)
  let ?h = "hash_password (ae_hasher A) salt new_pw" and ?v = "v\<lparr>sv_uow := idle (committed u)\<rparr>"
  have db: "sv_db ?v = sv_db v" by (simp add: sv_db_def idle_def d)
  have inv': "app_inv True view wf dump ?v" by (rule inv_db [OF inv]) (simp_all add: d ok)
  have at: "atomic (set_password_tx E now sub ?h)" for E
    unfolding set_password_tx_def by (rule keeps | rule uncommitted_atomic)+
  have "app_inv True view wf dump (snd (in_tx (set_password_tx (ae_engine A) now sub ?h) sv_return ?v))"
  proof (rule inv_in_tx [OF inv' at])
    fix x w assume "set_password_tx (ae_engine A) now sub ?h (opened (sv_db ?v)) = (Inr x, w)"
    from set_password_tx_runs [OF this] obtain uid old where old: "row_get u_id (users (sv_db v)) uid = Some old"
      and w: "committed w = with_password now old ?h (sv_db v)" "db_ok (committed w)" unfolding db by blast
    have "ledger_ok (committed w)" by (rule ledger_ok_cong [OF ok(2)]) (simp_all add: w(1) with_password_def)
    moreover have "cache_coherent True view dump (committed w) (sv_redis v)"
      unfolding cache_coherent_def
    proof (intro allI impI)
      fix i x assume "view (sv_redis v) (user_cache_key i) = Some x"
      then obtain a b where "db_user_detail (sv_db v) i = Some a" "same_detail True a b" "x = dump b"
        using inv unfolding app_inv_def cache_coherent_def by blast
      moreover from detail_password [OF this(1) old, of now ?h] obtain a' where
        "db_user_detail (committed w) i = Some a'" "same_detail True a' a" unfolding w(1) by blast
      ultimately show "\<exists>a b. db_user_detail (committed w) i = Some a \<and> same_detail True a b \<and> x = dump b"
        using same_detail_trans by blast
    qed
    ultimately show "app_inv True view wf dump (snd (sv_return x (?v\<lparr>sv_uow := idle (committed w)\<rparr>)))"
      using inv w(2) by (simp add: app_inv_def sv_return_def sv_db_def sv_idle_def idle_def)
  qed
  with inv' show "app_inv True view wf dump (snd (let current_hash = (case user of None \<Rightarrow> None | Some u \<Rightarrow> u_hashed_password u)
       in if current_hash = None \<or> \<not> verify_password (ae_hasher A) old_pw current_hash
          then (Inl (UnauthorizedError ''Current password is incorrect''), ?v)
          else in_tx (set_password_tx (ae_engine A) now sub ?h) sv_return ?v))"
    by (simp add: Let_def)
qed

lemma inv_read:
  assumes "app_inv pw view wf dump v" "uncommitted m"
  shows "app_inv pw view wf dump (snd (in_tx m sv_return v))"
proof (rule inv_in_tx [OF assms(1) uncommitted_atomic [OF assms(2)]])
  fix x u assume "m (opened (sv_db v)) = (Inr x, u)"
  then have "committed u = sv_db v" using assms(2) by (metis idle_sel(3) snd_conv uncommitted_def)
  then show "app_inv pw view wf dump (snd (sv_return x (v\<lparr>sv_uow := idle (committed u)\<rparr>)))"
    using assms(1) by (simp add: sv_return_def app_inv_def)
qed

lemma inv_outbox:
  assumes "app_inv pw view wf dump v" "db_ok ((sv_db v)\<lparr>outbox_messages := os\<rparr>)"
  shows "app_inv pw view wf dump (v\<lparr>sv_uow := idle ((sv_db v)\<lparr>outbox_messages := os\<rparr>)\<rparr>)"
proof (rule inv_db [OF assms])
  have "ledger_ok (sv_db v)" using assms(1) by (simp add: app_inv_def)
  then show "ledger_ok ((sv_db v)\<lparr>outbox_messages := os\<rparr>)" by (rule ledger_ok_cong) simp_all
qed (rule detail_elsewhere, simp_all)

lemma inv_redis:
  assumes "app_inv pw view wf dump v" "wf s'"
    and "\<forall>uid. view s' (user_cache_key uid) \<in> {None, view (sv_redis v) (user_cache_key uid)}"
  shows "app_inv pw view wf dump (v\<lparr>sv_redis := s'\<rparr>)"
  using assms unfolding app_inv_def cache_coherent_def by (simp, metis option.distinct(1))

lemma inv_password': "pw \<Longrightarrow> app_inv pw view wf dump v \<Longrightarrow>
    app_inv pw view wf dump (snd (change_password A salt now sub old_pw new_pw v))"
  using inv_password by simp

lemma app_inv_step: "app_step pw Ch view wf dump undump rvk v v' \<Longrightarrow> app_inv pw view wf dump v \<Longrightarrow> app_inv pw view wf dump v'"
  by (induction rule: app_step.induct)
     (blast intro: inv_create inv_get inv_update inv_delete inv_profile inv_accounts inv_register inv_read
       inv_outbox inv_redis inv_password')+

lemma inv_reach: "app_reach pw Ch view wf dump undump rvk v \<Longrightarrow> app_inv pw view wf dump v"
proof (induction rule: app_reach.induct)
  case (Start s)
  then show ?case by (simp add: app_inv_def cache_coherent_def ledger_ok_def sv_idle_def sv_db_def) (simp add: empty_db_def)
qed (rule app_inv_step)

text \<open>What \<^verbatim>\<open>UserService.get\<close> answers in a state of the invariant.\<close>

lemma get_user_current:
  assumes inv: "app_inv pw view wf dump v" and run: "get_user E Ch dump undump uid v = (r, v')"
  shows "(case r of Inr dto \<Rightarrow> \<exists>a. db_user_detail (sv_db v) uid = Some a \<and> same_detail pw a dto
      | Inl e \<Rightarrow> E (sv_db v) \<noteq> None \<or> (db_user_detail (sv_db v) uid = None \<and> e = NotFoundError ''User not found'')) \<and>
    sv_db v' = sv_db v"
proof -
  have i: "sv_idle v" and ok: "db_ok (sv_db v)" using inv by (simp_all add: app_inv_def)
  have g: "ca_get Ch (user_cache_key uid) (sv_redis v) = Inr (view (sv_redis v) (user_cache_key uid))"
    using inv by (simp add: app_inv_def get_view)
  show ?thesis
  proof (cases "view (sv_redis v) (user_cache_key uid)")
    case (Some x)
    then obtain a b where "db_user_detail (sv_db v) uid = Some a" "same_detail pw a b" "x = dump b"
      using inv unfolding app_inv_def cache_coherent_def by blast
    then show ?thesis using run Some by (auto simp: get_user_def g undump_dump)
  next
    case None
    have at: "atomic (get_tx E uid)" by (rule uncommitted_atomic) (rule keeps)
    have run': "in_tx (get_tx E uid) (\<lambda>user v. case user of None \<Rightarrow> (Inl (NotFoundError ''User not found''), v)
             | Some dto \<Rightarrow> (Inr dto, cache_put Ch dump dto v)) v = (r, v')"
      using run None by (simp add: get_user_def g)
    show ?thesis
    proof (rule in_tx_elim [OF run' i at], goal_cases)
      case (1 e)
      show ?case
      proof (cases "E (sv_db v) = None")
        case True
        then have t: "get_tx E uid (opened (sv_db v)) = (Inr (db_user_detail (sv_db v) uid), used User (opened (sv_db v)))"
          using ok by (simp add: get_tx_iff)
        show ?thesis using run'
          by (auto simp: cache_put_def in_tx_finished [where m = "get_tx E uid", OF i t] split: option.splits)
      next
        case False
        with 1 show ?thesis by (auto simp: sv_db_def)
      qed
    next
      case (2 x u)
      from get_tx_runs [OF 2(1)] 2(2) show ?case by (auto simp: cache_put_def split: option.splits)
    qed
  qed
qed

end

end
