(* ===== verification/App_Safety.thy ===== *)
theory App_Safety
  imports App_State
begin

section \<open>What the services promise\<close>

text \<open>
  The services on the Redis cache: the cache's laws come from \<^verbatim>\<open>RedisCache\<close>, the revocation of sessions
  from \<^verbatim>\<open>SessionStore\<close>, and the invariant of the histories gives the properties. A concrete text form of
  a cached user serves the witnesses.
\<close>

subsection \<open>The services on Redis\<close>

lemma user_key_not_session: "is_user_key k \<Longrightarrow> k \<noteq> sk sid \<and> k \<noteq> uk u"
  by (auto simp: is_user_key_def sk_def uk_def startswith_def)

context redis_service
begin

lemma revoke_all_elsewhere: "is_user_key k \<Longrightarrow> kv R (snd (revoke_all R u s)) k = kv R s k"
  using user_key_not_session [of k] by (auto simp: revoke_all_def Let_def kv_del kv_del_fold)

end

lemma redis_user_cache:
  assumes "redis_cache_service R C d" "\<And>x. undump (dump x) = Inr x"
  shows "user_cache (redis_cache R C d) (cache_view R C) (cache_wf R C is_user_key) dump undump (revoke_all R)"
proof -
  have R: "redis_service R" using assms(1) by (simp add: redis_cache_service_def)
  note kv = redis_service.revoke_all_elsewhere [OF R]
  show ?thesis
  proof (intro user_cache.intro redis_cache_service.abstract_cache [OF assms(1)] user_cache_axioms.intro)
    show "undump (dump x) = Inr x" for x by (rule assms(2))
    show "cache_wf R C is_user_key (snd (revoke_all R u s))" if "cache_wf R C is_user_key s" for s u
      using that by (simp add: cache_wf_def cache_entry_def kv)
    show "cache_view R C (snd (revoke_all R u s)) k = cache_view R C s k" if "is_user_key k" for s u k
      using that by (simp add: cache_view_def kv)
  qed
qed

definition reachable ::
  "bool \<Rightarrow> 'r redis \<Rightarrow> 'j codec \<Rightarrow> nat \<Rightarrow> (user_read_detail \<Rightarrow> 'j) \<Rightarrow> ('j \<Rightarrow> exn + user_read_detail) \<Rightarrow> 'r svc \<Rightarrow> bool" where
  "reachable pw R C d dump undump v =
     app_reach pw (redis_cache R C d) (cache_view R C) (cache_wf R C is_user_key) dump undump (revoke_all R) v"

lemma reachable_inv:
  assumes "redis_cache_service R C d" "\<And>x. undump (dump x) = Inr x" "reachable pw R C d dump undump v"
  shows "app_inv pw (cache_view R C) (cache_wf R C is_user_key) dump v"
  using user_cache.inv_reach [OF redis_user_cache [OF assms(1,2)]] assms(3) by (simp add: reachable_def)

subsection \<open>A text form of a cached user\<close>

fun get_texts :: "nat \<Rightarrow> string \<Rightarrow> string list" where
  "get_texts 0 t = []"
| "get_texts (Suc n) t = (if t = [] then [] else let (s, r) = get_text t in s # get_texts n r)"

definition put_texts :: "string list \<Rightarrow> string" where
  "put_texts xs = concat (map put_text xs)"

definition texts_of :: "string \<Rightarrow> string list" where
  "texts_of t = get_texts (length t) t"

lemma get_texts_put: "length xs \<le> n \<Longrightarrow> get_texts n (put_texts xs) = xs"
proof (induction n arbitrary: xs)
  case (Suc n)
  then show ?case by (cases xs) (auto simp: put_texts_def, auto simp: put_text_def)
qed (simp add: put_texts_def)

lemma length_put_texts: "length xs \<le> length (put_texts xs)"
  by (induction xs) (auto simp: put_texts_def put_text_def)

lemma texts_of_put [simp]: "texts_of (put_texts xs) = xs"
  unfolding texts_of_def by (rule get_texts_put [OF length_put_texts])

definition account_text :: "account_read \<Rightarrow> string" where
  "account_text a = put_texts [ar_id a, ar_user_id a, ar_name a, int_text (ar_balance a)]"

definition text_account :: "string \<Rightarrow> account_read" where
  "text_account t = (let x = texts_of t in \<lparr>ar_id = x ! 0, ar_user_id = x ! 1, ar_name = x ! 2, ar_balance = text_int (x ! 3)\<rparr>)"

definition profile_text :: "profile_read option \<Rightarrow> string" where
  "profile_text p = (case p of None \<Rightarrow> [] | Some q \<Rightarrow> put_texts [put_opt (pr_bio q), put_opt (pr_avatar_url q)])"

definition text_profile :: "string \<Rightarrow> profile_read option" where
  "text_profile t = (if t = [] then None
     else let x = texts_of t in Some \<lparr>pr_bio = fst (get_opt (x ! 0)), pr_avatar_url = fst (get_opt (x ! 1))\<rparr>)"

definition user_text :: "user_read_detail \<Rightarrow> string" where
  "user_text u = put_texts [ur_id u, ur_email u, ur_full_name u, if ur_is_active u then ''y'' else [],
     role_value (ur_role u), int_text (ur_created_at u), int_text (ur_updated_at u),
     put_texts (map account_text (ud_accounts u)), profile_text (ud_profile u)]"

definition text_user :: "string \<Rightarrow> exn + user_read_detail" where
  "text_user t = (let x = texts_of t in Inr \<lparr>ur_id = x ! 0, ur_email = x ! 1, ur_full_name = x ! 2,
     ur_is_active = (x ! 3 = ''y''), ur_role = the (role_of (x ! 4)), ur_created_at = text_int (x ! 5),
     ur_updated_at = text_int (x ! 6), ud_accounts = map text_account (texts_of (x ! 7)),
     ud_profile = text_profile (x ! 8)\<rparr>)"

lemma text_account_text [simp]: "text_account (account_text a) = a"
  by (cases a) (simp add: text_account_def account_text_def Let_def)

lemma text_profile_text [simp]: "text_profile (profile_text p) = p"
proof -
  have o: "fst (get_opt (put_opt v)) = v" for v using get_put_opt [of v "[]"] by simp
  have "put_texts (x # xs) \<noteq> []" for x xs by (simp add: put_texts_def put_text_def)
  then show ?thesis by (cases p) (auto simp: text_profile_def profile_text_def Let_def o)
qed

lemma text_user_text: "text_user (user_text u) = Inr u"
  by (cases u) (simp add: text_user_def user_text_def Let_def comp_def)

interpretation mem_user_cache: user_cache "redis_cache mem_redis str_codec 60" "cache_view mem_redis str_codec"
    "cache_wf mem_redis str_codec is_user_key" user_text text_user "revoke_all mem_redis"
  by (rule redis_user_cache [OF mem_redis_cache text_user_text])

text \<open>The history of the witnesses: a user is created, opens an account and puts 70 on it.\<close>

definition no_fault :: engine where
  "no_fault d = None"

definition demo0 :: "mem svc" where
  "demo0 = \<lparr>sv_uow = idle empty_db, sv_redis = Map.empty\<rparr>"

definition demo1 :: "mem svc" where
  "demo1 = snd (create_user no_fault (redis_cache mem_redis str_codec 60) user_text ''u1'' ''e1'' 5
     \<lparr>uc_email = ''a@x.io'', uc_full_name = ''Ann''\<rparr> demo0)"

definition demo2 :: "mem svc" where
  "demo2 = snd (create_account no_fault (redis_cache mem_redis str_codec 60) ''a1'' ''u1'' ''main'' demo1)"

definition demo3 :: "mem svc" where
  "demo3 = snd (deposit no_fault (redis_cache mem_redis str_codec 60) ''t1'' 6 ''a1'' 70 MEMORY [] demo2)"

abbreviation mem_reachable :: "bool \<Rightarrow> mem svc \<Rightarrow> bool" where
  "mem_reachable pw \<equiv> reachable pw mem_redis str_codec 60 user_text text_user"

lemma demo_reach: "mem_reachable pw demo0" "mem_reachable pw demo1" "mem_reachable pw demo2" "mem_reachable pw demo3"
proof -
  show 0: "mem_reachable pw demo0" unfolding reachable_def demo0_def
    by (rule app_reach.Start) (simp_all add: cache_wf_def cache_entry_def cache_view_def mem_defs)
  show 1: "mem_reachable pw demo1" using 0 unfolding reachable_def demo1_def
    by (rule app_reach.Step) (rule app_step.CreateUser)
  show 2: "mem_reachable pw demo2" using 1 unfolding reachable_def demo2_def
    by (rule app_reach.Step) (rule app_step.CreateAccount)
  show "mem_reachable pw demo3" using 2 unfolding reachable_def demo3_def
    by (rule app_reach.Step) (rule app_step.Deposit, simp)
qed

lemma healthy [simp]: "no_fault d = None"
  by (simp add: no_fault_def)

definition demo_u1 :: user_row where
  "demo_u1 = new_user ''u1'' 5 ''a@x.io'' ''Ann'' None USER"

definition demo_acc :: "int \<Rightarrow> account_row" where
  "demo_acc b = \<lparr>a_id = ''a1'', a_user_id = ''u1'', a_name = ''main'', a_balance = b\<rparr>"

definition demo_event :: outbox_row where
  "demo_event = \<lparr>o_id = ''e1'', o_topic = users_created, o_payload = user_created_payload demo_u1, o_key = None,
     o_created_at = 5, o_published_at = None, o_attempts = 0\<rparr>"

definition demo_tx :: transaction_row where
  "demo_tx = \<lparr>t_id = ''t1'', t_account_id = ''a1'', t_amount = 70, t_kind = ''deposit'', t_acquirer = MEMORY, t_created_at = 6\<rparr>"

lemmas exec_defs = tx_defs flush_def commit_def repo_def repo_defs query_defs table_defs in_tx_def with_uow_def
  aenter_def aexit_def rollback_def sv_return_def sv_db_def sv_idle_def opened_def idle_def

lemmas schema_defs = db_ok_def db_constraints_def columns_fit_def fits_bigint_def empty_db_def

lemmas demo_rows = demo_u1_def demo_acc_def demo_event_def demo_tx_def new_user_def DEFAULT_ROLE_def
  users_created_def user_created_payload_def

lemma demo1_db: "sv_uow demo1 = idle (empty_db\<lparr>users := [demo_u1], outbox_messages := [demo_event]\<rparr>)"
  by (simp add: demo1_def demo0_def create_user_def create_tx_def exec_defs schema_defs demo_rows cache_put_def)

lemma demo2_db: "sv_uow demo2 = idle (empty_db\<lparr>users := [demo_u1], outbox_messages := [demo_event], accounts := [demo_acc 0]\<rparr>)"
  by (simp add: demo2_def demo1_db create_account_def create_account_tx_def exec_defs schema_defs demo_rows
      drop_cached_def row_get_def)

lemma demo3_db: "sv_uow demo3 = idle (empty_db\<lparr>users := [demo_u1], outbox_messages := [demo_event],
    accounts := [demo_acc 70], transactions := [demo_tx]\<rparr>)"
  by (simp add: demo3_def demo2_db deposit_def deposit_defs link_categories_def exec_defs schema_defs demo_rows
      drop_cached_def row_get_def row_put_def Let_def)

subsection \<open>Properties\<close>

text \<open>
  C1: The ledger: in every history of the services, with a database that may fail at any point, the
  balance of each account is the sum of the account's transactions, is never negative, fits the
  column, and the account belongs to an existing user.
\<close>

theorem ledger_balances:
  assumes "redis_cache_service R C d" "\<And>x. undump (dump x) = Inr x" "reachable pw R C d dump undump v"
    and "a \<in> set (accounts (sv_db v))"
  shows "a_balance a = sum_list (map t_amount (filter (\<lambda>t. t_account_id t = a_id a) (transactions (sv_db v)))) \<and>
    0 \<le> a_balance a \<and> a_balance a < 2 ^ 63 \<and> a_user_id a \<in> u_id ` set (users (sv_db v))"
proof -
  have inv: "db_ok (sv_db v)" "ledger_ok (sv_db v)"
    using reachable_inv [OF assms(1-3)] by (simp_all add: app_inv_def)
  have "a_balance a = account_sum (sv_db v) (a_id a)" "0 \<le> a_balance a"
    using inv(2) assms(4) unfolding ledger_ok_def by blast+
  moreover have "a_balance a < 2 ^ 63" "a_user_id a \<in> u_id ` set (users (sv_db v))"
    using inv(1) assms(4) unfolding db_ok_def columns_fit_def db_constraints_def list_all_iff fits_bigint_def by blast+
  ultimately show ?thesis by (simp only: account_sum_def)
qed

theorem ledger_balances_witness: "demo_acc 70 \<in> set (accounts (sv_db demo3)) \<and> 0 \<le> a_balance (demo_acc 70)"
proof -
  have "demo_acc 70 \<in> set (accounts (sv_db demo3))" by (simp add: demo3_db sv_db_def)
  with ledger_balances [OF mem_redis_cache text_user_text demo_reach(4)] show ?thesis by blast
qed



text \<open>
  C2: A withdrawal, exactly: for a database that answers, an unknown account gives 404, too little
  money gives 409, and then nothing is changed; otherwise the balance goes down by the amount, one
  transaction of minus the amount is recorded, and the new balance is returned.
\<close>

theorem withdraw_outcome:
  assumes "sv_idle v" "db_ok (sv_db v)" "\<And>d. E d = None" "i \<notin> t_id ` set (transactions (sv_db v))"
    and "0 < amount" "amount < 2 ^ 63"
  shows "case row_get a_id (accounts (sv_db v)) aid of
      None \<Rightarrow> fst (withdraw E Ch i now aid amount acq v) = Inl (NotFoundError ''Account not found'') \<and>
        sv_db (snd (withdraw E Ch i now aid amount acq v)) = sv_db v
    | Some acc \<Rightarrow> if a_balance acc < amount
        then fst (withdraw E Ch i now aid amount acq v) = Inl (ConflictError ''Insufficient funds'') \<and>
          sv_db (snd (withdraw E Ch i now aid amount acq v)) = sv_db v
        else fst (withdraw E Ch i now aid amount acq v) = Inr (account_read_of (acc\<lparr>a_balance := a_balance acc - amount\<rparr>)) \<and>
          sv_db (snd (withdraw E Ch i now aid amount acq v)) =
            moved_db (acc\<lparr>a_balance := a_balance acc - amount\<rparr>) \<lparr>t_id = i, t_account_id = aid, t_amount = - amount,
              t_kind = ''withdrawal'', t_acquirer = acq, t_created_at = now\<rparr> [] (sv_db v)"
proof -
  let ?o = "opened (sv_db v)"
  have ran: "ran E ?o (sv_db v)" using assms(2,3) by simp
  have get: "repo_get E Account aid ?o = (Inr (row_get a_id (accounts (sv_db v)) aid), used Account ?o)"
    using ran by (simp add: runs table_defs)
  show ?thesis
  proof (cases "row_get a_id (accounts (sv_db v)) aid")
    case None
    then have "withdraw_tx E i now aid amount acq ?o = (Inl (NotFoundError ''Account not found''), used Account ?o)"
      by (simp add: withdraw_defs tx_bind_def get tx_fail_def)
    with None show ?thesis
      by (simp add: withdraw_def in_tx_failed [OF assms(1) _ atomic_account_ops(4)])
  next
    case (Some acc)
    have acc: "acc \<in> set (accounts (sv_db v))" "a_id acc = aid" using row_get_Some [OF Some] by auto
    show ?thesis
    proof (cases "a_balance acc < amount")
      case True
      then have "withdraw_tx E i now aid amount acq ?o = (Inl (ConflictError ''Insufficient funds''), used Account ?o)"
        by (simp add: withdraw_defs tx_bind_def get tx_fail_def Some)
      with Some True show ?thesis
        by (simp add: withdraw_def in_tx_failed [OF assms(1) _ atomic_account_ops(4)])
    next
      case False
      let ?acc = "acc\<lparr>a_balance := a_balance acc - amount\<rparr>"
      let ?t = "\<lparr>t_id = i, t_account_id = aid, t_amount = - amount, t_kind = ''withdrawal'', t_acquirer = acq, t_created_at = now\<rparr>"
      let ?d = "moved_db ?acc ?t [] (sv_db v)"
      have "fits_bigint (a_balance acc)"
        using assms(2) acc(1) by (simp add: db_ok_def columns_fit_def list_all_iff)
      with False assms have fits: "fits_bigint (a_balance acc - amount)" "fits_bigint (- amount)"
        by (simp_all add: fits_bigint_def)
      have "db_ok ?d" using moved_ok [OF assms(2) acc(1), of ?acc ?t] acc assms fits by simp
      then have "\<exists>u. withdraw_tx E i now aid amount acq ?o = (Inr (account_read_of ?acc, a_user_id acc), u) \<and> committed u = ?d"
        using False assms(2,3)
        by (simp add: withdraw_defs runs get Some table_defs Let_def moved_db_Nil acc(2) ran_def)
      then obtain u where "withdraw_tx E i now aid amount acq ?o = (Inr (account_read_of ?acc, a_user_id acc), u)" "committed u = ?d"
        by blast
      with Some False show ?thesis
        by (simp add: withdraw_def in_tx_finished [where m = "withdraw_tx E i now aid amount acq", OF assms(1)] drop_cached_def)
    qed
  qed
qed

theorem withdraw_outcome_witness:
  "fst (withdraw no_fault (redis_cache mem_redis str_codec 60) ''t2'' 7 ''a1'' 30 MEMORY demo3) =
     Inr (account_read_of (demo_acc 40)) \<and>
   fst (withdraw no_fault (redis_cache mem_redis str_codec 60) ''t2'' 7 ''a1'' 71 MEMORY demo3) =
     Inl (ConflictError ''Insufficient funds'')"
proof -
  have d: "sv_idle demo3" "db_ok (sv_db demo3)" "''t2'' \<notin> t_id ` set (transactions (sv_db demo3))"
    "row_get a_id (accounts (sv_db demo3)) ''a1'' = Some (demo_acc 70)" "a_balance (demo_acc 70) = 70"
    "(demo_acc 70)\<lparr>a_balance := 40\<rparr> = demo_acc 40"
    by (simp_all add: demo3_db sv_idle_def sv_db_def schema_defs demo_rows row_get_def)
  have run: "fst (withdraw no_fault (redis_cache mem_redis str_codec 60) ''t2'' 7 ''a1'' amount MEMORY demo3) =
      (if 70 < amount then Inl (ConflictError ''Insufficient funds'')
       else Inr (account_read_of ((demo_acc 70)\<lparr>a_balance := 70 - amount\<rparr>)))" if "0 < amount" "amount < 2 ^ 63" for amount
    using withdraw_outcome [where E = no_fault, OF d(1,2) healthy d(3) that,
        where aid = "''a1''" and acq = MEMORY and now = 7 and Ch = "redis_cache mem_redis str_codec 60"] d(4,5)
    by (simp split: if_splits)
  show ?thesis using run [of 30] run [of 71] d(6) by simp
qed

end
