(* ===== verification/Auth_Safety.thy ===== *)
theory Auth_Safety
  imports Auth_Service
begin

section \<open>What authentication promises\<close>

text \<open>
  The properties of login, refresh, logout and the access check over the laws of Redis, PyJWT and
  the hasher: who gets a token, rotation, reuse detection, the effect of logging out, and what two
  refreshes with one token do when they interleave.
\<close>

lemma register_runs:
  assumes "sv_idle v" and run: "register A salt i now data v = (Inr dto, v')"
  shows "sv_db v' = (sv_db v)\<lparr>users := users (sv_db v) @ [new_user i now (rg_email data) (rg_full_name data)
    (Some (hash_password (ae_hasher A) salt (rg_password data))) (rg_role data)]\<rparr>"
proof -
  have at: "atomic (register_tx E i now h data)" for E h
    unfolding register_tx_def by (rule keeps | rule uncommitted_atomic)+
  show ?thesis
  proof (rule in_tx_elim [OF run [unfolded register_def Let_def] assms(1) at], goal_cases)
    case (2 x u)
    then show ?case
      by (auto simp: register_tx_def get_by_email_def runs table_defs ran_def sv_return_def sv_db_def idle_def split: if_splits)
  qed simp
qed

text \<open>
  A sign-up by \<open>register\<close> gets the role that it asks for, any role, and no event tells of it: the count of
  sign-ups does not see it. Blocking a user ends none of the user's sessions: an update touches no key of
  Redis but the cached copy.
\<close>

lemma register_takes_role:
  assumes "sv_idle v" "register A salt i now data v = (Inr dto, v')"
  shows "\<exists>u \<in> set (users (sv_db v')). u_id u = i \<and> u_role u = rg_role data"
  using register_runs [OF assms] by (simp add: new_user_def)

lemma register_emits_no_event:
  assumes "sv_idle v" "register A salt i now data v = (Inr dto, v')"
  shows "outbox_messages (sv_db v') = outbox_messages (sv_db v)"
  using register_runs [OF assms] by simp

lemma blocked_user_keeps_sessions:
  assumes "redis_cache_service R C ttl"
  shows "exists_session R sid (sv_redis (snd (update_user E (redis_cache R C ttl) now uid data v))) =
    exists_session R sid (sv_redis v)"
proof -
  have R: "redis_service R" using assms by (simp add: redis_cache_service_def)
  have "kv R (snd (cache_delete R [user_cache_key uid] s)) (sk sid) = kv R s (sk sid)" for s
    by (simp add: redis_cache_service.kv_cache_delete [OF assms] user_cache_key_def sk_def)
  then show ?thesis
    by (simp add: update_user_def in_tx_def drop_cached_def redis_cache_def exists_session_def
        redis_service.exists_law [OF R] split: prod.split sum.split)
qed

text \<open>
  A change of the password touches the user's row (its \<^verbatim>\<open>updated_at\<close> too) and not the cached copy: until
  that expires, reads answer with what they answered before.
\<close>

lemma change_password_leaves_copy:
  assumes "sv_idle v" and run: "change_password A salt now sub old_pw new_pw v = (Inr (), v')" and uid: "py_uuid sub = Some uid"
    and hit: "ca_get Ch (user_cache_key uid) (sv_redis v) = Inr (Some hit)"
  shows "get_user E Ch dump undump uid v' = (undump hit, v') \<and>
    (\<exists>u. row_get u_id (users (sv_db v')) uid = Some u \<and> u_hashed_password u = Some (hash_password (ae_hasher A) salt new_pw) \<and>
      (row_get u_id (users (sv_db v)) uid \<noteq> Some u \<longrightarrow> u_updated_at u = now))"
proof -
  let ?h = "hash_password (ae_hasher A) salt new_pw"
  have at: "atomic (user_tx E sub)" for E by (simp add: user_tx_def uid uncommitted_atomic keeps)
  have at': "atomic (set_password_tx E now sub ?h)" for E
    unfolding set_password_tx_def by (rule keeps at | rule uncommitted_atomic)+
  obtain found u1 where f: "user_tx (ae_engine A) sub (opened (sv_db v)) = (Inr found, u1)"
    and r1: "in_tx (set_password_tx (ae_engine A) now sub ?h) sv_return (v\<lparr>sv_uow := idle (committed u1)\<rparr>) = (Inr (), v')"
  proof (rule in_tx_elim [OF run [unfolded change_password_def] assms(1) at], goal_cases)
    case (2 x u)
    then show ?thesis using that [of x u] by (simp add: Let_def split: if_splits)
  qed simp
  have d1: "committed u1 = sv_db v" using user_tx_runs [OF f] by auto
  have i: "sv_idle (v\<lparr>sv_uow := idle (committed u1)\<rparr>)" by (simp add: sv_idle_def idle_def)
  obtain x u where s: "set_password_tx (ae_engine A) now sub ?h (opened (sv_db v)) = (Inr x, u)"
    and v': "v' = v\<lparr>sv_uow := idle (committed u)\<rparr>"
  proof (rule in_tx_elim [OF r1 i at'], goal_cases)
    case (2 x u)
    then show ?thesis using that [of x u] d1 by (simp add: sv_return_def sv_db_def idle_def)
  qed simp
  obtain old where old: "row_get u_id (users (sv_db v)) uid = Some old"
    and c: "committed u = with_password now old ?h (sv_db v)"
    using set_password_tx_runs [OF s] uid by auto
  let ?w = "versioned now old (old\<lparr>u_hashed_password := Some ?h\<rparr>)"
  note w = versioned_password [of now old "Some ?h"]
  have k: "uid = u_id ?w" "uid \<in> u_id ` set (users (sv_db v))"
    using row_get_Some [OF old] w(1) by (metis, metis image_eqI)
  have "users (committed u) = row_put u_id ?w (users (sv_db v))" by (simp add: c with_password_def)
  then have new: "row_get u_id (users (committed u)) uid = Some ?w" using row_get_put [of u_id ?w "users (sv_db v)" uid] k by argo
  have v'_sel: "sv_db v' = committed u" "sv_redis v' = sv_redis v" by (simp_all add: v' sv_db_def idle_def)
  have "get_user E Ch dump undump uid v' = (undump hit, v')" by (simp add: get_user_def v'_sel hit)
  moreover have "row_get u_id (users (sv_db v)) uid \<noteq> Some ?w \<longrightarrow> u_updated_at ?w = now" using old w(3) by auto
  ultimately show ?thesis using new w(2) unfolding v'_sel by blast
qed

lemma user_tx_healthy: "py_uuid sub = Some uid \<Longrightarrow> db_ok d \<Longrightarrow> E d = None \<Longrightarrow>
    \<exists>u. user_tx E sub (opened d) = (Inr (row_get u_id (users d) uid), u) \<and> committed u = d"
proof -
  assume a: "py_uuid sub = Some uid" "db_ok d" "E d = None"
  then have "user_tx E sub (opened d) = (Inr (row_get u_id (users d) uid), used User (opened d))"
    by (simp add: user_tx_def runs table_defs)
  then show ?thesis by simp
qed

context redis_service
begin

lemma live_of_owner: "owner R s sid = Some u \<Longrightarrow> live R s sid"
  by (auto simp: owner_def live_def hash_at_def split: option.splits)

lemma revoke_effect:
  assumes "sess_inv R ttl s" "owner R s sid = Some u" "sid \<noteq> []"
  shows "\<not> live R (snd (revoke R sid s)) sid \<and> sess_inv R ttl (snd (revoke R sid s)) \<and>
    (\<forall>x. x \<noteq> sid \<longrightarrow> kv R (snd (revoke R sid s)) (sk x) = kv R s (sk x))"
proof -
  have "kv R (snd (revoke R sid s)) = (let m = set_at R s (uk u) - {sid}; f = (kv R s)(sk sid := None)
     in if m = {} then f(uk u := None) else f(uk u \<mapsto> (RSet m, ttl_of R s (uk u))))"
    using kv_revoke [OF assms(1) live_of_owner [OF assms(2)] assms(3,2)] by blast
  then show ?thesis using inv_revoke [OF assms(1)] by (auto simp: live_def Let_def)
qed

lemma validate_owned:
  assumes "sess_inv R ttl s" "owner R s sid = Some u" "jti \<noteq> []"
  shows "validate R sid jti u s \<longleftrightarrow> current_jti R s sid = Some jti"
proof -
  have "hash_at R s (sk sid) \<noteq> Map.empty" using assms(2) by (auto simp: owner_def)
  then show ?thesis using assms(2,3)
    by (auto simp: validate_iff [OF sess_inv_kinds [OF assms(1)]] dec_def split: option.splits)
qed

lemma validate_dead: "sess_inv R ttl s \<Longrightarrow> \<not> live R s sid \<Longrightarrow> \<not> validate R sid jti u s"
  by (meson sess_inv_kinds validate_live)

end

text \<open>What \<^verbatim>\<open>refresh\<close> does with a token the program issued, while the token is in time.\<close>

lemma refresh_validated_issued:
  assumes "jwt_service (ae_jwt A)" "iat \<le> t" "t < iat + refresh_token_expire_days (ae_settings A) * 86400"
    and "sid \<noteq> []" "jti \<noteq> []"
  shows "refresh_validated A R t (create_refresh_token (ae_jwt A) (ae_settings A) iat sub sid jti) v =
    (if validate R sid jti sub (sv_redis v) then (Inr (sid, sub), v)
     else (Inl (UnauthorizedError ''Refresh token revoked or already used''), revoke_in R sid v))"
  using assms(4,5) by (simp add: refresh_validated_def jwt_service.decode_refresh [OF assms(1-3)])

lemma refresh_rejected:
  assumes "jwt_service (ae_jwt A)" "iat \<le> t" "t < iat + refresh_token_expire_days (ae_settings A) * 86400"
    and "sid \<noteq> []" "jti \<noteq> []" "\<not> validate R sid jti sub (sv_redis v)"
  shows "refresh A R nj t iso_now (create_refresh_token (ae_jwt A) (ae_settings A) iat sub sid jti) v =
    (Inl (UnauthorizedError ''Refresh token revoked or already used''), revoke_in R sid v)"
  using assms(6) by (simp add: refresh_def refresh_validated_issued [OF assms(1-5)])

lemma revoke_in_sel [simp]: "sv_redis (revoke_in R sid v) = snd (revoke R sid (sv_redis v))"
  "sv_db (revoke_in R sid v) = sv_db v" "sv_uow (revoke_in R sid v) = sv_uow v"
  by (simp_all add: revoke_in_def)

definition demo_user :: user_row where
  "demo_user = new_user ''00000000-0000-0000-0000-00000000000a'' 0 ''a@x.io'' ''Ann''
     (Some (hash_password demo_hasher ''salt'' ''secret-1'')) USER"

definition demo_env :: auth_env where
  "demo_env = \<lparr>ae_engine = (\<lambda>_. None), ae_jwt = demo_jwt, ae_hasher = demo_hasher, ae_settings = default_settings\<rparr>"

definition demo_svc :: "mem svc" where
  "demo_svc = \<lparr>sv_uow = idle (empty_db\<lparr>users := [demo_user]\<rparr>),
     sv_redis = snd (create mem_redis (session_ttl demo_env) ''s1'' ''j1'' ''t'' (u_id demo_user) None None Map.empty)\<rparr>"

lemma demo_env_sel [simp]: "ae_engine demo_env = (\<lambda>_. None)" "ae_jwt demo_env = demo_jwt"
  "ae_hasher demo_env = demo_hasher" "ae_settings demo_env = default_settings"
  "session_ttl demo_env = 604800" "refresh_token_expire_days default_settings = 7"
  "access_token_expire_minutes default_settings = 15" "auth_jwt_enabled default_settings"
  "\<not> cookie_auth default_settings"
  by (simp_all add: demo_env_def session_ttl_def sess_ttl_def default_settings_def cookie_auth_def)

lemma demo_uuid: "py_uuid (u_id demo_user) = Some (u_id demo_user)" "u_id demo_user \<noteq> []"
  by (simp_all add: demo_user_def new_user_def, code_simp)

lemma demo_svc_facts:
  "sess_reach mem_redis 604800 (sv_redis demo_svc)" "owner mem_redis (sv_redis demo_svc) ''s1'' = Some (u_id demo_user)"
  "current_jti mem_redis (sv_redis demo_svc) ''s1'' = Some ''j1''" "sv_idle demo_svc" "db_ok (sv_db demo_svc)"
  "row_get u_id (users (sv_db demo_svc)) (u_id demo_user) = Some demo_user" "u_is_active demo_user"
proof -
  have "sess_reach mem_redis 604800 Map.empty" by (rule sess_reach.Start) (simp_all add: mem_defs)
  then show "sess_reach mem_redis 604800 (sv_redis demo_svc)"
    unfolding demo_svc_def svc.simps demo_env_sel
    by (rule sess_reach.Step, intro sess_step.Create) (simp_all add: live_def mem_defs view_defs demo_uuid)
qed (simp_all add: demo_svc_def owner_def current_jti_def create_def sess_mapping_def mem_defs view_defs
      sk_def uk_def sv_idle_def sv_db_def row_get_def db_ok_def db_constraints_def columns_fit_def
      empty_db_def demo_user_def new_user_def)

subsection \<open>Login\<close>

text \<open>
  C8: Login hands out tokens only against the password: when it succeeds there is an active user with
  that e-mail whose password hash accepts the given password, the access token authenticates as this
  user, with its role, until it expires, and the refresh token's session is live and accepts it; when
  it fails no session is created and nothing is changed.
\<close>

theorem login_sound:
  assumes "redis_service R" "jwt_service (ae_jwt A)" "0 < session_ttl A" "sv_idle v"
    and "sess_reach R (session_ttl A) (sv_redis v)" "\<not> live R (sv_redis v) sid" "jti \<noteq> []"
    and "auth_jwt_enabled (ae_settings A)" "0 < access_token_expire_minutes (ae_settings A)"
    and "login A R sid jti now iso_now data ip ua v = (r, v')"
  shows "sv_db v' = sv_db v \<and> (case r of
      Inl e \<Rightarrow> sv_redis v' = sv_redis v
    | Inr p \<Rightarrow> \<exists>u \<in> set (users (sv_db v)). u_email u = lg_email data \<and> u_is_active u \<and>
        verify_password (ae_hasher A) (lg_password data) (u_hashed_password u) \<and>
        decode_token (ae_jwt A) (ae_settings A) now (access_token p) ACCESS = Inr
          \<lparr>tp_sub = u_id u, tp_type = ACCESS, tp_role = Some (u_role u), tp_sid = Some sid, tp_jti = None,
           tp_exp = now + access_token_expire_minutes (ae_settings A) * 60\<rparr> \<and>
        refresh_token p = create_refresh_token (ae_jwt A) (ae_settings A) now (u_id u) sid jti \<and>
        owner R (sv_redis v') sid = Some (u_id u) \<and> current_jti R (sv_redis v') sid = Some jti)"
proof -
  let ?m = "snapshot_tx (ae_engine A) (lg_email data)"
  have at: "atomic ?m" by (rule uncommitted_atomic) (rule keeps)
  have inv: "sess_inv R (session_ttl A) (sv_redis v)"
    by (rule redis_service.inv_reach [OF assms(1,5,3)])
  show ?thesis
  proof (rule in_tx_elim [OF assms(10) [unfolded login_def] assms(4) at], goal_cases)
    case (1 e)
    then show ?case by simp
  next
    case (2 x u0)
    from snapshot_runs [OF 2(1)] have x: "committed u0 = sv_db v" "x = find (\<lambda>r. u_email r = lg_email data) (users (sv_db v))"
      by auto
    show ?case
    proof (cases "\<exists>u. x = Some u \<and> verify_password (ae_hasher A) (lg_password data) (u_hashed_password u) \<and> u_is_active u")
      case True
      then obtain u where u: "x = Some u" "verify_password (ae_hasher A) (lg_password data) (u_hashed_password u)"
        "u_is_active u" by blast
      define s' where "s' = snd (create R (session_ttl A) sid jti iso_now (u_id u) ip ua (sv_redis v))"
      have c: "create R (session_ttl A) sid jti iso_now (u_id u) ip ua (sv_redis v) = ((sid, jti), s')"
        by (simp add: s'_def create_def Let_def)
      have r: "r = Inr (pair A now (u_id u) (u_role u) sid jti)" "sv_redis v' = s'" "sv_db v' = sv_db v"
        using 2(2) u c x by auto
      have "kv R (sv_redis v) (sk sid) = None" using assms(6) by (simp only: live_def not_not)
      then have h: "hash_at R s' (sk sid) = map_of (sess_mapping (u_id u) jti iso_now ip ua)"
        using redis_service.kv_create [OF assms(1) sess_inv_kinds [OF inv] assms(3)]
        by (simp add: hash_at_def s'_def)
      have "u \<in> set (users (sv_db v)) \<and> u_email u = lg_email data"
        using find_SomeD [of _ _ u] x(2) u(1) by auto
      moreover have "decode_token (ae_jwt A) (ae_settings A) now (access_token (pair A now (u_id u) (u_role u) sid jti)) ACCESS
        = Inr \<lparr>tp_sub = u_id u, tp_type = ACCESS, tp_role = Some (u_role u), tp_sid = Some sid, tp_jti = None,
           tp_exp = now + access_token_expire_minutes (ae_settings A) * 60\<rparr>"
        unfolding pair_def token_pair.simps by (rule jwt_service.decode_access [OF assms(2)]) (use assms(9) in auto)
      ultimately show ?thesis using r u h
        by (auto simp: owner_def current_jti_def sess_mapping_def pair_def)
    next
      case False
      then show ?thesis using 2(2) x by (auto split: option.splits if_splits)
    qed
  qed
qed

theorem login_sound_witness:
  "let (r, v) = login demo_env mem_redis ''s2'' ''j2'' 1000 ''t'' \<lparr>lg_email = ''a@x.io'', lg_password = ''secret-1''\<rparr>
     None None demo_svc
   in \<exists>p. r = Inr p \<and> owner mem_redis (sv_redis v) ''s2'' = Some (u_id demo_user)"
proof -
  let ?d = "\<lparr>lg_email = ''a@x.io'', lg_password = ''secret-1''\<rparr>"
  have "snapshot_tx (\<lambda>_. None) ''a@x.io'' (opened (sv_db demo_svc)) = (Inr (Some demo_user), used User (opened (sv_db demo_svc)))"
    by (simp add: snapshot_tx_def get_by_email_def runs table_defs demo_svc_facts)
      (simp add: demo_svc_def sv_db_def demo_user_def new_user_def)
  moreover have "verify_password demo_hasher ''secret-1'' (u_hashed_password demo_user)"
    by (simp add: demo_user_def new_user_def demo_hasher.verify_hashed)
  ultimately obtain p v where run: "login demo_env mem_redis ''s2'' ''j2'' 1000 ''t'' ?d None None demo_svc = (Inr p, v)"
    by (auto simp: login_def in_tx_finished demo_svc_facts create_def Let_def)
  have "\<not> live mem_redis (sv_redis demo_svc) ''s2''"
    by (simp add: demo_svc_def live_def create_def mem_defs sk_def uk_def)
  from login_sound [OF mem_redis_service _ _ demo_svc_facts(4) _ this _ _ _ run] demo_jwt_service
  obtain u where "u \<in> set (users (sv_db demo_svc))" "owner mem_redis (sv_redis v) ''s2'' = Some (u_id u)"
    by (auto simp: demo_svc_facts)
  then show ?thesis unfolding run by (auto simp: demo_svc_def sv_db_def)
qed

subsection \<open>Refresh\<close>

text \<open>
  C9: Rotation: a refresh with the session's current token, for an active user and a database that
  answers, returns a new pair for that user with its present role; after it the session accepts the
  new identifier only.
\<close>

theorem refresh_rotates:
  assumes "redis_service R" "jwt_service (ae_jwt A)" "0 < session_ttl A" "sv_idle v"
    and "sess_reach R (session_ttl A) (sv_redis v)" "sid \<noteq> []" "jti \<noteq> []" "nj \<noteq> []"
    and "iat \<le> t" "t < iat + refresh_token_expire_days (ae_settings A) * 86400"
    and "owner R (sv_redis v) sid = Some sub" "current_jti R (sv_redis v) sid = Some jti"
    and "py_uuid sub = Some uid" "row_get u_id (users (sv_db v)) uid = Some u" "u_is_active u"
    and "db_ok (sv_db v)" "ae_engine A (sv_db v) = None"
  shows "\<exists>v'. refresh A R nj t iso_now (create_refresh_token (ae_jwt A) (ae_settings A) iat sub sid jti) v =
      (Inr (pair A t uid (u_role u) sid nj), v') \<and> sv_db v' = sv_db v \<and> sv_idle v' \<and>
      sess_reach R (session_ttl A) (sv_redis v') \<and> owner R (sv_redis v') sid = Some sub \<and>
      current_jti R (sv_redis v') sid = Some nj"
proof -
  let ?s = "sv_redis v" and ?ttl = "session_ttl A"
  have inv: "sess_inv R ?ttl ?s" by (rule redis_service.inv_reach [OF assms(1,5,3)])
  have val: "validate R sid jti sub ?s"
    using redis_service.validate_owned [OF assms(1) inv assms(11,7)] assms(12) by simp
  define s' where "s' = snd (rotate R ?ttl nj iso_now sid sub ?s)"
  note rot = rotate_newest [OF assms(1,3,5,11), of nj iso_now nj]
  have r: "rotate R ?ttl nj iso_now sid sub ?s = (Some nj, s')"
    using rot by (simp add: s'_def prod_eq_iff)
  have reach: "sess_reach R ?ttl s'"
    unfolding s'_def by (rule sess_reach.Step [OF assms(5)]) (rule sess_step.Rotate)
  have own: "owner R s' sid = Some sub" "validate R sid nj sub s'" using rot by (simp_all add: s'_def)
  then have cur: "current_jti R s' sid = Some nj"
    using redis_service.validate_owned [OF assms(1) redis_service.inv_reach [OF assms(1) reach assms(3)] own(1) assms(8)]
    by simp
  obtain u' where t: "user_tx (ae_engine A) sub (opened (sv_db v)) = (Inr (Some u), u')" "committed u' = sv_db v"
    using user_tx_healthy [where E = "ae_engine A", OF assms(13,16,17)] assms(14) by auto
  have i: "sv_idle (v\<lparr>sv_redis := s'\<rparr>)" "user_tx (ae_engine A) sub (opened (sv_db (v\<lparr>sv_redis := s'\<rparr>))) = (Inr (Some u), u')"
    using assms(4) t(1) by simp_all
  have "u_id u = uid" using row_get_Some [OF assms(14)] by simp
  then have "refresh A R nj t iso_now (create_refresh_token (ae_jwt A) (ae_settings A) iat sub sid jti) v =
      (Inr (pair A t uid (u_role u) sid nj), v\<lparr>sv_redis := s', sv_uow := idle (sv_db v)\<rparr>)"
    using val assms(15)
    by (simp add: refresh_def refresh_validated_issued [OF assms(2,9,10,6,7)] refresh_rotated_def r
        in_tx_finished [where m = "user_tx (ae_engine A) sub", OF i] t(2))
  with reach own cur show ?thesis by simp
qed

theorem refresh_rotates_witness:
  "\<exists>v'. refresh demo_env mem_redis ''j2'' 1000 ''t''
      (create_refresh_token demo_jwt default_settings 0 (u_id demo_user) ''s1'' ''j1'') demo_svc =
      (Inr (pair demo_env 1000 (u_id demo_user) USER ''s1'' ''j2''), v') \<and>
      current_jti mem_redis (sv_redis v') ''s1'' = Some ''j2''"
proof -
  have "u_role demo_user = USER" by (simp add: demo_user_def new_user_def)
  then show ?thesis
    using refresh_rotates [OF mem_redis_service _ _ demo_svc_facts(4), of demo_env "''s1''" "''j1''" "''j2''" 0 1000
        "u_id demo_user" "u_id demo_user" demo_user] demo_jwt_service demo_uuid demo_svc_facts
    by auto
qed

text \<open>
  C10: Reuse detection: a refresh token whose identifier is not the session's current one, an older one
  of the same session, is refused with 401, nothing in the database changes, and the whole session is
  revoked: it is dead for every token, while all other sessions are as before.
\<close>

theorem refresh_reuse_revokes:
  assumes "redis_service R" "jwt_service (ae_jwt A)" "0 < session_ttl A"
    and "sess_reach R (session_ttl A) (sv_redis v)" "sid \<noteq> []" "jti \<noteq> []"
    and "iat \<le> t" "t < iat + refresh_token_expire_days (ae_settings A) * 86400"
    and "owner R (sv_redis v) sid = Some sub" "current_jti R (sv_redis v) sid \<noteq> Some jti"
  shows "\<exists>v' e. refresh A R nj t iso_now (create_refresh_token (ae_jwt A) (ae_settings A) iat sub sid jti) v = (Inl e, v') \<and>
      he_status (handle_exception rid e) = 401 \<and> sv_db v' = sv_db v \<and>
      \<not> exists_session R sid (sv_redis v') \<and> \<not> validate R sid j sub (sv_redis v') \<and>
      (other = sid \<or> kv R (sv_redis v') (sk other) = kv R (sv_redis v) (sk other))"
proof -
  have inv: "sess_inv R (session_ttl A) (sv_redis v)" by (rule redis_service.inv_reach [OF assms(1,4,3)])
  have "\<not> validate R sid jti sub (sv_redis v)"
    using redis_service.validate_owned [OF assms(1) inv assms(9,6)] assms(10) by simp
  note r = refresh_rejected [OF assms(2,7,8,5,6) this, where nj = nj and iso_now = iso_now]
  note e = redis_service.revoke_effect [OF assms(1) inv assms(9,5)]
  have "\<not> exists_session R sid (snd (revoke R sid (sv_redis v)))"
    using e redis_service.exists_law [OF assms(1)] by (simp add: exists_session_def live_def)
  moreover have "\<not> validate R sid j sub (snd (revoke R sid (sv_redis v)))"
    using e redis_service.validate_dead [OF assms(1)] by blast
  ultimately show ?thesis using e by (auto simp: r handle_controlled render_def)
qed

theorem refresh_reuse_revokes_witness:
  "\<exists>v' e. refresh demo_env mem_redis ''j9'' 1000 ''t''
      (create_refresh_token demo_jwt default_settings 0 (u_id demo_user) ''s1'' ''j0'') demo_svc = (Inl e, v') \<and>
      he_status (handle_exception None e) = 401 \<and> \<not> exists_session mem_redis ''s1'' (sv_redis v')"
  using refresh_reuse_revokes [OF mem_redis_service, of demo_env demo_svc "''s1''" "''j0''" 0 1000 "u_id demo_user"
      "''j9''" "''t''" None "''j''" "''x''"] demo_jwt_service demo_svc_facts
  by auto

text \<open>
  The token is used up before the user is read: when the database fails there, the client has got no new
  token, and its repetition with the old one counts as a reuse and ends the session.
\<close>

lemma refresh_fault_ends_session:
  assumes "redis_service R" "jwt_service (ae_jwt A)" "0 < session_ttl A" "sv_idle v"
    and "sess_reach R (session_ttl A) (sv_redis v)" "sid \<noteq> []" "jti \<noteq> []" "nj \<noteq> jti"
    and "iat \<le> t" "t \<le> t'" "t' < iat + refresh_token_expire_days (ae_settings A) * 86400"
    and "owner R (sv_redis v) sid = Some sub" "current_jti R (sv_redis v) sid = Some jti"
    and "py_uuid sub = Some uid" "db_ok (sv_db v)" "ae_engine A (sv_db v) = Some fault"
  shows "\<exists>v1 v2 e. refresh A R nj t n (create_refresh_token (ae_jwt A) (ae_settings A) iat sub sid jti) v = (Inl fault, v1) \<and>
    refresh (A\<lparr>ae_engine := E'\<rparr>) R nj' t' n' (create_refresh_token (ae_jwt A) (ae_settings A) iat sub sid jti) v1 = (Inl e, v2) \<and>
    he_status (handle_exception rid e) = 401 \<and> \<not> exists_session R sid (sv_redis v2)"
proof -
  let ?s = "sv_redis v" and ?ttl = "session_ttl A" and ?A' = "A\<lparr>ae_engine := E'\<rparr>"
  have t: "t < iat + refresh_token_expire_days (ae_settings A) * 86400" "iat \<le> t'" using assms(9-11) by simp_all
  have inv: "sess_inv R ?ttl ?s" by (rule redis_service.inv_reach [OF assms(1,5,3)])
  have val: "validate R sid jti sub ?s"
    using redis_service.validate_owned [OF assms(1) inv assms(12,7)] assms(13) by simp
  define s' where "s' = snd (rotate R ?ttl nj n sid sub ?s)"
  note rot = rotate_newest [OF assms(1,3,5,12), of nj n]
  have r: "rotate R ?ttl nj n sid sub ?s = (Some nj, s')" and own: "owner R s' sid = Some sub"
    and used: "\<not> validate R sid jti sub s'"
    using rot [of jti] assms(8) by (simp_all add: s'_def prod_eq_iff)
  have inv': "sess_inv R ?ttl s'" unfolding s'_def by (rule redis_service.inv_rotate [OF assms(1) inv assms(3)])
  let ?v1 = "v\<lparr>sv_redis := s', sv_uow := idle (sv_db v)\<rparr>"
  have "\<exists>u. user_tx (ae_engine A) sub (opened (sv_db (v\<lparr>sv_redis := s'\<rparr>))) = (Inl fault, u)"
    using assms(14-16) by (simp add: user_tx_def repo_get_def repo_def tx_query_def flush_def tx_defs opened_def table_defs idle_def db_ok_def)
  then obtain u where f: "user_tx (ae_engine A) sub (opened (sv_db (v\<lparr>sv_redis := s'\<rparr>))) = (Inl fault, u)" by blast
  have i: "sv_idle (v\<lparr>sv_redis := s'\<rparr>)" using assms(4) by simp
  have "refresh A R nj t n (create_refresh_token (ae_jwt A) (ae_settings A) iat sub sid jti) v = (Inl fault, ?v1)"
    using val in_tx_failed [where m = "user_tx (ae_engine A) sub", OF i f uncommitted_atomic [OF uncommitted_auth(2)]]
    by (simp add: refresh_def refresh_validated_issued [OF assms(2,9) t(1) assms(6,7)] refresh_rotated_def r)
  moreover have "refresh ?A' R nj' t' n' (create_refresh_token (ae_jwt A) (ae_settings A) iat sub sid jti) ?v1 =
      (Inl (UnauthorizedError ''Refresh token revoked or already used''), revoke_in R sid ?v1)"
    using refresh_rejected [of ?A', where iat = iat and t = t' and v = ?v1 and nj = nj' and iso_now = n', OF _ t(2) _ assms(6,7)]
      used assms(2,11) by simp
  moreover have "\<not> exists_session R sid (sv_redis (revoke_in R sid ?v1))"
    using redis_service.revoke_effect [OF assms(1) inv' own assms(6)] redis_service.exists_law [OF assms(1)]
    by (simp add: exists_session_def live_def)
  ultimately show ?thesis by (intro exI conjI) (assumption | simp add: handle_controlled render_def)+
qed

text \<open>
  A refresh for a user that is gone or inactive is refused with 401 and the session is dead
  afterwards, although its token was valid.
\<close>

theorem refresh_inactive_user:
  assumes "redis_service R" "jwt_service (ae_jwt A)" "0 < session_ttl A" "sv_idle v"
    and "sess_reach R (session_ttl A) (sv_redis v)" "sid \<noteq> []" "jti \<noteq> []"
    and "iat \<le> t" "t < iat + refresh_token_expire_days (ae_settings A) * 86400"
    and "owner R (sv_redis v) sid = Some sub" "current_jti R (sv_redis v) sid = Some jti"
    and "py_uuid sub = Some uid" "\<And>u. row_get u_id (users (sv_db v)) uid = Some u \<Longrightarrow> \<not> u_is_active u"
    and "db_ok (sv_db v)" "ae_engine A (sv_db v) = None"
  shows "\<exists>v'. refresh A R nj t iso_now (create_refresh_token (ae_jwt A) (ae_settings A) iat sub sid jti) v =
      (Inl (UnauthorizedError ''User not found or inactive''), v') \<and> sv_db v' = sv_db v \<and>
      \<not> exists_session R sid (sv_redis v')"
proof -
  let ?s = "sv_redis v" and ?ttl = "session_ttl A"
  have inv: "sess_inv R ?ttl ?s" by (rule redis_service.inv_reach [OF assms(1,5,3)])
  have val: "validate R sid jti sub ?s"
    using redis_service.validate_owned [OF assms(1) inv assms(10,7)] assms(11) by simp
  define s' where "s' = snd (rotate R ?ttl nj iso_now sid sub ?s)"
  note rot = rotate_newest [OF assms(1,3,5,10), of nj iso_now nj]
  have r: "rotate R ?ttl nj iso_now sid sub ?s = (Some nj, s')" and own: "owner R s' sid = Some sub"
    using rot by (simp_all add: s'_def prod_eq_iff)
  have inv': "sess_inv R ?ttl s'" unfolding s'_def by (rule redis_service.inv_rotate [OF assms(1) inv assms(3)])
  obtain u' where t: "user_tx (ae_engine A) sub (opened (sv_db v)) = (Inr (row_get u_id (users (sv_db v)) uid), u')"
    "committed u' = sv_db v"
    using user_tx_healthy [where E = "ae_engine A", OF assms(12,14,15)] by auto
  have i: "sv_idle (v\<lparr>sv_redis := s'\<rparr>)"
    "user_tx (ae_engine A) sub (opened (sv_db (v\<lparr>sv_redis := s'\<rparr>))) = (Inr (row_get u_id (users (sv_db v)) uid), u')"
    using assms(4) t(1) by simp_all
  let ?v' = "revoke_in R sid (v\<lparr>sv_redis := s', sv_uow := idle (sv_db v)\<rparr>)"
  have "refresh A R nj t iso_now (create_refresh_token (ae_jwt A) (ae_settings A) iat sub sid jti) v =
      (Inl (UnauthorizedError ''User not found or inactive''), ?v')"
    using val assms(13)
    by (auto simp: refresh_def refresh_validated_issued [OF assms(2,8,9,6,7)] refresh_rotated_def r
        in_tx_finished [where m = "user_tx (ae_engine A) sub", OF i] t(2) split: option.split)
  moreover have "\<not> live R (sv_redis ?v') sid"
    using redis_service.revoke_effect [OF assms(1) inv' own assms(6)] by simp
  ultimately show ?thesis using redis_service.exists_law [OF assms(1)] by (auto simp: exists_session_def live_def)
qed

theorem refresh_inactive_user_witness:
  "\<exists>v'. refresh demo_env mem_redis ''j2'' 1000 ''t''
      (create_refresh_token demo_jwt default_settings 0 (u_id demo_user) ''s1'' ''j1'')
      (demo_svc\<lparr>sv_uow := idle empty_db\<rparr>) = (Inl (UnauthorizedError ''User not found or inactive''), v') \<and>
      \<not> exists_session mem_redis ''s1'' (sv_redis v')"
proof -
  have n: "row_get u_id (users empty_db) i = None" for i by (simp add: row_get_def empty_db_def)
  show ?thesis
    using refresh_inactive_user [OF mem_redis_service, of demo_env "demo_svc\<lparr>sv_uow := idle empty_db\<rparr>" "''s1''" "''j1''" 0 1000
        "u_id demo_user" "u_id demo_user" "''j2''" "''t''"] demo_jwt_service demo_uuid demo_svc_facts n
    by (auto simp: sv_db_def sv_idle_def)
qed

subsection \<open>Logging out\<close>



text \<open>
  Access and refresh tokens are not interchangeable: a refresh token never authenticates a request,
  and an access token never refreshes; both are refused with 401 at any time, expired or not.
\<close>

theorem token_types_separated:
  assumes "jwt_service (ae_jwt A)" "auth_jwt_enabled (ae_settings A)" "iat \<le> t"
  shows "(let tok = create_refresh_token (ae_jwt A) (ae_settings A) iat sub sid jti
     in \<exists>e. get_current_user A R t \<lparr>rq_access_cookie = Some tok, rq_bearer = Some tok\<rparr> s = Inl e \<and>
        he_status (handle_exception rid e) = 401) \<and>
    (\<exists>e. refresh A R nj t iso_now (create_access_token (ae_jwt A) (ae_settings A) iat sub r sid) v = (Inl e, v) \<and>
        he_status (handle_exception rid e) = 401)"
proof -
  obtain m m' where "decode_token (ae_jwt A) (ae_settings A) t
      (create_refresh_token (ae_jwt A) (ae_settings A) iat sub sid jti) ACCESS = Inl (TokenError m)"
    "decode_token (ae_jwt A) (ae_settings A) t
      (create_access_token (ae_jwt A) (ae_settings A) iat sub r sid) REFRESH = Inl (TokenError m')"
    using jwt_service.decode_refresh_as_access [OF assms(1,3)] jwt_service.decode_wrong_type [OF assms(1) _ assms(3)]
    by (metis token_type.distinct(1))
  then show ?thesis
    using assms(2) by (auto simp: get_current_user_def refresh_def refresh_validated_def Let_def
        handle_controlled render_def)
qed

theorem token_types_separated_witness:
  "\<exists>e. get_current_user demo_env mem_redis 5
      \<lparr>rq_access_cookie = Some (create_refresh_token demo_jwt default_settings 0 ''u'' ''s1'' ''j1''),
       rq_bearer = Some (create_refresh_token demo_jwt default_settings 0 ''u'' ''s1'' ''j1'')\<rparr> Map.empty = Inl e \<and>
     he_status (handle_exception None e) = 401"
  using token_types_separated [of demo_env 0 5 "''u''" "''s1''" "''j1''" mem_redis Map.empty None] demo_jwt_service
  by (auto simp: Let_def)

subsection \<open>Two refreshes with one token\<close>

text \<open>
  The check and the rotation of \<^verbatim>\<open>refresh\<close> are two steps: two requests with the same current token
  that both pass the check before either rotates both get a pair, and the first one's new refresh
  token is then stale, so that its honest use is taken for a reuse and ends the session.
\<close>

theorem concurrent_refresh_race:
  assumes "redis_service R" "jwt_service (ae_jwt A)" "0 < session_ttl A" "sv_idle v"
    and "sess_reach R (session_ttl A) (sv_redis v)" "sid \<noteq> []" "jti \<noteq> []" "n1 \<noteq> []" "n2 \<noteq> []" "n1 \<noteq> n2"
    and "iat \<le> t" "t < iat + refresh_token_expire_days (ae_settings A) * 86400" "0 < refresh_token_expire_days (ae_settings A)"
    and "owner R (sv_redis v) sid = Some sub" "current_jti R (sv_redis v) sid = Some jti"
    and "py_uuid sub = Some sub" "row_get u_id (users (sv_db v)) sub = Some u" "u_is_active u"
    and "db_ok (sv_db v)" "ae_engine A (sv_db v) = None"
  shows "let tok = create_refresh_token (ae_jwt A) (ae_settings A) iat sub sid jti in
    \<exists>p1 p2 v1 v2 v3.
      refresh_validated A R t tok v = (Inr (sid, sub), v) \<and>
      refresh_rotated A R n1 t iso_now (sid, sub) v = (Inr p1, v1) \<and>
      refresh_rotated A R n2 t iso_now (sid, sub) v1 = (Inr p2, v2) \<and>
      refresh A R n3 t iso_now (refresh_token p1) v2 =
        (Inl (UnauthorizedError ''Refresh token revoked or already used''), v3) \<and>
      \<not> exists_session R sid (sv_redis v3)"
proof -
  let ?ttl = "session_ttl A"
  have uid: "u_id u = sub" using row_get_Some [OF assms(17)] by simp
  have step: "\<exists>s'. refresh_rotated A R nj t iso_now (sid, sub) w =
        (Inr (pair A t sub (u_role u) sid nj), w\<lparr>sv_redis := s', sv_uow := idle (sv_db w)\<rparr>) \<and>
        sess_reach R ?ttl s' \<and> owner R s' sid = Some sub \<and> (nj = [] \<or> current_jti R s' sid = Some nj)"
    if w: "sv_idle w" "sv_db w = sv_db v" "sess_reach R ?ttl (sv_redis w)" "owner R (sv_redis w) sid = Some sub" for w nj
  proof -
    define s' where "s' = snd (rotate R ?ttl nj iso_now sid sub (sv_redis w))"
    note rot = rotate_newest [OF assms(1,3) w(3,4), of nj iso_now nj]
    have r: "rotate R ?ttl nj iso_now sid sub (sv_redis w) = (Some nj, s')"
      using rot by (simp add: s'_def prod_eq_iff)
    have reach: "sess_reach R ?ttl s'"
      unfolding s'_def by (rule sess_reach.Step [OF w(3)]) (rule sess_step.Rotate)
    have own: "owner R s' sid = Some sub" "validate R sid nj sub s'" using rot by (simp_all add: s'_def)
    have cur: "nj = [] \<or> current_jti R s' sid = Some nj"
      using redis_service.validate_owned [OF assms(1) redis_service.inv_reach [OF assms(1) reach assms(3)] own(1), of nj]
        own(2) by auto
    obtain u' where t: "user_tx (ae_engine A) sub (opened (sv_db w)) = (Inr (Some u), u')" "committed u' = sv_db w"
      using user_tx_healthy [where E = "ae_engine A", OF assms(16,19,20)] assms(17) w(2) by auto
    have i: "sv_idle (w\<lparr>sv_redis := s'\<rparr>)"
      "user_tx (ae_engine A) sub (opened (sv_db (w\<lparr>sv_redis := s'\<rparr>))) = (Inr (Some u), u')"
      using w(1) t(1) by simp_all
    have "refresh_rotated A R nj t iso_now (sid, sub) w =
        (Inr (pair A t sub (u_role u) sid nj), w\<lparr>sv_redis := s', sv_uow := idle (sv_db w)\<rparr>)"
      using assms(18) uid
      by (simp add: refresh_rotated_def r in_tx_finished [where m = "user_tx (ae_engine A) sub", OF i] t(2))
    with reach own(1) cur show ?thesis by blast
  qed
  have inv: "sess_inv R ?ttl (sv_redis v)" by (rule redis_service.inv_reach [OF assms(1,5,3)])
  have val: "refresh_validated A R t (create_refresh_token (ae_jwt A) (ae_settings A) iat sub sid jti) v = (Inr (sid, sub), v)"
    using redis_service.validate_owned [OF assms(1) inv assms(14,7)] assms(15)
    by (simp add: refresh_validated_issued [OF assms(2,11,12,6,7)])
  obtain s1 where 1: "refresh_rotated A R n1 t iso_now (sid, sub) v =
      (Inr (pair A t sub (u_role u) sid n1), v\<lparr>sv_redis := s1, sv_uow := idle (sv_db v)\<rparr>)"
      "sess_reach R ?ttl s1" "owner R s1 sid = Some sub"
    using step [OF assms(4) refl assms(5,14), of n1] by blast
  let ?v1 = "v\<lparr>sv_redis := s1, sv_uow := idle (sv_db v)\<rparr>"
  obtain s2 where 2: "refresh_rotated A R n2 t iso_now (sid, sub) ?v1 =
      (Inr (pair A t sub (u_role u) sid n2), ?v1\<lparr>sv_redis := s2, sv_uow := idle (sv_db ?v1)\<rparr>)"
      "sess_reach R ?ttl s2" "owner R s2 sid = Some sub" "current_jti R s2 sid = Some n2"
    using step [of ?v1 n2] 1 assms(9) by auto
  let ?v2 = "?v1\<lparr>sv_redis := s2, sv_uow := idle (sv_db ?v1)\<rparr>"
  have inv2: "sess_inv R ?ttl s2" by (rule redis_service.inv_reach [OF assms(1) 2(2) assms(3)])
  have "\<not> validate R sid n1 sub (sv_redis ?v2)"
    using redis_service.validate_owned [OF assms(1) inv2 2(3) assms(8)] 2(4) assms(10) by simp
  then have 3: "refresh A R n3 t iso_now (refresh_token (pair A t sub (u_role u) sid n1)) ?v2 =
      (Inl (UnauthorizedError ''Refresh token revoked or already used''), revoke_in R sid ?v2)"
    using refresh_rejected [OF assms(2), of t t sid n1 R sub ?v2 n3 iso_now] assms(6,8,13) by (simp add: pair_def)
  have "\<not> exists_session R sid (sv_redis (revoke_in R sid ?v2))"
    using redis_service.revoke_effect [OF assms(1) inv2 2(3) assms(6)] redis_service.exists_law [OF assms(1)]
    by (simp add: exists_session_def live_def)
  with val 1(1) 2(1) 3 show ?thesis unfolding Let_def by blast
qed

theorem concurrent_refresh_race_witness:
  "\<exists>p1 p2 v1 v2. refresh_rotated demo_env mem_redis ''n1'' 1000 ''t'' (''s1'', u_id demo_user) demo_svc = (Inr p1, v1) \<and>
      refresh_rotated demo_env mem_redis ''n2'' 1000 ''t'' (''s1'', u_id demo_user) v1 = (Inr p2, v2)"
  using concurrent_refresh_race [OF mem_redis_service, of demo_env demo_svc "''s1''" "''j1''" "''n1''" "''n2''" 0 1000
      "u_id demo_user" demo_user "''t''" "''n3''"] demo_jwt_service demo_uuid demo_svc_facts
  by (auto simp: Let_def)

subsection \<open>Roles\<close>

text \<open>
  The access rules: with tokens switched on, \<^verbatim>\<open>require_roles\<close> lets exactly the listed roles through and
  \<^verbatim>\<open>require_at_least\<close> exactly the roles whose level is not lower, every other principal gets 403; who
  passes a rule for a role passes it for every lower role; with tokens off everybody passes.
\<close>

theorem access_rules:
  "(require_roles c rs cu = (if auth_jwt_enabled c \<and> cu_role cu \<notin> set rs
       then Inl (ForbiddenError ''Insufficient role'') else Inr cu)) \<and>
   (require_at_least c m cu = Inr cu \<longleftrightarrow> \<not> auth_jwt_enabled c \<or> role_at_least (cu_role cu) m) \<and>
   (require_at_least c m cu = Inr cu \<and> role_at_least m m' \<longrightarrow> require_at_least c m' cu = Inr cu) \<and>
   (case require_at_least c m cu of Inl e \<Rightarrow> he_status (handle_exception rid e) = 403 | Inr x \<Rightarrow> x = cu)"
  using role_at_least_trans
  by (auto simp: require_roles_def require_at_least_def handle_controlled render_def)

theorem access_rules_witness:
  "require_at_least default_settings MANAGER \<lparr>cu_id = ''u'', cu_role = ADMIN, cu_sid = None\<rparr> =
     Inr \<lparr>cu_id = ''u'', cu_role = ADMIN, cu_sid = None\<rparr>"
  using access_rules [of default_settings "[]" "\<lparr>cu_id = ''u'', cu_role = ADMIN, cu_sid = None\<rparr>" MANAGER]
  by (simp add: role_at_least_def)

end
