(* ===== verification/Idem_Concurrency.thy ===== *)
theory Idem_Concurrency
  imports Idempotency
begin

section \<open>Concurrent requests with one idempotency key\<close>

text \<open>
  Any number of coroutines run \<^verbatim>\<open>idempotent()\<close> with the same key. The event loop and several
  workers interleave them at every \<^verbatim>\<open>await\<close>, so each Redis command of
  \<^verbatim>\<open>IdempotencyStore.try_acquire\<close>, \<^verbatim>\<open>save_response\<close> and \<^verbatim>\<open>release\<close> and the body of \<^verbatim>\<open>produce()\<close>
  is a step of its own. \<open>i_runs\<close> counts the executions of \<^verbatim>\<open>produce()\<close> that returned.
\<close>

datatype 'a idem_pc =
    Start
  | Reading
  | Producing
  | Saving 'a
  | Releasing exn
  | Finished "exn + 'a"

record ('r, 'a) idem_sys =
  i_redis :: 'r
  i_pc :: "nat \<Rightarrow> 'a idem_pc"
  i_runs :: nat

text \<open>
  \<open>may_expire\<close> says whether the time to live of the claim can run out during the run.
\<close>

inductive idem_step ::
  "bool \<Rightarrow> 'r redis \<Rightarrow> 'j codec \<Rightarrow> nat \<Rightarrow> ('a \<Rightarrow> 'j) \<Rightarrow> ('j \<Rightarrow> exn + 'a) \<Rightarrow> string \<Rightarrow>
   ('r, 'a) idem_sys \<Rightarrow> ('r, 'a) idem_sys \<Rightarrow> bool"
  for may_expire R C ttl dump validate key where
  claim_won: "i_pc S i = Start \<Longrightarrow>
    r_set_nx R (idem_key key) IN_PROGRESS ttl (i_redis S) = (True, s') \<Longrightarrow>
    idem_step may_expire R C ttl dump validate key S
      (S\<lparr>i_redis := s', i_pc := (i_pc S)(i := Producing)\<rparr>)"
| claim_lost: "i_pc S i = Start \<Longrightarrow>
    r_set_nx R (idem_key key) IN_PROGRESS ttl (i_redis S) = (False, s') \<Longrightarrow>
    idem_step may_expire R C ttl dump validate key S
      (S\<lparr>i_redis := s', i_pc := (i_pc S)(i := Reading)\<rparr>)"
| read_marker: "i_pc S i = Reading \<Longrightarrow>
    r_get R (i_redis S) (idem_key key) = Some IN_PROGRESS \<Longrightarrow>
    idem_step may_expire R C ttl dump validate key S
      (S\<lparr>i_pc := (i_pc S)(i := Finished (Inl (ConflictError
         ''A request with this Idempotency-Key is already in progress'')))\<rparr>)"
| read_bad: "i_pc S i = Reading \<Longrightarrow>
    r_get R (i_redis S) (idem_key key) \<noteq> Some IN_PROGRESS \<Longrightarrow>
    c_loads C (r_get R (i_redis S) (idem_key key)) = Inl e \<Longrightarrow>
    idem_step may_expire R C ttl dump validate key S
      (S\<lparr>i_pc := (i_pc S)(i := Finished (Inl e))\<rparr>)"
| read_hit: "i_pc S i = Reading \<Longrightarrow>
    r_get R (i_redis S) (idem_key key) \<noteq> Some IN_PROGRESS \<Longrightarrow>
    c_loads C (r_get R (i_redis S) (idem_key key)) = Inr j \<Longrightarrow>
    idem_step may_expire R C ttl dump validate key S
      (S\<lparr>i_pc := (i_pc S)(i := Finished (validate j))\<rparr>)"
| produce_ok: "i_pc S i = Producing \<Longrightarrow>
    kv R s' (idem_key key) = kv R (i_redis S) (idem_key key) \<Longrightarrow>
    idem_step may_expire R C ttl dump validate key S
      (S\<lparr>i_redis := s', i_pc := (i_pc S)(i := Saving a), i_runs := Suc (i_runs S)\<rparr>)"
| produce_error: "i_pc S i = Producing \<Longrightarrow>
    kv R s' (idem_key key) = kv R (i_redis S) (idem_key key) \<Longrightarrow>
    idem_step may_expire R C ttl dump validate key S
      (S\<lparr>i_redis := s', i_pc := (i_pc S)(i := Releasing e)\<rparr>)"
| save: "i_pc S i = Saving a \<Longrightarrow>
    idem_step may_expire R C ttl dump validate key S
      (S\<lparr>i_redis := save_response R C ttl key (dump a) (i_redis S),
         i_pc := (i_pc S)(i := Finished (Inr a))\<rparr>)"
| release_key: "i_pc S i = Releasing e \<Longrightarrow>
    idem_step may_expire R C ttl dump validate key S
      (S\<lparr>i_redis := release R key (i_redis S),
         i_pc := (i_pc S)(i := Finished (Inl e))\<rparr>)"
| other_keys: "kv R s' (idem_key key) = kv R (i_redis S) (idem_key key) \<Longrightarrow>
    idem_step may_expire R C ttl dump validate key S (S\<lparr>i_redis := s'\<rparr>)"
| expire: "may_expire \<Longrightarrow> kv R s' = (kv R (i_redis S))(idem_key key := None) \<Longrightarrow>
    idem_step may_expire R C ttl dump validate key S (S\<lparr>i_redis := s'\<rparr>)"

definition idem_init :: "'r redis \<Rightarrow> string \<Rightarrow> ('r, 'a) idem_sys \<Rightarrow> bool" where
  "idem_init R key S \<longleftrightarrow>
     kv R (i_redis S) (idem_key key) = None \<and> (\<forall>i. i_pc S i = Start) \<and> i_runs S = 0"

inductive idem_reach ::
  "bool \<Rightarrow> 'r redis \<Rightarrow> 'j codec \<Rightarrow> nat \<Rightarrow> ('a \<Rightarrow> 'j) \<Rightarrow> ('j \<Rightarrow> exn + 'a) \<Rightarrow> string \<Rightarrow>
   ('r, 'a) idem_sys \<Rightarrow> bool"
  for may_expire R C ttl dump validate key where
  init: "idem_init R key S \<Longrightarrow> idem_reach may_expire R C ttl dump validate key S"
| step: "idem_reach may_expire R C ttl dump validate key S \<Longrightarrow>
    idem_step may_expire R C ttl dump validate key S S' \<Longrightarrow>
    idem_reach may_expire R C ttl dump validate key S'"

fun active :: "'a idem_pc \<Rightarrow> bool" where
  "active Producing = True"
| "active (Saving _) = True"
| "active (Releasing _) = True"
| "active _ = False"

fun has_run :: "'a idem_pc \<Rightarrow> nat" where
  "has_run (Saving _) = 1"
| "has_run _ = 0"

subsection \<open>The invariant\<close>

text \<open>
  The key is free and nobody is between claim and completion; or it holds the marker and exactly
  one request is; or it holds a response, and \<^verbatim>\<open>produce()\<close> has run once.
\<close>

definition key_free :: "'r redis \<Rightarrow> string \<Rightarrow> ('r, 'a) idem_sys \<Rightarrow> bool" where
  "key_free R key S \<longleftrightarrow>
     kv R (i_redis S) (idem_key key) = None \<and> (\<forall>i. \<not> active (i_pc S i)) \<and> i_runs S = 0"

definition key_claimed :: "'r redis \<Rightarrow> string \<Rightarrow> nat \<Rightarrow> ('r, 'a) idem_sys \<Rightarrow> bool" where
  "key_claimed R key i S \<longleftrightarrow>
     (\<exists>t. kv R (i_redis S) (idem_key key) = Some (RStr IN_PROGRESS, t)) \<and>
     (\<forall>j. active (i_pc S j) \<longleftrightarrow> j = i) \<and> i_runs S = has_run (i_pc S i)"

definition key_stored ::
  "'r redis \<Rightarrow> 'j codec \<Rightarrow> ('a \<Rightarrow> 'j) \<Rightarrow> string \<Rightarrow> ('r, 'a) idem_sys \<Rightarrow> bool" where
  "key_stored R C dump key S \<longleftrightarrow>
     (\<exists>a t. kv R (i_redis S) (idem_key key) = Some (RStr (c_dumps C (dump a)), t)) \<and>
     (\<forall>i. \<not> active (i_pc S i)) \<and> i_runs S = 1"

lemmas phase_defs = key_free_def key_claimed_def key_stored_def

definition idem_inv ::
  "'r redis \<Rightarrow> 'j codec \<Rightarrow> ('a \<Rightarrow> 'j) \<Rightarrow> string \<Rightarrow> ('r, 'a) idem_sys \<Rightarrow> bool" where
  "idem_inv R C dump key S \<longleftrightarrow>
     key_free R key S \<or> (\<exists>i. key_claimed R key i S) \<or> key_stored R C dump key S"

lemma inv_active_claimed:
  assumes "idem_inv R C dump key S" "active (i_pc S i)"
  shows "key_claimed R key i S"
proof -
  from assms obtain k where "key_claimed R key k S"
    by (auto simp: idem_inv_def key_free_def key_stored_def)
  moreover from this assms(2) have "i = k" by (simp add: key_claimed_def)
  ultimately show ?thesis by simp
qed

context idempotency
begin

lemma claim_won_free:
  assumes "r_set_nx R k v ttl s = (True, s')"
  shows "kv R s k = None \<and> kv R s' = (kv R s)(k \<mapsto> (RStr v, Some ttl))"
  by (cases rule: set_nx_cases [OF ttl_pos, of s k v]) (use assms in auto)

lemma claim_lost_kv:
  assumes "r_set_nx R k v ttl s = (False, s')"
  shows "kv R s' = kv R s"
  by (cases rule: set_nx_cases [OF ttl_pos, of s k v]) (use assms in auto)

lemma inv_claim_won:
  assumes "idem_inv R C dump key S" "i_pc S i = Start"
    and "r_set_nx R (idem_key key) IN_PROGRESS ttl (i_redis S) = (True, s')"
  shows "idem_inv R C dump key (S\<lparr>i_redis := s', i_pc := (i_pc S)(i := Producing)\<rparr>)"
proof -
  from claim_won_free [OF assms(3)] have
    free: "kv R (i_redis S) (idem_key key) = None" and
    s': "kv R s' (idem_key key) = Some (RStr IN_PROGRESS, Some ttl)" by auto
  from assms(1) free have "key_free R key S" by (auto simp: idem_inv_def phase_defs)
  with s' have "key_claimed R key i (S\<lparr>i_redis := s', i_pc := (i_pc S)(i := Producing)\<rparr>)"
    by (auto simp: phase_defs)
  then show ?thesis by (auto simp: idem_inv_def)
qed

lemma inv_active_moves:
  assumes "idem_inv R C dump key S" "i_pc S i = Producing"
    and "kv R s' (idem_key key) = kv R (i_redis S) (idem_key key)"
    and "active p" "n = has_run p"
  shows "idem_inv R C dump key
    (S\<lparr>i_redis := s', i_pc := (i_pc S)(i := p), i_runs := i_runs S + n\<rparr>)"
proof -
  from assms(1,2) have "key_claimed R key i S"
    by (intro inv_active_claimed [of R C dump]) simp_all
  with assms(2-5) have "key_claimed R key i
      (S\<lparr>i_redis := s', i_pc := (i_pc S)(i := p), i_runs := i_runs S + n\<rparr>)"
    by (auto simp: phase_defs)
  then show ?thesis by (auto simp: idem_inv_def)
qed

lemma inv_save:
  assumes "idem_inv R C dump key S" "i_pc S i = Saving a"
  shows "idem_inv R C dump key
    (S\<lparr>i_redis := save_response R C ttl key (dump a) (i_redis S),
       i_pc := (i_pc S)(i := Finished (Inr a))\<rparr>)"
proof -
  from assms have "key_claimed R key i S"
    by (intro inv_active_claimed [of R C dump]) simp_all
  with assms(2) show ?thesis by (auto simp: idem_inv_def phase_defs kv_save)
qed

lemma inv_release:
  assumes "idem_inv R C dump key S" "i_pc S i = Releasing e"
  shows "idem_inv R C dump key
    (S\<lparr>i_redis := release R key (i_redis S), i_pc := (i_pc S)(i := Finished (Inl e))\<rparr>)"
proof -
  from assms have "key_claimed R key i S"
    by (intro inv_active_claimed [of R C dump]) simp_all
  with assms(2) show ?thesis by (auto simp: idem_inv_def phase_defs kv_release)
qed

lemma inv_frame:
  assumes "idem_inv R C dump key S" "\<not> active (i_pc S i)" "\<not> active p"
    and "kv R s' (idem_key key) = kv R (i_redis S) (idem_key key)"
  shows "idem_inv R C dump key (S\<lparr>i_redis := s', i_pc := (i_pc S)(i := p)\<rparr>)"
  using assms by (auto simp: idem_inv_def phase_defs)

lemma inv_step:
  assumes "idem_step False R C ttl dump validate key S S'" "idem_inv R C dump key S"
  shows "idem_inv R C dump key S'"
  using assms
proof (induction rule: idem_step.induct)
  case (claim_lost S i s')
  then show ?case by (intro inv_frame) (auto dest: claim_lost_kv)
next
  case (produce_ok S i s' a)
  then show ?case using inv_active_moves [of dump key S i s' "Saving a" 1] by simp
next
  case (produce_error S i s' e)
  then show ?case using inv_active_moves [of dump key S i s' "Releasing e" 0] by simp
next
  case (read_marker S i)
  then show ?case using inv_frame [of dump key S i _ "i_redis S"] by simp
next
  case (read_bad S i e)
  then show ?case using inv_frame [of dump key S i _ "i_redis S"] by simp
next
  case (read_hit S i j)
  then show ?case using inv_frame [of dump key S i _ "i_redis S"] by simp
next
  case (other_keys s' S)
  then show ?case by (auto simp: idem_inv_def phase_defs)
qed (simp_all add: inv_claim_won inv_save inv_release)

lemma inv_reach:
  "idem_reach False R C ttl dump validate key S \<Longrightarrow> idem_inv R C dump key S"
proof (induction rule: idem_reach.induct)
  case (init S)
  then show ?case by (auto simp: idem_init_def idem_inv_def phase_defs)
next
  case (step S S')
  then show ?case by (blast intro: inv_step)
qed

lemma reach_at_most_once:
  assumes "idem_reach False R C ttl dump validate key S"
  shows "i_runs S \<le> 1"
proof -
  have "has_run p \<le> 1" for p :: "'x idem_pc" by (cases p) auto
  then show ?thesis
    using inv_reach [OF assms] by (auto simp: idem_inv_def phase_defs)
qed

lemma reach_mutex:
  assumes "idem_reach False R C ttl dump validate key S" "active (i_pc S i)" "active (i_pc S j)"
  shows "i = j"
  using inv_reach [OF assms(1)] assms(2,3) by (auto simp: idem_inv_def phase_defs)

text \<open>The outcome of the first command of a request, as a step.\<close>

lemma start_steps:
  assumes "i_pc S i = Start"
  obtains (won) s' where "kv R (i_redis S) (idem_key key) = None"
      "r_set_nx R (idem_key key) IN_PROGRESS ttl (i_redis S) = (True, s')"
      "kv R s' = (kv R (i_redis S))(idem_key key \<mapsto> (RStr IN_PROGRESS, Some ttl))"
      "idem_step x R C ttl dump validate key S
         (S\<lparr>i_redis := s', i_pc := (i_pc S)(i := Producing)\<rparr>)"
    | (lost) s' where
      "r_set_nx R (idem_key key) IN_PROGRESS ttl (i_redis S) = (False, s')"
      "kv R s' = kv R (i_redis S)" "kv R (i_redis S) (idem_key key) \<noteq> None"
      "idem_step x R C ttl dump validate key S
         (S\<lparr>i_redis := s', i_pc := (i_pc S)(i := Reading)\<rparr>)"
proof (cases rule: set_nx_cases [OF ttl_pos, of "i_redis S" "idem_key key" IN_PROGRESS])
  case (1 s')
  with assms show ?thesis by (blast intro: won idem_step.claim_won)
next
  case (2 s' e)
  then show ?thesis
    by (intro lost [OF 2(2,3) _ idem_step.claim_lost [OF assms 2(2)]]) simp
qed

text \<open>
  A claim that is released between the lost \<^verbatim>\<open>SET NX\<close> and the \<^verbatim>\<open>GET\<close> of another request.
\<close>

lemma released_between:
  assumes "idem_init R key (S :: ('r, 'a) idem_sys)"
  shows "\<exists>S' :: ('r, 'a) idem_sys. \<exists>e. idem_reach False R C ttl dump validate key S' \<and>
    i_pc S' 1 = Finished (Inl e) \<and> is_unforeseen e"
proof -
  note reach = idem_reach.step [where may_expire = False and R = R and C = C and ttl = ttl
      and dump = dump and validate = validate and key = key]
  have S: "i_pc S 0 = Start" "kv R (i_redis S) (idem_key key) = None" "i_pc S 1 = Start"
    using assms by (auto simp: idem_init_def)
  let ?S1 = "\<lambda>s1. S\<lparr>i_redis := s1, i_pc := (i_pc S)(0 := Producing)\<rparr>"
  obtain s1 where s1: "kv R s1 = (kv R (i_redis S))(idem_key key \<mapsto> (RStr IN_PROGRESS, Some ttl))"
    and st1: "idem_step False R C ttl dump validate key S (?S1 s1)"
    using start_steps [OF S(1)] S(2) by metis
  have r1: "idem_reach False R C ttl dump validate key (?S1 s1)"
    by (rule reach [OF idem_reach.init [OF assms] st1])
  have p1: "i_pc (?S1 s1) 1 = Start" using S by simp
  let ?T2 = "\<lambda>s2. (?S1 s1)\<lparr>i_redis := s2, i_pc := (i_pc (?S1 s1))(1 := Reading)\<rparr>"
  obtain s2 where s2: "kv R s2 = kv R s1"
    and st2: "idem_step False R C ttl dump validate key (?S1 s1) (?T2 s2)"
    using start_steps [OF p1, of key False dump validate] s1 by auto
  let ?S2 = "?T2 s2"
  let ?e = "OtherError ''RuntimeError'' []"
  let ?S3 = "?S2\<lparr>i_redis := s2, i_pc := (i_pc ?S2)(0 := Releasing ?e)\<rparr>"
  have st3: "idem_step False R C ttl dump validate key ?S2 ?S3"
    by (rule idem_step.produce_error) simp_all
  let ?S4 = "?S3\<lparr>i_redis := release R key (i_redis ?S3),
      i_pc := (i_pc ?S3)(0 := Finished (Inl ?e))\<rparr>"
  have st4: "idem_step False R C ttl dump validate key ?S3 ?S4"
    by (rule idem_step.release_key) simp
  have get: "r_get R (i_redis ?S4) (idem_key key) = None"
    by (rule get_absent) (simp add: kv_release)
  obtain e where e: "is_unforeseen e" "c_loads C None = Inl e" using loads_none by blast
  let ?S5 = "?S4\<lparr>i_pc := (i_pc ?S4)(1 := Finished (Inl e))\<rparr>"
  have st5: "idem_step False R C ttl dump validate key ?S4 ?S5"
    by (rule idem_step.read_bad) (simp_all only: get e, simp_all)
  have "idem_reach False R C ttl dump validate key ?S5"
    by (rule reach [OF reach [OF reach [OF reach [OF r1 st2] st3] st4] st5])
  moreover have "i_pc ?S5 1 = Finished (Inl e)" by simp
  ultimately show ?thesis using e(1) by blast
qed

text \<open>A request that runs alone takes exactly the steps of the sequential function.\<close>

lemma alone_run:
  fixes S :: "('r, 'a) idem_sys"
  assumes "idempotent R C ttl dump validate (Some key) produce (i_redis S) w = (res, s', w')"
    and "keeps_key R (idem_key key) produce" "key \<noteq> []" "i_pc S i = Start"
  shows "\<exists>S'. (idem_step False R C ttl dump validate key)\<^sup>*\<^sup>* S S' \<and>
    i_redis S' = s' \<and> i_pc S' i = Finished res"
proof (cases rule: start_steps [OF assms(4), of key False dump validate])
  case (1 s1)
  let ?S1 = "S\<lparr>i_redis := s1, i_pc := (i_pc S)(i := Producing)\<rparr>"
  obtain r s2 w2 where p: "produce s1 w = (r, s2, w2)" by (cases "produce s1 w") auto
  have kept: "kv R s2 (idem_key key) = kv R (i_redis ?S1) (idem_key key)"
    using assms(2) p unfolding keeps_key_def by (metis fst_conv idem_sys.select_convs(1)
      idem_sys.surjective idem_sys.update_convs(1) idem_sys.update_convs(2) snd_conv)
  show ?thesis
  proof (cases r)
    case (Inl e)
    let ?S2 = "?S1\<lparr>i_redis := s2, i_pc := (i_pc ?S1)(i := Releasing e)\<rparr>"
    let ?S3 = "?S2\<lparr>i_redis := release R key (i_redis ?S2),
       i_pc := (i_pc ?S2)(i := Finished (Inl e))\<rparr>"
    have "idem_step False R C ttl dump validate key ?S1 ?S2"
      by (rule idem_step.produce_error) (simp_all add: kept [simplified])
    moreover have "idem_step False R C ttl dump validate key ?S2 ?S3"
      by (rule idem_step.release_key) simp
    ultimately have "(idem_step False R C ttl dump validate key)\<^sup>*\<^sup>* S ?S3" using 1(4) by force
    moreover have "res = Inl e" "s' = release R key s2"
      using assms(1,3) 1(2) p Inl by (auto simp: idempotent_def try_acquire_def Let_def)
    ultimately show ?thesis by (intro exI [of _ ?S3]) simp
  next
    case (Inr a)
    let ?S2 = "?S1\<lparr>i_redis := s2, i_pc := (i_pc ?S1)(i := Saving a), i_runs := Suc (i_runs ?S1)\<rparr>"
    let ?S3 = "?S2\<lparr>i_redis := save_response R C ttl key (dump a) (i_redis ?S2),
       i_pc := (i_pc ?S2)(i := Finished (Inr a))\<rparr>"
    have "idem_step False R C ttl dump validate key ?S1 ?S2"
      by (rule idem_step.produce_ok) (simp_all add: kept [simplified])
    moreover have "idem_step False R C ttl dump validate key ?S2 ?S3"
      by (rule idem_step.save) simp
    ultimately have "(idem_step False R C ttl dump validate key)\<^sup>*\<^sup>* S ?S3" using 1(4) by force
    moreover have "res = Inr a" "s' = save_response R C ttl key (dump a) s2"
      using assms(1,3) 1(2) p Inr by (auto simp: idempotent_def try_acquire_def Let_def)
    ultimately show ?thesis by (intro exI [of _ ?S3]) simp
  qed
next
  case (2 s1)
  let ?S1 = "S\<lparr>i_redis := s1, i_pc := (i_pc S)(i := Reading)\<rparr>"
  have "\<exists>S'. idem_step False R C ttl dump validate key ?S1 S' \<and> i_redis S' = s' \<and>
      i_pc S' i = Finished res"
    using assms(1,3) 2(1)
      idem_step.read_marker [of ?S1 i R key] idem_step.read_hit [of ?S1 i R key C]
      idem_step.read_bad [of ?S1 i R key C]
    by (auto simp: idempotent_def try_acquire_def Let_def split: sum.splits if_splits)
      (fastforce+)
  then obtain S' where S': "idem_step False R C ttl dump validate key ?S1 S'"
      "i_redis S' = s'" "i_pc S' i = Finished res" by blast
  show ?thesis
    by (rule exI [of _ S'], intro conjI S'(2,3), rule converse_rtranclp_into_rtranclp, rule 2(4),
        rule r_into_rtranclp, rule S'(1))
qed

end

subsection \<open>Properties\<close>

text \<open>A system of requests on the in-memory service, for the witnesses.\<close>

definition demo_sys :: "(mem, string) idem_sys" where
  "demo_sys = \<lparr>i_redis = Map.empty, i_pc = (\<lambda>_. Start), i_runs = 0\<rparr>"

lemma demo_sys_init: "idem_init mem_redis ''order-17'' demo_sys"
  by (simp add: idem_init_def demo_sys_def mem_defs)

text \<open>
  C6: While the claim on an idempotency key does not expire, concurrent requests with that key
  execute the wrapped handler to completion at most once, whatever the interleaving of their
  Redis commands, and at no time are two of them between claim and completion.
\<close>

theorem idempotent_at_most_once:
  assumes "idempotency R C ttl"
    and "idem_reach False R C ttl dump validate key S"
  shows "i_runs S \<le> 1 \<and> (\<forall>i j. active (i_pc S i) \<and> active (i_pc S j) \<longrightarrow> i = j)"
  using idempotency.reach_at_most_once [OF assms] idempotency.reach_mutex [OF assms] by blast

theorem idempotent_at_most_once_witness:
  "idem_reach False mem_redis str_codec 86400 (\<lambda>x. x) Inr ''order-17'' demo_sys \<and> i_runs demo_sys \<le> 1"
proof -
  have r: "idem_reach False mem_redis str_codec 86400 (\<lambda>x. x) Inr ''order-17'' demo_sys"
    by (rule idem_reach.init) (rule demo_sys_init)
  show ?thesis using r idempotent_at_most_once [OF mem_idempotency r] by blast
qed

text \<open>
  C39: The sequential function \<^verbatim>\<open>idempotent()\<close> is one of the interleavings: a request that runs alone
  through the concurrent steps ends with the result and the Redis state of the function, for any
  handler that leaves the key alone.
\<close>

theorem idempotent_refines_steps:
  assumes "idempotency R C ttl"
    and "idempotent R C ttl dump validate (Some key) produce (i_redis S) w = (res, s', w')"
    and "keeps_key R (idem_key key) produce" "key \<noteq> []" "i_pc S i = Start"
  shows "\<exists>S'. (idem_step False R C ttl dump validate key)\<^sup>*\<^sup>* S S' \<and>
    i_redis S' = s' \<and> i_pc S' i = Finished res"
  by (rule idempotency.alone_run [OF assms])

theorem idempotent_refines_steps_witness:
  "\<exists>S'. (idem_step False mem_redis str_codec 86400 (\<lambda>x. x) Inr ''order-17'')\<^sup>*\<^sup>* demo_sys S' \<and>
    i_pc S' 3 = Finished (Inr ''paid'')"
proof -
  let ?p = "\<lambda>s w. (Inr ''paid'', s, w) :: (exn + string) \<times> mem \<times> unit"
  have run: "idempotent mem_redis str_codec 86400 (\<lambda>x. x) Inr (Some ''order-17'') ?p (i_redis demo_sys) ()
      = (Inr ''paid'', [''idempotency:order-17'' \<mapsto> (MStr ([CHR 0x22] @ ''paid''), Some 86400)], ())"
    by (simp add: idempotent_def try_acquire_def save_response_def mem_redis_def demo_sys_def
        str_codec_def idem_key_def)
  show ?thesis
    using idempotent_refines_steps [OF mem_idempotency run, of 3]
    by (auto simp: keeps_key_def demo_sys_def)
qed

text \<open>
  Between the lost \<^verbatim>\<open>SET NX\<close> and the \<^verbatim>\<open>GET\<close> of \<^verbatim>\<open>try_acquire\<close> another request can fail and release
  the key; the \<^verbatim>\<open>GET\<close> then finds nothing, and the request ends with the serialiser's exception, an
  internal server error, although the store's comment says that the value is there.
\<close>

theorem try_acquire_released_race:
  assumes "idempotency R C ttl"
    and "idem_init R key (S :: ('r, 'a) idem_sys)"
  shows "\<exists>S' :: ('r, 'a) idem_sys. \<exists>e. idem_reach False R C ttl dump validate key S' \<and>
    i_pc S' 1 = Finished (Inl e) \<and> he_status (handle_exception rid e) = 500"
proof -
  obtain S' :: "('r, 'a) idem_sys" and e where
    "idem_reach False R C ttl dump validate key S'" "i_pc S' 1 = Finished (Inl e)" "is_unforeseen e"
    using idempotency.released_between [OF assms, of dump validate] by blast
  then show ?thesis by (auto simp: handle_unforeseen unhandled_handler_def render_def)
qed

theorem try_acquire_released_race_witness:
  "\<exists>S' :: (mem, string) idem_sys. \<exists>e. i_pc S' 1 = Finished (Inl e) \<and>
    he_status (handle_exception None e) = 500"
  using try_acquire_released_race [OF mem_idempotency demo_sys_init] by blast

end
