(* ===== verification/Rate_Limit.thy ===== *)
theory Rate_Limit
  imports Redis Config
begin

section \<open>The multi-window rate limiter\<close>

text \<open>
  \<^verbatim>\<open>app/ratelimit/limiter.py\<close>: the Lua script, which Redis runs as one atomic step, and
  \<^verbatim>\<open>RateLimiter.check\<close>. A tier is a counter with a limit and a window in seconds.
\<close>

record tier =
  t_name :: string
  t_limit :: int
  t_window :: nat

record rate_limit_result =
  rl_allowed :: bool
  rl_remaining :: int
  rl_retry_after :: int
  rl_limit :: int

definition tiers_from_settings :: "settings \<Rightarrow> tier list" where
  "tiers_from_settings c =
     (let tiers = [\<lparr>t_name = ''win'', t_limit = rate_limit_requests c, t_window = rate_limit_window c\<rparr>]
      in if rate_limit_burst c > 0
         then tiers @ [\<lparr>t_name = ''burst'', t_limit = rate_limit_burst c,
                        t_window = rate_limit_burst_window c\<rparr>]
         else tiers)"

subsection \<open>The script\<close>

text \<open>The variables of the loop: \<open>blocked\<close>, \<open>retry\<close> and \<open>min_remaining\<close>.\<close>

type_synonym lua_vars = "int \<times> int \<times> int"

definition lua_body :: "'r redis \<Rightarrow> string \<times> int \<times> nat \<Rightarrow> lua_vars \<Rightarrow> 'r \<Rightarrow> lua_vars \<times> 'r" where
  "lua_body R arg vars s = (case arg of (key, limit, window) \<Rightarrow> case vars of (blocked, retry, min_remaining) \<Rightarrow>
     (let (current, s1) = r_incrby R key 1 s;
          s2 = (if current = 1 then r_expire R key window s1 else s1);
          remaining = limit - current;
          ttl = r_ttl R s2 key;
          blocked' = (if remaining < 0 then 1 else blocked);
          retry' = (if remaining < 0 \<and> ttl > retry then ttl else retry);
          min_remaining' = (if min_remaining = -1 \<or> remaining < min_remaining
                            then remaining else min_remaining)
      in ((blocked', retry', min_remaining'), s2)))"

fun lua_loop :: "'r redis \<Rightarrow> (string \<times> int \<times> nat) list \<Rightarrow> lua_vars \<Rightarrow> 'r \<Rightarrow> lua_vars \<times> 'r" where
  "lua_loop R [] vars s = (vars, s)"
| "lua_loop R (arg # args) vars s =
     (let (vars', s') = lua_body R arg vars s in lua_loop R args vars' s')"

definition lua_multi_window :: "'r redis \<Rightarrow> (string \<times> int \<times> nat) list \<Rightarrow> 'r \<Rightarrow> lua_vars \<times> 'r" where
  "lua_multi_window R args s = lua_loop R args (0, 0, -1) s"

definition tier_key :: "string \<Rightarrow> tier \<Rightarrow> string" where
  "tier_key identity t = ''ratelimit:'' @ t_name t @ '':'' @ identity"

definition check :: "'r redis \<Rightarrow> tier list \<Rightarrow> string \<Rightarrow> 'r \<Rightarrow> rate_limit_result \<times> 'r" where
  "check R tiers identity s =
     (let args = map (\<lambda>t. (tier_key identity t, t_limit t, t_window t)) tiers;
          ((blocked, retry, remaining), s') = lua_multi_window R args s
      in (\<lparr>rl_allowed = (blocked = 0),
           rl_remaining = max 0 remaining,
           rl_retry_after = (if blocked \<noteq> 0 then retry else 0),
           rl_limit = (case tiers of [] \<Rightarrow> 0 | t # _ \<Rightarrow> t_limit t)\<rparr>, s'))"

subsection \<open>What the limiter does to its counters\<close>

definition counters_ok :: "'r redis \<Rightarrow> string list \<Rightarrow> 'r \<Rightarrow> bool" where
  "counters_ok R ks s \<longleftrightarrow> (\<forall>k \<in> set ks. is_int_key R s k \<and> 0 \<le> int_at R s k)"

text \<open>Every live counter has a time to live within its window.\<close>

definition ttls_ok :: "'r redis \<Rightarrow> (string \<times> int \<times> nat) list \<Rightarrow> 'r \<Rightarrow> bool" where
  "ttls_ok R args s \<longleftrightarrow> (\<forall>(k, l, w) \<in> set args. 0 < w \<and> is_int_key R s k \<and> 0 \<le> int_at R s k \<and>
     (kv R s k \<noteq> None \<longrightarrow> 1 \<le> int_at R s k \<and> (\<exists>t. ttl_of R s k = Some t \<and> t \<le> w)))"

definition over :: "'r redis \<Rightarrow> 'r \<Rightarrow> string \<times> int \<times> nat \<Rightarrow> bool" where
  "over R s arg = (case arg of (k, l, w) \<Rightarrow> l < int_at R s k + 1)"

definition remaining :: "'r redis \<Rightarrow> 'r \<Rightarrow> string \<times> int \<times> nat \<Rightarrow> int" where
  "remaining R s arg = (case arg of (k, l, w) \<Rightarrow> l - (int_at R s k + 1))"

lemma over_remaining: "over R s a \<longleftrightarrow> remaining R s a < 0"
  by (cases a) (auto simp: over_def remaining_def)

definition args_of :: "tier list \<Rightarrow> string \<Rightarrow> (string \<times> int \<times> nat) list" where
  "args_of tiers identity = map (\<lambda>t. (tier_key identity t, t_limit t, t_window t)) tiers"

lemma map_fst_args_of: "map fst (args_of tiers identity) = map (tier_key identity) tiers"
  by (simp add: args_of_def)

context redis_service
begin

lemma body_state:
  assumes "is_int_key R s k" "0 < w"
  shows "kv R (snd (lua_body R (k, l, w) v s)) = (kv R s)(k \<mapsto>
      (RInt (int_at R s k + 1), if int_at R s k + 1 = 1 then Some w else ttl_of R s k))"
  using incrby_law [OF assms(1), of 1] assms(2)
  by (auto simp: lua_body_def Let_def expire_law split: prod.splits)

lemma body_frame:
  assumes "is_int_key R s k" "0 < w" "k' \<noteq> k"
  shows "kv R (snd (lua_body R (k, l, w) v s)) k' = kv R s k'"
  using body_state [OF assms(1,2)] assms(3) by simp

lemma int_at_body:
  assumes "is_int_key R s k" "0 < w"
  shows "int_at R (snd (lua_body R (k, l, w) v s)) k' = int_at R s k' + (if k' = k then 1 else 0)"
  using body_state [OF assms] by (auto simp: view_defs)

lemma body_vars:
  assumes "is_int_key R s k" "0 < w"
  shows "fst (lua_body R (k, l, w) (b, r, m) s) =
    (if l < int_at R s k + 1 then 1 else b,
     if l < int_at R s k + 1 \<and> r_ttl R (snd (lua_body R (k, l, w) (b, r, m) s)) k > r
       then r_ttl R (snd (lua_body R (k, l, w) (b, r, m) s)) k else r,
     if m = -1 \<or> l - (int_at R s k + 1) < m then l - (int_at R s k + 1) else m)"
  using incrby_law [OF assms(1), of 1]
  by (auto simp: lua_body_def Let_def split: prod.splits)

lemma ttls_ok_body:
  assumes "ttls_ok R ((k, l, w) # args) s" "k \<notin> fst ` set args"
  shows "ttls_ok R args (snd (lua_body R (k, l, w) v s))"
  unfolding ttls_ok_def
proof (intro ballI, clarify)
  fix k' l' w' assume a: "(k', l', w') \<in> set args"
  with assms(2) have ne: "k' \<noteq> k" by force
  have k: "is_int_key R s k" "0 < w" using assms(1) by (auto simp: ttls_ok_def)
  have "kv R (snd (lua_body R (k, l, w) v s)) k' = kv R s k'" by (rule body_frame [OF k ne])
  moreover have "0 < w' \<and> is_int_key R s k' \<and> 0 \<le> int_at R s k' \<and>
     (kv R s k' \<noteq> None \<longrightarrow> 1 \<le> int_at R s k' \<and> (\<exists>t. ttl_of R s k' = Some t \<and> t \<le> w'))"
    using assms(1) a by (auto simp: ttls_ok_def)
  ultimately show "0 < w' \<and> is_int_key R (snd (lua_body R (k, l, w) v s)) k' \<and>
     0 \<le> int_at R (snd (lua_body R (k, l, w) v s)) k' \<and>
     (kv R (snd (lua_body R (k, l, w) v s)) k' \<noteq> None \<longrightarrow>
       1 \<le> int_at R (snd (lua_body R (k, l, w) v s)) k' \<and>
       (\<exists>t. ttl_of R (snd (lua_body R (k, l, w) v s)) k' = Some t \<and> t \<le> w'))"
    by (simp add: view_defs key_kind_defs ttl_of_def)
qed

lemma loop_state:
  assumes "ttls_ok R args s" "distinct (map fst args)"
  shows "kv R (snd (lua_loop R args v s)) = (\<lambda>k. case map_of args k of
      None \<Rightarrow> kv R s k
    | Some (l, w) \<Rightarrow> Some (RInt (int_at R s k + 1), if int_at R s k + 1 = 1 then Some w else ttl_of R s k))"
  using assms
proof (induction args arbitrary: v s)
  case Nil
  then show ?case by simp
next
  case (Cons arg args)
  obtain k l w where arg: "arg = (k, l, w)" by (cases arg) auto
  let ?b = "lua_body R (k, l, w) v s"
  have k: "is_int_key R s k" "0 < w" "k \<notin> fst ` set args" "distinct (map fst args)"
    using Cons.prems arg by (auto simp: ttls_ok_def image_iff)
  have "ttls_ok R args (snd ?b)" by (rule ttls_ok_body) (use Cons.prems arg k in auto)
  from Cons.IH [OF this k(4), of "fst ?b"] have
    "kv R (snd (lua_loop R (arg # args) v s)) = (\<lambda>k. case map_of args k of
      None \<Rightarrow> kv R (snd ?b) k
    | Some (l, w) \<Rightarrow> Some (RInt (int_at R (snd ?b) k + 1),
        if int_at R (snd ?b) k + 1 = 1 then Some w else ttl_of R (snd ?b) k))"
    by (simp add: arg split_beta)
  moreover have "map_of args k = None" using k(3) by (simp add: map_of_eq_None_iff)
  moreover have "int_at R (snd ?b) k' = int_at R s k'" "ttl_of R (snd ?b) k' = ttl_of R s k'"
    if "k' \<noteq> k" for k'
    using body_frame [OF k(1,2) that, of l v] by (simp_all add: view_defs ttl_of_def)
  ultimately show ?case
    by (auto simp: fun_eq_iff arg body_state [OF k(1,2)] split: option.splits)
qed

lemma over_body:
  assumes "ttls_ok R ((k, l, w) # args) s" "k \<notin> fst ` set args" "a \<in> set args"
  shows "over R (snd (lua_body R (k, l, w) v s)) a \<longleftrightarrow> over R s a"
proof -
  have "is_int_key R s k" "0 < w" using assms(1) by (auto simp: ttls_ok_def)
  with assms(2,3) show ?thesis by (cases a) (force simp: over_def int_at_body)
qed

lemma loop_blocked:
  assumes "ttls_ok R args s" "distinct (map fst args)"
  shows "fst (fst (lua_loop R args (b, r, m) s)) = (if \<exists>a \<in> set args. over R s a then 1 else b)"
  using assms
proof (induction args arbitrary: b r m s)
  case Nil
  then show ?case by simp
next
  case (Cons arg args)
  obtain k l w where arg: "arg = (k, l, w)" by (cases arg) auto
  let ?b = "lua_body R (k, l, w) (b, r, m) s"
  have k: "is_int_key R s k" "0 < w" "k \<notin> fst ` set args" "distinct (map fst args)"
    using Cons.prems arg by (auto simp: ttls_ok_def image_iff)
  have ok: "ttls_ok R args (snd ?b)" by (rule ttls_ok_body) (use Cons.prems arg k in auto)
  obtain b' r' m' where v: "fst ?b = (b', r', m')" by (cases "fst ?b") auto
  then have b': "b' = (if over R s arg then 1 else b)"
    using body_vars [OF k(1,2), of l b r m] by (auto simp: over_def arg)
  have "(\<exists>a \<in> set args. over R (snd ?b) a) \<longleftrightarrow> (\<exists>a \<in> set args. over R s a)"
    using over_body Cons.prems(1) arg k(3) by blast
  with Cons.IH [OF ok k(4), of b' r' m'] b' v show ?case
    by (simp add: arg split_beta)
qed

lemma loop_retry:
  assumes "ttls_ok R args s" "distinct (map fst args)" "0 \<le> r" "r \<le> int W"
    and "\<forall>(k, l, w) \<in> set args. w \<le> W"
  shows "0 \<le> fst (snd (fst (lua_loop R args (b, r, m) s))) \<and>
    fst (snd (fst (lua_loop R args (b, r, m) s))) \<le> int W"
  using assms
proof (induction args arbitrary: b r m s)
  case Nil
  then show ?case by simp
next
  case (Cons arg args)
  obtain k l w where arg: "arg = (k, l, w)" by (cases arg) auto
  let ?b = "lua_body R (k, l, w) (b, r, m) s"
  have k: "is_int_key R s k" "0 < w" "k \<notin> fst ` set args" "distinct (map fst args)" "w \<le> W"
    using Cons.prems arg by (auto simp: ttls_ok_def image_iff)
  have ok: "ttls_ok R args (snd ?b)" by (rule ttls_ok_body) (use Cons.prems arg k in auto)
  obtain b' r' m' where v: "fst ?b = (b', r', m')" by (cases "fst ?b") auto
  have "r_ttl R (snd ?b) k \<le> int W"
    using Cons.prems(1) k(5) by (auto simp: arg ttl_law body_state [OF k(1,2)] ttls_ok_def ttl_of_def
        view_defs split: option.splits)
  then have "0 \<le> r'" "r' \<le> int W"
    using v Cons.prems(3,4) body_vars [OF k(1,2), of l b r m] by (auto split: if_splits)
  with Cons.IH [OF ok k(4)] Cons.prems(5) v show ?case by (simp add: arg split_beta)
qed

lemma loop_min_remaining:
  assumes "ttls_ok R args s" "distinct (map fst args)"
    and "\<forall>a \<in> set args. \<not> over R s a" "args \<noteq> []" "m = -1 \<or> 0 \<le> m"
  shows "snd (snd (fst (lua_loop R args (b, r, m) s))) =
    (if m = -1 then Min (remaining R s ` set args) else min m (Min (remaining R s ` set args)))"
  using assms
proof (induction args arbitrary: b r m s)
  case Nil
  then show ?case by simp
next
  case (Cons arg args)
  obtain k l w where arg: "arg = (k, l, w)" by (cases arg) auto
  let ?b = "lua_body R (k, l, w) (b, r, m) s"
  have k: "is_int_key R s k" "0 < w" "k \<notin> fst ` set args" "distinct (map fst args)"
    using Cons.prems arg by (auto simp: ttls_ok_def image_iff)
  have ok: "ttls_ok R args (snd ?b)" by (rule ttls_ok_body) (use Cons.prems arg k in auto)
  obtain b' r' m' where v: "fst ?b = (b', r', m')" by (cases "fst ?b") auto
  have pos: "0 \<le> remaining R s arg" using Cons.prems(3) by (auto simp: over_remaining not_less)
  have m': "m' = (if m = -1 then remaining R s arg else min m (remaining R s arg))"
    using v body_vars [OF k(1,2), of l b r m] by (auto simp: remaining_def arg)
  have same: "remaining R (snd ?b) a = remaining R s a" if "a \<in> set args" for a
  proof -
    obtain k' l' w' where a: "a = (k', l', w')" by (cases a) auto
    with that k(3) have "k' \<noteq> k" by force
    with a int_at_body [OF k(1,2)] show ?thesis by (simp add: remaining_def)
  qed
  show ?case
  proof (cases "args = []")
    case True
    with v m' show ?thesis by (simp add: arg split_beta)
  next
    case False
    have nov: "\<forall>a \<in> set args. \<not> over R (snd ?b) a"
      using over_body Cons.prems(1,3) arg k(3) by (metis list.set_intros(2))
    have "m' = -1 \<or> 0 \<le> m'" using m' pos Cons.prems(5) by auto
    note IH = Cons.IH [OF ok k(4) nov False this, of b' r']
    have "remaining R (snd ?b) ` set args = remaining R s ` set args" using same by (auto simp: image_iff)
    with IH m' pos False Cons.prems(5) v show ?thesis
      by (auto simp: arg split_beta Min_insert min.assoc split: if_splits)
  qed
qed

lemma check_eq:
  "check R tiers identity s =
     (let r = lua_multi_window R (args_of tiers identity) s
      in (\<lparr>rl_allowed = (fst (fst r) = 0), rl_remaining = max 0 (snd (snd (fst r))),
           rl_retry_after = (if fst (fst r) \<noteq> 0 then fst (snd (fst r)) else 0),
           rl_limit = (case tiers of [] \<Rightarrow> 0 | t # _ \<Rightarrow> t_limit t)\<rparr>, snd r))"
  by (simp add: check_def args_of_def Let_def split_beta)

lemma check_allowed:
  assumes "ttls_ok R (args_of tiers identity) s" "distinct (map (tier_key identity) tiers)"
  shows "rl_allowed (fst (check R tiers identity s)) \<longleftrightarrow>
    (\<forall>t \<in> set tiers. int_at R s (tier_key identity t) + 1 \<le> t_limit t)"
proof -
  have "distinct (map fst (args_of tiers identity))" using assms(2) by (simp only: map_fst_args_of)
  from loop_blocked [OF assms(1) this, of 0 0 "-1"]
  have "rl_allowed (fst (check R tiers identity s)) \<longleftrightarrow>
      \<not> (\<exists>a \<in> set (args_of tiers identity). over R s a)"
    by (simp add: check_eq Let_def lua_multi_window_def)
  then show ?thesis by (force simp: args_of_def over_def)
qed

lemma check_counts:
  assumes "ttls_ok R (args_of tiers identity) s" "distinct (map (tier_key identity) tiers)"
    and "t \<in> set tiers"
  shows "int_at R (snd (check R tiers identity s)) (tier_key identity t) =
    int_at R s (tier_key identity t) + 1"
proof -
  have "(tier_key identity t, t_limit t, t_window t) \<in> set (args_of tiers identity)"
    using assms(3) by (auto simp: args_of_def)
  then have "map_of (args_of tiers identity) (tier_key identity t) = Some (t_limit t, t_window t)"
    using assms(2) by (simp add: map_fst_args_of)
  with loop_state [OF assms(1), of "(0, 0, -1)"] assms(2) show ?thesis
    by (simp add: check_eq Let_def lua_multi_window_def map_fst_args_of view_defs)
qed

lemma check_frame:
  assumes "ttls_ok R (args_of tiers identity) s" "distinct (map (tier_key identity) tiers)"
    and "k \<notin> tier_key identity ` set tiers"
  shows "kv R (snd (check R tiers identity s)) k = kv R s k"
proof -
  have "map_of (args_of tiers identity) k = None"
    using assms(3) by (auto simp: map_of_eq_None_iff args_of_def)
  with loop_state [OF assms(1), of "(0, 0, -1)"] assms(2) show ?thesis
    by (simp add: check_eq Let_def lua_multi_window_def map_fst_args_of)
qed

lemma check_ttls_ok:
  assumes "ttls_ok R (args_of tiers identity) s" "distinct (map (tier_key identity) tiers)"
  shows "ttls_ok R (args_of tiers identity) (snd (check R tiers identity s))"
  unfolding ttls_ok_def
proof (intro ballI, clarify)
  fix k l w assume a: "(k, l, w) \<in> set (args_of tiers identity)"
  then have m: "map_of (args_of tiers identity) k = Some (l, w)"
    using assms(2) by (simp add: map_fst_args_of)
  have old: "0 < w" "is_int_key R s k" "0 \<le> int_at R s k"
     "kv R s k \<noteq> None \<longrightarrow> 1 \<le> int_at R s k \<and> (\<exists>t. ttl_of R s k = Some t \<and> t \<le> w)"
    using assms(1) a by (auto simp: ttls_ok_def)
  have "int_at R s k + 1 = 1 \<or> (\<exists>t. ttl_of R s k = Some t \<and> t \<le> w)"
    using old(4) by (cases "kv R s k") (auto simp: view_defs)
  with m old loop_state [OF assms(1), of "(0, 0, -1)"] assms(2)
  show "0 < w \<and> is_int_key R (snd (check R tiers identity s)) k \<and>
      0 \<le> int_at R (snd (check R tiers identity s)) k \<and>
      (kv R (snd (check R tiers identity s)) k \<noteq> None \<longrightarrow>
       1 \<le> int_at R (snd (check R tiers identity s)) k \<and>
       (\<exists>t. ttl_of R (snd (check R tiers identity s)) k = Some t \<and> t \<le> w))"
    by (auto simp: check_eq Let_def lua_multi_window_def map_fst_args_of view_defs key_kind_defs
        ttl_of_def)
qed

end

subsection \<open>Runs of requests within the windows\<close>

fun run_checks ::
  "'r redis \<Rightarrow> tier list \<Rightarrow> string \<Rightarrow> nat \<Rightarrow> 'r \<Rightarrow> rate_limit_result list \<times> 'r" where
  "run_checks R tiers identity 0 s = ([], s)"
| "run_checks R tiers identity (Suc n) s =
     (let (r, s1) = check R tiers identity s; (rs, s2) = run_checks R tiers identity n s1
      in (r # rs, s2))"

definition admitted :: "rate_limit_result list \<Rightarrow> nat" where
  "admitted rs = length (filter rl_allowed rs)"

context redis_service
begin

lemma run_checks_admitted:
  assumes "ttls_ok R (args_of tiers identity) s" "distinct (map (tier_key identity) tiers)"
    and "t \<in> set tiers"
  shows "int (admitted (fst (run_checks R tiers identity n s))) \<le>
    max 0 (t_limit t - int_at R s (tier_key identity t))"
  using assms(1)
proof (induction n arbitrary: s)
  case 0
  then show ?case by (simp add: admitted_def)
next
  case (Suc n)
  let ?c = "check R tiers identity s"
  have IH: "int (admitted (fst (run_checks R tiers identity n (snd ?c)))) \<le>
      max 0 (t_limit t - (int_at R s (tier_key identity t) + 1))"
    using Suc.IH [OF check_ttls_ok [OF Suc.prems assms(2)]] check_counts [OF Suc.prems assms(2,3)] by simp
  have "rl_allowed (fst ?c) \<longrightarrow> int_at R s (tier_key identity t) + 1 \<le> t_limit t"
    using check_allowed [OF Suc.prems assms(2)] assms(3) by blast
  with IH show ?case by (auto simp: admitted_def split_beta Let_def)
qed

end

subsection \<open>Keys of the configured tiers\<close>

lemma settings_tier_keys_distinct:
  "distinct (map (tier_key identity) (tiers_from_settings c))"
  by (simp add: tiers_from_settings_def tier_key_def Let_def)

lemma settings_tier_keys_separate:
  "identity \<noteq> identity' \<Longrightarrow> t \<in> set (tiers_from_settings c) \<Longrightarrow>
   tier_key identity t \<notin> tier_key identity' ` set (tiers_from_settings c)"
  by (auto simp: tiers_from_settings_def tier_key_def Let_def split: if_splits)

lemma ttls_ok_fresh:
  "\<forall>t \<in> set tiers. 0 < t_window t \<and> kv R s (tier_key identity t) = None \<Longrightarrow>
   ttls_ok R (args_of tiers identity) s"
  by (auto simp: ttls_ok_def args_of_def key_kind_defs view_defs)

subsection \<open>Properties\<close>

definition demo_tiers :: "tier list" where
  "demo_tiers = tiers_from_settings
     (default_settings\<lparr>rate_limit_requests := 3, rate_limit_burst := 20\<rparr>)"

lemma demo_ttls_ok: "ttls_ok mem_redis (args_of demo_tiers identity) Map.empty"
  by (rule ttls_ok_fresh)
     (simp add: demo_tiers_def tiers_from_settings_def Let_def default_settings_def mem_defs)

lemma demo_tiers_distinct: "distinct (map (tier_key identity) demo_tiers)"
  unfolding demo_tiers_def by (rule settings_tier_keys_distinct)

text \<open>
  C23: Within a window no client gets more requests through than a tier allows: in any number of
  consecutive checks of one identity during which the counters do not expire, the number of
  admitted requests is at most what was left of each tier's limit at the start.
\<close>

theorem limiter_admits_at_most_limit:
  assumes "redis_service R" "ttls_ok R (args_of tiers identity) s"
    and "distinct (map (tier_key identity) tiers)" "t \<in> set tiers"
  shows "int (admitted (fst (run_checks R tiers identity n s))) \<le>
    max 0 (t_limit t - int_at R s (tier_key identity t))"
  by (rule redis_service.run_checks_admitted [OF assms])

theorem limiter_admits_at_most_limit_witness:
  "int (admitted (fst (run_checks mem_redis demo_tiers ''ip:10.0.0.7'' 50 Map.empty))) \<le> 3"
proof -
  have t: "\<lparr>t_name = ''win'', t_limit = 3, t_window = 60\<rparr> \<in> set demo_tiers"
    by (simp add: demo_tiers_def tiers_from_settings_def Let_def default_settings_def)
  show ?thesis
    using limiter_admits_at_most_limit [OF mem_redis_service demo_ttls_ok demo_tiers_distinct t,
        of "''ip:10.0.0.7''" 50]
    by (simp add: mem_defs view_defs)
qed

text \<open>
  One check is exact: the request is allowed if and only if it fits every tier; every tier's
  counter grows by one whether it is allowed or not (a blocked request is charged too); the
  reported remainder of an allowed request is the smallest one over the tiers; and the seconds to
  wait lie between zero and the longest window.
\<close>

theorem limiter_check_exact:
  assumes "redis_service R" "ttls_ok R (args_of tiers identity) s"
    and "distinct (map (tier_key identity) tiers)" "tiers \<noteq> []"
    and "check R tiers identity s = (res, s')"
  shows "(rl_allowed res \<longleftrightarrow> (\<forall>t \<in> set tiers. int_at R s (tier_key identity t) + 1 \<le> t_limit t)) \<and>
    (\<forall>t \<in> set tiers. int_at R s' (tier_key identity t) = int_at R s (tier_key identity t) + 1) \<and>
    (rl_allowed res \<longrightarrow> rl_remaining res =
      Min ((\<lambda>t. t_limit t - (int_at R s (tier_key identity t) + 1)) ` set tiers)) \<and>
    0 \<le> rl_retry_after res \<and> rl_retry_after res \<le> int (Max (t_window ` set tiers))"
proof (intro conjI)
  let ?args = "args_of tiers identity"
  have d: "distinct (map fst ?args)" using assms(3) by (simp only: map_fst_args_of)
  have res: "res = fst (check R tiers identity s)" "s' = snd (check R tiers identity s)"
    using assms(5) by simp_all
  show allowed: "rl_allowed res \<longleftrightarrow>
      (\<forall>t \<in> set tiers. int_at R s (tier_key identity t) + 1 \<le> t_limit t)"
    unfolding res by (rule redis_service.check_allowed [OF assms(1-3)])
  show "\<forall>t \<in> set tiers. int_at R s' (tier_key identity t) = int_at R s (tier_key identity t) + 1"
    unfolding res using redis_service.check_counts [OF assms(1-3)] by blast
  have "0 \<le> fst (snd (fst (lua_loop R ?args (0, 0, -1) s))) \<and>
      fst (snd (fst (lua_loop R ?args (0, 0, -1) s))) \<le> int (Max (t_window ` set tiers))"
    by (rule redis_service.loop_retry [OF assms(1,2) d]) (auto simp: args_of_def)
  then show "0 \<le> rl_retry_after res" "rl_retry_after res \<le> int (Max (t_window ` set tiers))"
    unfolding res by (auto simp: redis_service.check_eq [OF assms(1)] Let_def lua_multi_window_def)
  let ?rem = "\<lambda>t. t_limit t - (int_at R s (tier_key identity t) + 1)"
  show "rl_allowed res \<longrightarrow> rl_remaining res = Min (?rem ` set tiers)"
  proof
    assume "rl_allowed res"
    with allowed have fit: "\<forall>t \<in> set tiers. 0 \<le> ?rem t" by auto
    then have "\<forall>a \<in> set ?args. \<not> over R s a" by (auto simp: args_of_def over_def)
    moreover have "?args \<noteq> []" using assms(4) by (simp add: args_of_def)
    ultimately have "snd (snd (fst (lua_loop R ?args (0, 0, -1) s))) =
        Min (remaining R s ` set ?args)"
      using redis_service.loop_min_remaining [OF assms(1,2) d, of "-1" 0 0] by simp
    also have "remaining R s ` set ?args = ?rem ` set tiers"
      by (auto simp: args_of_def remaining_def image_iff)
    finally have "snd (snd (fst (lua_loop R ?args (0, 0, -1) s))) = Min (?rem ` set tiers)" .
    moreover have "0 \<le> Min (?rem ` set tiers)" using fit assms(4) by simp
    ultimately show "rl_remaining res = Min (?rem ` set tiers)"
      unfolding res by (simp add: redis_service.check_eq [OF assms(1)] Let_def lua_multi_window_def)
  qed
qed

theorem limiter_check_exact_witness:
  "rl_allowed (fst (check mem_redis demo_tiers ''ip:10.0.0.7'' Map.empty)) \<and>
   rl_remaining (fst (check mem_redis demo_tiers ''ip:10.0.0.7'' Map.empty)) = 2"
proof -
  have ne: "demo_tiers \<noteq> []" by (simp add: demo_tiers_def tiers_from_settings_def Let_def)
  have "check mem_redis demo_tiers ''ip:10.0.0.7'' Map.empty =
      (fst (check mem_redis demo_tiers ''ip:10.0.0.7'' Map.empty),
       snd (check mem_redis demo_tiers ''ip:10.0.0.7'' Map.empty))" by simp
  from limiter_check_exact [OF mem_redis_service demo_ttls_ok demo_tiers_distinct ne this]
  show ?thesis
    by (auto simp: demo_tiers_def tiers_from_settings_def Let_def default_settings_def mem_defs view_defs)
qed

text \<open>
  Clients do not affect each other: under the configured tiers a check of one identity leaves
  every counter of every other identity as it was.
\<close>

theorem limiter_isolates_identities:
  assumes "redis_service R" "ttls_ok R (args_of (tiers_from_settings c) identity) s"
    and "identity \<noteq> other" "t \<in> set (tiers_from_settings c)"
  shows "kv R (snd (check R (tiers_from_settings c) identity s)) (tier_key other t) =
    kv R s (tier_key other t)"
  by (rule redis_service.check_frame [OF assms(1,2) settings_tier_keys_distinct])
     (rule settings_tier_keys_separate [OF assms(3) [symmetric] assms(4)])

theorem limiter_isolates_identities_witness:
  "kv mem_redis (snd (check mem_redis demo_tiers ''ip:a'' Map.empty))
     (tier_key ''ip:b'' \<lparr>t_name = ''win'', t_limit = 3, t_window = 60\<rparr>) = None"
proof -
  have t: "\<lparr>t_name = ''win'', t_limit = 3, t_window = 60\<rparr> \<in> set demo_tiers"
    by (simp add: demo_tiers_def tiers_from_settings_def Let_def default_settings_def)
  show ?thesis
    using limiter_isolates_identities [OF mem_redis_service demo_ttls_ok [unfolded demo_tiers_def] _
        t [unfolded demo_tiers_def], of "''ip:a''" "''ip:b''"]
    by (simp add: demo_tiers_def [symmetric]) (simp add: mem_defs)
qed

text \<open>
  The remainder reported with a rejection is wrong when the first tier is exceeded by exactly
  one request: the script uses -1 both as "no tier yet" and as that remainder, so the next tier
  overwrites it, and the client is told that it has requests left although it is blocked.
\<close>

theorem limiter_remaining_sentinel:
  assumes "redis_service R" "ttls_ok R (args_of [t1, t2] identity) s"
    and "tier_key identity t1 \<noteq> tier_key identity t2"
    and "int_at R s (tier_key identity t1) = t_limit t1"
    and "int_at R s (tier_key identity t2) < t_limit t2"
  shows "\<not> rl_allowed (fst (check R [t1, t2] identity s)) \<and>
    rl_remaining (fst (check R [t1, t2] identity s)) =
      t_limit t2 - (int_at R s (tier_key identity t2) + 1)"
proof -
  let ?k1 = "tier_key identity t1" and ?k2 = "tier_key identity t2"
  let ?b = "lua_body R (?k1, t_limit t1, t_window t1) (0, 0, -1) s"
  have k1: "is_int_key R s ?k1" "0 < t_window t1" and k2: "is_int_key R s ?k2" "0 < t_window t2"
    using assms(2) by (auto simp: ttls_ok_def args_of_def)
  have k2': "is_int_key R (snd ?b) ?k2"
    using k2 redis_service.body_frame [OF assms(1) k1, of ?k2] assms(3)
    by (simp add: key_kind_defs)
  have i2: "int_at R (snd ?b) ?k2 = int_at R s ?k2"
    using redis_service.int_at_body [OF assms(1) k1] assms(3) by simp
  have v1: "fst (fst ?b) = 1" "snd (snd (fst ?b)) = -1"
    using redis_service.body_vars [OF assms(1) k1, of "t_limit t1" 0 0 "-1"] assms(4) by simp_all
  obtain r where v1': "fst ?b = (1, r, -1)" using v1 by (cases "fst ?b") auto
  have "fst (lua_body R (?k2, t_limit t2, t_window t2) (1, r, -1) (snd ?b)) =
     (1, r, t_limit t2 - (int_at R s ?k2 + 1))"
    using redis_service.body_vars [OF assms(1) k2' k2(2), of "t_limit t2" 1 r "-1"] assms(5) i2 by simp
  with v1' assms(5) show ?thesis
    by (simp add: redis_service.check_eq [OF assms(1)] Let_def lua_multi_window_def args_of_def split_beta)
qed

theorem limiter_remaining_sentinel_witness:
  "\<not> rl_allowed (fst (check mem_redis demo_tiers ''x'' [''ratelimit:win:x'' \<mapsto> (MInt 3, Some 9)])) \<and>
   rl_remaining (fst (check mem_redis demo_tiers ''x'' [''ratelimit:win:x'' \<mapsto> (MInt 3, Some 9)])) = 19"
proof -
  let ?t1 = "\<lparr>t_name = ''win'', t_limit = 3, t_window = 60\<rparr>"
  let ?t2 = "\<lparr>t_name = ''burst'', t_limit = 20, t_window = 1\<rparr>"
  let ?s = "[''ratelimit:win:x'' \<mapsto> (MInt 3, Some 9)] :: mem"
  have tiers: "demo_tiers = [?t1, ?t2]"
    by (simp add: demo_tiers_def tiers_from_settings_def Let_def default_settings_def)
  have ok: "ttls_ok mem_redis (args_of [?t1, ?t2] ''x'') ?s"
    by (auto simp: ttls_ok_def args_of_def tier_key_def mem_defs view_defs key_kind_defs ttl_of_def)
  have "\<not> rl_allowed (fst (check mem_redis [?t1, ?t2] ''x'' ?s)) \<and>
    rl_remaining (fst (check mem_redis [?t1, ?t2] ''x'' ?s)) =
      t_limit ?t2 - (int_at mem_redis ?s (tier_key ''x'' ?t2) + 1)"
    by (rule limiter_remaining_sentinel [OF mem_redis_service ok])
       (simp_all add: tier_key_def mem_defs view_defs)
  then show ?thesis by (simp add: tiers tier_key_def mem_defs view_defs)
qed

end
