(* ===== verification/Broker.thy ===== *)
theory Broker
  imports Errors
begin

section \<open>The message broker and the event bus\<close>

text \<open>
  \<^verbatim>\<open>app/broker/base.py\<close> (messages), \<^verbatim>\<open>app/broker/memory.py\<close> (the in-memory broker: consumer groups,
  fan-out over the groups of a topic, round robin inside a group, deliveries in background tasks) and
  \<^verbatim>\<open>app/broker/events.py\<close> (typed events: a validated payload, an undecodable one is skipped). A handler
  is an element of a type \<open>'h\<close> with a function that runs it. The publisher's side of a broker is the
  interface \<open>event_sink\<close>, interpreted on the in-memory broker.
\<close>

record message =
  m_topic :: string
  m_payload :: json
  m_key :: "string option"
  m_headers :: "(string \<times> string) list"

definition message_of :: "string \<Rightarrow> json \<Rightarrow> string option \<Rightarrow> message" where
  "message_of topic payload key = \<lparr>m_topic = topic, m_payload = payload, m_key = key, m_headers = []\<rparr>"

text \<open>\<^verbatim>\<open>default_group\<close>: \<open>modname\<close> (\<^verbatim>\<open>__module__\<close>) and \<open>qualname\<close> are attributes of the function.\<close>

definition default_group :: "string \<Rightarrow> string \<Rightarrow> string" where
  "default_group modname qualname = modname @ ''.'' @ qualname"

subsection \<open>The in-memory broker\<close>

text \<open>\<open>mb_groups\<close> is \<^verbatim>\<open>_groups\<close> (topic, then group, then handlers), \<open>mb_rr\<close> is \<^verbatim>\<open>_rr\<close>, \<open>mb_tasks\<close> the deliveries not yet run.\<close>

record 'h memory_broker =
  mb_groups :: "(string \<times> (string \<times> 'h list) list) list"
  mb_rr :: "((string \<times> string) \<times> nat) list"
  mb_tasks :: "('h \<times> message) list"

definition InMemoryBroker :: "'h memory_broker" where
  "InMemoryBroker = \<lparr>mb_groups = [], mb_rr = [], mb_tasks = []\<rparr>"

definition topic_groups :: "'h memory_broker \<Rightarrow> string \<Rightarrow> (string \<times> 'h list) list" where
  "topic_groups b topic = (case map_of (mb_groups b) topic of None \<Rightarrow> [] | Some gs \<Rightarrow> gs)"

definition rr_count :: "'h memory_broker \<Rightarrow> string \<Rightarrow> string \<Rightarrow> nat" where
  "rr_count b topic grp = (case map_of (mb_rr b) (topic, grp) of None \<Rightarrow> 0 | Some n \<Rightarrow> n)"

fun publish_groups :: "message \<Rightarrow> (string \<times> 'h list) list \<Rightarrow> 'h memory_broker \<Rightarrow> 'h memory_broker" where
  "publish_groups m [] b = b"
| "publish_groups m ((grp, handlers) # gs) b =
     (if handlers = [] then publish_groups m gs b
      else (let idx = rr_count b (m_topic m) grp mod length handlers
            in publish_groups m gs (b\<lparr>mb_rr := assoc_set (m_topic m, grp) (idx + 1) (mb_rr b),
                 mb_tasks := mb_tasks b @ [(handlers ! idx, m)]\<rparr>)))"

definition publish :: "message \<Rightarrow> 'h memory_broker \<Rightarrow> (exn + unit) \<times> 'h memory_broker" where
  "publish m b = (Inr (), publish_groups m (topic_groups b (m_topic m)) b)"

text \<open>\<open>grp\<close> is the group after \<^verbatim>\<open>group or default_group(handler)\<close>.\<close>

definition subscribe :: "string \<Rightarrow> 'h \<Rightarrow> string \<Rightarrow> 'h memory_broker \<Rightarrow> 'h memory_broker" where
  "subscribe topic handler grp b =
     (let gs = topic_groups b topic;
          hs = (case map_of gs grp of None \<Rightarrow> [] | Some hs \<Rightarrow> hs)
      in b\<lparr>mb_groups := assoc_set topic (assoc_set grp (hs @ [handler]) gs) (mb_groups b)\<rparr>)"

text \<open>A handler that raises is logged; \<^verbatim>\<open>disconnect\<close> waits for the deliveries that are left.\<close>

definition safe_dispatch :: "('h \<Rightarrow> message \<Rightarrow> 's \<Rightarrow> (exn + unit) \<times> 's) \<Rightarrow> 'h \<times> message \<Rightarrow> 's \<Rightarrow> 's" where
  "safe_dispatch run t s = snd (run (fst t) (snd t) s)"

definition disconnect ::
  "('h \<Rightarrow> message \<Rightarrow> 's \<Rightarrow> (exn + unit) \<times> 's) \<Rightarrow> 'h memory_broker \<Rightarrow> 's \<Rightarrow> 'h memory_broker \<times> 's" where
  "disconnect run b s = (b\<lparr>mb_tasks := []\<rparr>, fold (safe_dispatch run) (mb_tasks b) s)"

subsection \<open>What one publication does\<close>

text \<open>The handler each group of the topic hands the message to.\<close>

definition chosen :: "'h memory_broker \<Rightarrow> message \<Rightarrow> (string \<times> 'h list) list \<Rightarrow> ('h \<times> message) list" where
  "chosen b m gs = map (\<lambda>(g, hs). (hs ! (rr_count b (m_topic m) g mod length hs), m))
     (filter (\<lambda>(g, hs). hs \<noteq> []) gs)"

lemma rr_count_set [simp]:
  "rr_count (b\<lparr>mb_rr := assoc_set (t, g) n (mb_rr b), mb_tasks := ts\<rparr>) t' g' =
     (if t' = t \<and> g' = g then n else rr_count b t' g')"
  by (simp add: rr_count_def)

lemma chosen_cong: "(\<And>g hs. (g, hs) \<in> set gs \<Longrightarrow> rr_count b (m_topic m) g = rr_count b' (m_topic m) g) \<Longrightarrow>
    chosen b m gs = chosen b' m gs"
  by (auto simp: chosen_def intro!: map_cong)

lemma publish_groups_sel [simp]: "mb_groups (publish_groups m gs b) = mb_groups b"
  by (induction m gs b rule: publish_groups.induct) (simp_all add: Let_def)

lemma topic_groups_cong: "mb_groups b = mb_groups b' \<Longrightarrow> topic_groups b = topic_groups b'"
  by (simp add: topic_groups_def fun_eq_iff)

lemma publish_groups_tasks:
  "distinct (map fst gs) \<Longrightarrow> mb_tasks (publish_groups m gs b) = mb_tasks b @ chosen b m gs"
proof (induction m gs b rule: publish_groups.induct)
  case (2 m g hs gs b)
  show ?case
  proof (cases "hs = []")
    case False
    let ?b = "b\<lparr>mb_rr := assoc_set (m_topic m, g) (rr_count b (m_topic m) g mod length hs + 1) (mb_rr b),
      mb_tasks := mb_tasks b @ [(hs ! (rr_count b (m_topic m) g mod length hs), m)]\<rparr>"
    have "chosen ?b m gs = chosen b m gs" using 2(3) by (intro chosen_cong) force
    with 2 False show ?thesis by (simp add: Let_def chosen_def)
  qed (use 2 in \<open>simp add: chosen_def\<close>)
qed (simp add: chosen_def)

lemma publish_groups_other:
  "g \<notin> fst ` set gs \<or> t \<noteq> m_topic m \<Longrightarrow> rr_count (publish_groups m gs b) t g = rr_count b t g"
  by (induction m gs b rule: publish_groups.induct) (auto simp: Let_def)

lemma publish_groups_rr:
  assumes "distinct (map fst gs)" "(g, hs) \<in> set gs" "hs \<noteq> []"
  shows "rr_count (publish_groups m gs b) (m_topic m) g = rr_count b (m_topic m) g mod length hs + 1"
  using assms
proof (induction m gs b rule: publish_groups.induct)
  case (2 m g' hs' gs b)
  show ?case
  proof (cases "(g, hs) = (g', hs')")
    case True
    with 2(3,5) show ?thesis by (auto simp: Let_def publish_groups_other)
  next
    case False
    then have "(g, hs) \<in> set gs" "g \<noteq> g'" using 2(3,4) by (auto simp: image_iff)
    with 2 show ?thesis by (auto simp: Let_def)
  qed
qed simp

text \<open>A dict has each key once.\<close>

definition broker_ok :: "'h memory_broker \<Rightarrow> bool" where
  "broker_ok b \<longleftrightarrow> (\<forall>t. distinct (map fst (topic_groups b t)))"

lemma fst_assoc_set: "fst ` set (assoc_set k v d) = insert k (fst ` set d)"
  by (induction k v d rule: assoc_set.induct) auto

lemma distinct_assoc_set: "distinct (map fst d) \<Longrightarrow> distinct (map fst (assoc_set k v d))"
proof (induction k v d rule: assoc_set.induct)
  case (2 k v k' v' xs)
  then show ?case using fst_assoc_set [of k v xs] by (auto simp: image_iff)
qed simp

lemma topic_groups_subscribe:
  "topic_groups (subscribe t h g b) t' =
     (if t' = t then assoc_set g ((case map_of (topic_groups b t) g of None \<Rightarrow> [] | Some hs \<Rightarrow> hs) @ [h]) (topic_groups b t)
      else topic_groups b t')"
  by (simp add: topic_groups_def subscribe_def Let_def)

lemma topic_groups_empty [simp]: "topic_groups InMemoryBroker t = []"
  by (simp add: InMemoryBroker_def topic_groups_def)

lemma broker_ok_subscribe: "broker_ok b \<Longrightarrow> broker_ok (subscribe t h g b)"
  by (simp add: broker_ok_def topic_groups_subscribe distinct_assoc_set)

lemma broker_ok_empty: "broker_ok InMemoryBroker"
  by (simp add: broker_ok_def InMemoryBroker_def topic_groups_def)

lemma publish_sel:
  assumes "broker_ok b"
  shows "mb_groups (snd (publish m b)) = mb_groups b" "topic_groups (snd (publish m b)) = topic_groups b"
    "broker_ok (snd (publish m b))" "mb_tasks (snd (publish m b)) = mb_tasks b @ chosen b m (topic_groups b (m_topic m))"
proof -
  show g: "mb_groups (snd (publish m b)) = mb_groups b" by (simp add: publish_def)
  then show "topic_groups (snd (publish m b)) = topic_groups b" by (rule topic_groups_cong)
  then show "broker_ok (snd (publish m b))" using assms by (simp add: broker_ok_def)
  show "mb_tasks (snd (publish m b)) = mb_tasks b @ chosen b m (topic_groups b (m_topic m))"
    using assms by (simp add: publish_def broker_ok_def publish_groups_tasks)
qed

subsection \<open>Fair delivery inside a group\<close>

definition publish_all :: "message list \<Rightarrow> 'h memory_broker \<Rightarrow> 'h memory_broker" where
  "publish_all ms b = fold (\<lambda>m b. snd (publish m b)) ms b"

fun round_robin :: "'h list \<Rightarrow> nat \<Rightarrow> message list \<Rightarrow> ('h \<times> message) list" where
  "round_robin hs c [] = []"
| "round_robin hs c (m # ms) = (hs ! (c mod length hs), m) # round_robin hs (c + 1) ms"

lemma round_robin_mod: "round_robin hs (c mod length hs + k) ms = round_robin hs (c + k) ms"
  by (induction ms arbitrary: k) (simp_all add: mod_simps, metis add_Suc_right)

lemma map_snd_round_robin [simp]: "map snd (round_robin hs c ms) = ms"
  by (induction hs c ms rule: round_robin.induct) auto

lemma round_robin_append: "round_robin hs c (xs @ ys) = round_robin hs c xs @ round_robin hs (c + length xs) ys"
  by (induction hs c xs rule: round_robin.induct) auto

lemma upt_Suc_shift: "[0..<Suc n] = 0 # map Suc [0..<n]"
  by (simp add: map_Suc_upt upt_conv_Cons del: upt_Suc)

lemma round_robin_picks: "map fst (round_robin hs c ms) = map (\<lambda>i. hs ! ((c + i) mod length hs)) [0..<length ms]"
proof (induction hs c ms rule: round_robin.induct)
  case (2 hs c m ms)
  then show ?case by (simp add: upt_Suc_shift comp_def del: upt_Suc)
qed simp

lemma round_robin_round: "length ms = length hs \<Longrightarrow> map fst (round_robin hs c ms) = rotate c hs"
  by (rule nth_equalityI) (auto simp: round_robin_picks nth_rotate add.commute)

lemma count_round_robin:
  assumes "length ms = k * length hs" "distinct hs" "h \<in> set hs"
  shows "length (filter (\<lambda>x. fst x = h) (round_robin hs c ms)) = k"
  using assms(1)
proof (induction k arbitrary: ms c)
  case (Suc k)
  let ?n = "length hs"
  define xs ys where "xs = take ?n ms" and "ys = drop ?n ms"
  have ms: "ms = xs @ ys" "length xs = ?n" "length ys = k * ?n" using Suc.prems by (auto simp: xs_def ys_def)
  have "length (filter (\<lambda>x. fst x = h) (round_robin hs c xs)) = length (filter (\<lambda>x. x = h) (map fst (round_robin hs c xs)))"
    by (simp add: filter_map comp_def)
  also have "\<dots> = length (filter (\<lambda>x. x = h) (rotate c hs))" by (simp add: round_robin_round ms)
  also have "\<dots> = card {i. i < length (rotate c hs) \<and> rotate c hs ! i = h}"
    by (simp add: length_filter_conv_card)
  also have "\<dots> = 1"
  proof -
    obtain j where j: "j < length (rotate c hs)" "rotate c hs ! j = h"
      using assms(3) by (metis in_set_conv_nth set_rotate)
    then have "{i. i < length (rotate c hs) \<and> rotate c hs ! i = h} = {j}"
      using assms(2) by (auto simp del: length_rotate simp: nth_eq_iff_index_eq)
    then show ?thesis by simp
  qed
  finally show ?case using Suc.IH [of ys] ms by (simp add: round_robin_append)
qed simp

lemma group_tasks:
  assumes "broker_ok b" "map_of (topic_groups b t) g = Some hs" "hs \<noteq> []"
    and "\<And>g' hs'. (g', hs') \<in> set (topic_groups b t) \<Longrightarrow> g' \<noteq> g \<Longrightarrow> set hs \<inter> set hs' = {}"
    and "\<forall>m \<in> set ms. m_topic m = t"
  shows "filter (\<lambda>x. fst x \<in> set hs) (mb_tasks (publish_all ms b)) =
    filter (\<lambda>x. fst x \<in> set hs) (mb_tasks b) @ round_robin hs (rr_count b t g) ms"
  using assms
proof (induction ms arbitrary: b)
  case (Cons m ms)
  let ?b = "snd (publish m b)" and ?gs = "topic_groups b t" and ?c = "rr_count b t g"
  have d: "distinct (map fst ?gs)" using Cons.prems(1) by (simp add: broker_ok_def)
  have t: "m_topic m = t" using Cons.prems(5) by simp
  have mem: "(g, hs) \<in> set ?gs" using Cons.prems(2) by (rule map_of_SomeD)
  have rr: "rr_count ?b t g = ?c mod length hs + 1"
    using publish_groups_rr [OF d mem Cons.prems(3), of m b] by (simp add: publish_def t)
  have own: "filter (\<lambda>x. fst x \<in> set hs) (chosen b m gs) =
      (if (g, hs) \<in> set gs then [(hs ! (?c mod length hs), m)] else [])"
    if "set gs \<subseteq> set ?gs" "distinct (map fst gs)" for gs
    using that
  proof (induction gs)
    case (Cons p gs)
    obtain g' hs' where p: "p = (g', hs')" by force
    show ?case
    proof (cases "g' = g")
      case True
      then have "hs' = hs" using Cons.prems mem d p by (auto simp: eq_key_imp_eq_value)
      with True Cons p \<open>hs \<noteq> []\<close> show ?thesis
        by (auto simp: chosen_def t image_iff)
    next
      case False
      then have "set hs \<inter> set hs' = {}" using Cons.prems \<open>\<And>g' hs'. (g', hs') \<in> set ?gs \<Longrightarrow> g' \<noteq> g \<Longrightarrow> set hs \<inter> set hs' = {}\<close> p by auto
      then have "hs' \<noteq> [] \<Longrightarrow> hs' ! (rr_count b t g' mod length hs') \<notin> set hs"
        by (metis disjoint_iff length_greater_0_conv mod_less_divisor nth_mem)
      with False Cons p show ?thesis by (auto simp: chosen_def t)
    qed
  qed (simp add: chosen_def)
  have "filter (\<lambda>x. fst x \<in> set hs) (mb_tasks (publish_all ms ?b)) =
      filter (\<lambda>x. fst x \<in> set hs) (mb_tasks ?b) @ round_robin hs (rr_count ?b t g) ms"
    using Cons.prems publish_sel [OF Cons.prems(1), of m] by (intro Cons.IH) auto
  moreover have "filter (\<lambda>x. fst x \<in> set hs) (mb_tasks ?b) =
      filter (\<lambda>x. fst x \<in> set hs) (mb_tasks b) @ [(hs ! (?c mod length hs), m)]"
    using own [of ?gs] d mem by (simp add: publish_sel [OF Cons.prems(1)] t)
  ultimately show ?case
    using round_robin_mod [of hs ?c 1 ms] by (simp add: publish_all_def rr)
qed (simp add: publish_all_def)

text \<open>
  C29: Inside a consumer group the in-memory broker shares the load fairly and loses nothing: every
  message published on the topic is handed to exactly one handler of the group, in the order of
  publication, and after \<open>k\<close> rounds each handler has got \<open>k\<close> messages.
\<close>

theorem broker_round_robin:
  assumes "broker_ok b" "map_of (topic_groups b t) g = Some hs" "hs \<noteq> []" "distinct hs" "mb_tasks b = []"
    and "\<And>g' hs'. (g', hs') \<in> set (topic_groups b t) \<Longrightarrow> g' \<noteq> g \<Longrightarrow> set hs \<inter> set hs' = {}"
    and "\<forall>m \<in> set ms. m_topic m = t" "length ms = k * length hs"
  shows "map snd (filter (\<lambda>x. fst x \<in> set hs) (mb_tasks (publish_all ms b))) = ms \<and>
    list_all (\<lambda>h. length (filter (\<lambda>x. fst x = h) (mb_tasks (publish_all ms b))) = k) hs"
proof -
  have tasks: "filter (\<lambda>x. fst x \<in> set hs) (mb_tasks (publish_all ms b)) = round_robin hs (rr_count b t g) ms"
    using group_tasks [OF assms(1,2,3) _ assms(7)] assms(5,6) by simp
  have "length (filter (\<lambda>x. fst x = h) (mb_tasks (publish_all ms b))) = k" if "h \<in> set hs" for h
  proof -
    have eq: "filter (\<lambda>x. fst x = h) (mb_tasks (publish_all ms b)) =
        filter (\<lambda>x. fst x = h) (filter (\<lambda>x. fst x \<in> set hs) (mb_tasks (publish_all ms b)))"
      using that by (auto intro: filter_cong)
    show ?thesis unfolding eq tasks using count_round_robin [OF assms(8,4) that] by simp
  qed
  then show ?thesis by (simp add: tasks list_all_iff)
qed

definition demo_broker :: "string memory_broker" where
  "demo_broker = subscribe ''t'' ''c'' ''other'' (subscribe ''t'' ''b'' ''pool'' (subscribe ''t'' ''a'' ''pool'' InMemoryBroker))"

theorem broker_round_robin_witness:
  "map snd (filter (\<lambda>x. fst x \<in> set [''a'', ''b'']) (mb_tasks (publish_all (replicate 4 (message_of ''t'' JNull None)) demo_broker))) =
     replicate 4 (message_of ''t'' JNull None) \<and>
   length (filter (\<lambda>x. fst x = ''b'') (mb_tasks (publish_all (replicate 4 (message_of ''t'' JNull None)) demo_broker))) = 2"
proof -
  have ok: "broker_ok demo_broker"
    unfolding demo_broker_def by (intro broker_ok_subscribe broker_ok_empty)
  have gs: "topic_groups demo_broker ''t'' = [(''pool'', [''a'', ''b'']), (''other'', [''c''])]" "mb_tasks demo_broker = []"
    by (simp_all add: demo_broker_def subscribe_def topic_groups_def InMemoryBroker_def Let_def)
  show ?thesis
    using broker_round_robin [OF ok, of "''t''" "''pool''" "[''a'', ''b'']" "replicate 4 (message_of ''t'' JNull None)" 2] gs
    by (simp add: message_of_def)
qed

subsection \<open>The publisher's interface\<close>

text \<open>
  What a publisher relies on: of each message of the topic \<open>T\<close> one copy reaches the inbox, in order.
  \<open>wired\<close> is what the set-up has to provide.
\<close>

locale event_sink =
  fixes send :: "message \<Rightarrow> 'b \<Rightarrow> (exn + unit) \<times> 'b" and wired :: "'b \<Rightarrow> bool"
    and inbox :: "'b \<Rightarrow> message list" and T :: string
  assumes send_wired: "wired b \<Longrightarrow> wired (snd (send m b))"
    and send_returns: "wired b \<Longrightarrow> fst (send m b) = Inr ()"
    and send_inbox: "wired b \<Longrightarrow> inbox (snd (send m b)) = inbox b @ (if m_topic m = T then [m] else [])"
begin

lemma sends:
  assumes "wired b"
  shows "wired (fold (\<lambda>m b. snd (send m b)) ms b) \<and>
    inbox (fold (\<lambda>m b. snd (send m b)) ms b) = inbox b @ filter (\<lambda>m. m_topic m = T) ms"
  using assms by (induction ms arbitrary: b) (auto simp: send_wired send_inbox)

end

text \<open>The in-memory broker provides it for a handler that is alone in one group of the topic.\<close>

definition sole_consumer :: "string \<Rightarrow> 'h \<Rightarrow> 'h memory_broker \<Rightarrow> bool" where
  "sole_consumer T h b \<longleftrightarrow> broker_ok b \<and> (\<exists>g. (g, [h]) \<in> set (topic_groups b T) \<and>
     (\<forall>t g' hs'. (g', hs') \<in> set (topic_groups b t) \<longrightarrow> h \<in> set hs' \<longrightarrow> t = T \<and> g' = g))"

definition inbox_of :: "'h \<Rightarrow> 'h memory_broker \<Rightarrow> message list" where
  "inbox_of h b = map snd (filter (\<lambda>x. fst x = h) (mb_tasks b))"

lemma chosen_handler: "x \<in> set (chosen b m gs) \<Longrightarrow> \<exists>g hs. (g, hs) \<in> set gs \<and> fst x \<in> set hs"
  by (fastforce simp: chosen_def)

lemma inbox_publish:
  assumes "sole_consumer T h b"
  shows "inbox_of h (snd (publish m b)) = inbox_of h b @ (if m_topic m = T then [m] else [])"
proof -
  obtain g where g: "broker_ok b" "(g, [h]) \<in> set (topic_groups b T)"
    "\<And>t g' hs'. (g', hs') \<in> set (topic_groups b t) \<Longrightarrow> h \<in> set hs' \<Longrightarrow> t = T \<and> g' = g"
    using assms by (auto simp: sole_consumer_def)
  show ?thesis
  proof (cases "m_topic m = T")
    case True
    have "set [h] \<inter> set hs' = {}" if "(g', hs') \<in> set (topic_groups b T)" "g' \<noteq> g" for g' hs'
      using g(3) that by auto
    moreover have "map_of (topic_groups b T) g = Some [h]"
      using g(1,2) by (simp add: broker_ok_def)
    ultimately show ?thesis
      using group_tasks [of b T g "[h]" "[m]"] g(1) True by (simp add: publish_all_def inbox_of_def)
  next
    case False
    then have "filter (\<lambda>x. fst x = h) (chosen b m (topic_groups b (m_topic m))) = []"
      using g(3) by (auto simp: filter_empty_conv dest!: chosen_handler)
    with False show ?thesis by (simp add: inbox_of_def publish_sel [OF g(1)])
  qed
qed

interpretation memory_sink: event_sink publish "sole_consumer T h" "inbox_of h" T for T h
proof (unfold_locales, goal_cases)
  case (1 b m)
  then show ?case by (simp add: sole_consumer_def publish_sel)
next
  case (2 b m)
  then show ?case by (simp add: publish_def)
next
  case (3 b m)
  then show ?case by (rule inbox_publish)
qed

subsection \<open>Typed events\<close>

text \<open>
  An event class: its topic, \<^verbatim>\<open>model_dump\<close> and \<^verbatim>\<open>model_validate\<close> (\<^const>\<open>None\<close> for a \<^verbatim>\<open>ValidationError\<close>).
\<close>

record 'e event_class =
  ev_topic :: string
  ev_dump :: "'e \<Rightarrow> json"
  ev_validate :: "json \<Rightarrow> 'e option"

definition bus_publish :: "(message \<Rightarrow> 'b \<Rightarrow> (exn + unit) \<times> 'b) \<Rightarrow> 'e event_class \<Rightarrow> 'e \<Rightarrow> 'b \<Rightarrow> (exn + unit) \<times> 'b" where
  "bus_publish send C event = send (message_of (ev_topic C) (ev_dump C event) None)"

text \<open>The function \<^verbatim>\<open>_wrapped\<close> that the bus subscribes in place of the handler.\<close>

definition bus_wrapped :: "'e event_class \<Rightarrow> ('e \<Rightarrow> 's \<Rightarrow> (exn + unit) \<times> 's) \<Rightarrow> message \<Rightarrow> 's \<Rightarrow> (exn + unit) \<times> 's" where
  "bus_wrapped C handler m s = (case ev_validate C (m_payload m) of None \<Rightarrow> (Inr (), s) | Some event \<Rightarrow> handler event s)"

definition bus_subscribe :: "'e event_class \<Rightarrow> 'h \<Rightarrow> string \<Rightarrow> 'h memory_broker \<Rightarrow> 'h memory_broker" where
  "bus_subscribe C handler grp = subscribe (ev_topic C) handler grp"

lemma wrapped_published:
  "ev_validate C (ev_dump C e) = Some e \<Longrightarrow>
   bus_wrapped C handler (message_of (ev_topic C) (ev_dump C e) None) s = handler e s"
  by (simp add: bus_wrapped_def message_of_def)

end
