(* ===== verification/Outbox.thy ===== *)
theory Outbox
  imports Repositories Broker
begin

section \<open>The outbox relay\<close>

text \<open>
  \<^verbatim>\<open>app/outbox/relay.py\<close> and the job \<^verbatim>\<open>cleanup_outbox\<close> of \<^verbatim>\<open>app/scheduler/jobs.py\<close>. One pass of the relay is
  three phases: a short transaction that reads a batch of unpublished rows, the publication of each
  outside any transaction, a short transaction that marks the rows that were sent. \<open>run_once\<close> is the
  pass alone; \<open>outbox_step\<close> is the same pass phase by phase, interleaved with the transactions of the
  web processes, with the cleanup and with crashes.
\<close>

type_synonym outbox_item = "uuid \<times> string \<times> json \<times> string option"

definition item_of :: "outbox_row \<Rightarrow> outbox_item" where
  "item_of r = (o_id r, o_topic r, o_payload r, o_key r)"

fun item_message :: "outbox_item \<Rightarrow> message" where
  "item_message (mid, topic, payload, key) = message_of topic payload key"

definition relay_fetch :: "engine \<Rightarrow> nat \<Rightarrow> outbox_item list tx" where
  "relay_fetch E batch_size = tx_bind (fetch_unpublished E batch_size) (\<lambda>rows. tx_return (map item_of rows))"

fun relay_publish :: "(message \<Rightarrow> 'b \<Rightarrow> (exn + unit) \<times> 'b) \<Rightarrow> outbox_item list \<Rightarrow> 'b \<Rightarrow> uuid list \<times> 'b" where
  "relay_publish send [] b = ([], b)"
| "relay_publish send ((mid, topic, payload, key) # rest) b =
     (case send (message_of topic payload key) b of
        (Inl e, b') \<Rightarrow> relay_publish send rest b'
      | (Inr _, b') \<Rightarrow> (let (sent_ids, b'') = relay_publish send rest b' in (mid # sent_ids, b'')))"

definition relay_mark :: "engine \<Rightarrow> timestamp \<Rightarrow> uuid list \<Rightarrow> unit tx" where
  "relay_mark E now sent_ids = tx_bind (mark_published E now sent_ids) (\<lambda>_. commit E)"

text \<open>\<open>E\<close> and \<open>E'\<close> are the database's faults in the first and in the last phase.\<close>

definition run_once ::
  "engine \<Rightarrow> engine \<Rightarrow> (message \<Rightarrow> 'b \<Rightarrow> (exn + unit) \<times> 'b) \<Rightarrow> nat \<Rightarrow> timestamp \<Rightarrow> db \<times> 'b \<Rightarrow> (exn + nat) \<times> db \<times> 'b" where
  "run_once E E' send batch_size now = (\<lambda>(d, b).
     case with_uow (relay_fetch E batch_size) (uow_init d) of
       (Inl e, u) \<Rightarrow> (Inl e, committed u, b)
     | (Inr batch, u) \<Rightarrow>
         if batch = [] then (Inr 0, committed u, b)
         else (case relay_publish send batch b of (sent_ids, b') \<Rightarrow>
           if sent_ids = [] then (Inr 0, committed u, b')
           else (case with_uow (relay_mark E' now sent_ids) (uow_init (committed u)) of
               (Inl e, u') \<Rightarrow> (Inl e, committed u', b')
             | (Inr _, u') \<Rightarrow> (Inr (length sent_ids), committed u', b'))))"

definition cleanup_outbox :: "engine \<Rightarrow> timestamp \<Rightarrow> int \<Rightarrow> nat tx" where
  "cleanup_outbox E now retention_days = with_uow
     (tx_bind (delete_published_before E (now - 86400 * retention_days)) (\<lambda>deleted.
        tx_bind (commit E) (\<lambda>_. tx_return deleted)))"

subsection \<open>What the phases do\<close>

definition unpublished :: "db \<Rightarrow> outbox_row list" where
  "unpublished d = sort_key o_created_at (filter (\<lambda>r. o_published_at r = None) (outbox_messages d))"

definition marked_db :: "timestamp \<Rightarrow> uuid list \<Rightarrow> db \<Rightarrow> db" where
  "marked_db now ids d = d\<lparr>outbox_messages :=
     map (\<lambda>r. if o_id r \<in> set ids then mark_row now r else r) (outbox_messages d)\<rparr>"

definition cleaned_db :: "timestamp \<Rightarrow> db \<Rightarrow> db" where
  "cleaned_db cutoff d = d\<lparr>outbox_messages := filter (\<lambda>r. \<not> is_stale cutoff r) (outbox_messages d)\<rparr>"

lemma mark_row_sel [simp]: "o_id (mark_row now r) = o_id r" "o_published_at (mark_row now r) = Some now"
  "item_of (mark_row now r) = item_of r"
  by (simp_all add: mark_row_def item_of_def)

lemma map_o_id_marked [simp]: "map o_id (outbox_messages (marked_db now ids d)) = map o_id (outbox_messages d)"
  by (simp add: marked_db_def)

lemma marked_ok: "db_ok d \<Longrightarrow> db_ok (marked_db now ids d)"
proof -
  assume ok: "db_ok d"
  have "users (marked_db now ids d) = users d" "profiles (marked_db now ids d) = profiles d"
    "accounts (marked_db now ids d) = accounts d" "transactions (marked_db now ids d) = transactions d"
    "categories (marked_db now ids d) = categories d"
    "transaction_categories (marked_db now ids d) = transaction_categories d"
    by (simp_all add: marked_db_def)
  with ok show ?thesis by (simp add: db_ok_def db_constraints_def columns_fit_def del: distinct_map)
qed

lemma distinct_outbox: "db_ok d \<Longrightarrow> distinct (map o_id (outbox_messages d))"
  by (simp add: db_ok_def db_constraints_def)

lemma cleaned_ok: "db_ok d \<Longrightarrow> db_ok (cleaned_db cutoff d)"
  by (simp add: cleaned_db_def db_ok_def db_constraints_def columns_fit_def)

text \<open>A transaction in a unit of work of its own fails without effect or has run to its end.\<close>

lemma uow_cases:
  assumes "with_uow m (uow_init d) = (r, u)" "atomic m"
  obtains e where "r = Inl e" "committed u = d"
    | x v where "m (opened d) = (Inr x, v)" "r = Inr x" "committed u = committed v"
proof (cases "m (opened d)")
  case (Pair q v)
  then have ru: "r = q" "committed u = committed v"
    using assms(1) by (simp_all add: with_uow_inactive uow_init_def split: prod.splits) (metis idle_sel(1))
  show ?thesis
  proof (cases q)
    case (Inl e)
    then have "committed v = d" using assms(2) Pair by (auto simp: atomic_def)
    with Inl ru that(1) show ?thesis by simp
  next
    case (Inr x)
    with Pair ru that(2) show ?thesis by simp
  qed
qed

lemma fetch_cases:
  assumes "with_uow (relay_fetch E n) (uow_init d) = (r, u)"
  shows "committed u = d \<and> ((\<exists>e. r = Inl e) \<or> r = Inr (map item_of (take n (unpublished d))))"
proof -
  have un: "uncommitted (relay_fetch E n)" unfolding relay_fetch_def by (intro keeps)
  from assms uncommitted_atomic [OF un] show ?thesis
  proof (cases rule: uow_cases)
    case (2 x v)
    then show ?thesis
      by (auto simp: relay_fetch_def fetch_unpublished_def runs unpublished_def)
  qed simp
qed

lemma fetch_healthy:
  "db_ok d \<Longrightarrow> E d = None \<Longrightarrow>
   with_uow (relay_fetch E n) (uow_init d) = (Inr (map item_of (take n (unpublished d))), idle d)"
proof -
  assume ok: "db_ok d" "E d = None"
  have "relay_fetch E n (opened d) = (Inr (map item_of (take n (unpublished d))), opened d)"
    using ok by (simp add: relay_fetch_def fetch_unpublished_def runs unpublished_def)
  then show ?thesis by (simp add: with_uow_inactive uow_init_def)
qed

lemma mark_Inr:
  "ids \<noteq> [] \<Longrightarrow> relay_mark E now ids (opened d) = (Inr x, u) \<Longrightarrow> committed u = marked_db now ids d"
  by (auto simp: relay_mark_def mark_published_def runs marked_db_def)

lemma mark_cases:
  assumes "with_uow (relay_mark E now ids) (uow_init d) = (r, u)" "ids \<noteq> []"
  shows "((\<exists>e. r = Inl e) \<and> committed u = d) \<or> (r = Inr () \<and> committed u = marked_db now ids d)"
proof -
  have "atomic (relay_mark E now ids)" unfolding relay_mark_def by (intro keeps)
  with assms(1) show ?thesis
  proof (cases rule: uow_cases)
    case (2 x v)
    with mark_Inr [OF assms(2)] show ?thesis by fastforce
  qed simp
qed

lemma mark_healthy:
  assumes "db_ok d" "\<And>d. E d = None" "ids \<noteq> []"
  shows "with_uow (relay_mark E now ids) (uow_init d) = (Inr (), idle (marked_db now ids d))"
proof -
  have "\<exists>u. relay_mark E now ids (opened d) = (Inr (), u)"
    using assms marked_ok [OF assms(1), of now ids]
    by (simp add: relay_mark_def mark_published_def runs marked_db_def)
  then obtain u where "relay_mark E now ids (opened d) = (Inr (), u)" by blast
  with mark_Inr [OF assms(3) this] show ?thesis by (simp add: with_uow_inactive uow_init_def)
qed

lemma cleanup_cases:
  assumes "cleanup_outbox E now days (uow_init d) = (r, u)"
  shows "committed u = d \<or> committed u = cleaned_db (now - 86400 * days) d"
proof -
  have "atomic (tx_bind (delete_published_before E (now - 86400 * days)) (\<lambda>deleted.
      tx_bind (commit E) (\<lambda>_. tx_return deleted)))" by (intro keeps)
  with assms [unfolded cleanup_outbox_def] show ?thesis
  proof (cases rule: uow_cases)
    case (2 x v)
    then show ?thesis by (auto simp: runs delete_published_before_def cleaned_db_def)
  qed simp
qed

end
