(* ===== verification/Outbox_Delivery.thy ===== *)
theory Outbox_Delivery
  imports Outbox
begin

section \<open>Delivery guarantees of the outbox\<close>

text \<open>
  At-least-once: the phases of any number of relays (the lock that keeps them apart has a time limit),
  interleaved with the transactions that add events, with the cleanup and with crashes, never lose an
  event. Progress: with a broker that accepts and a database that answers, a pass publishes the oldest
  rows in order, and enough passes publish them all.
\<close>

subsection \<open>The interleaved system\<close>

datatype relay_phase = Idle | Publishing "outbox_item list" "uuid list"

text \<open>\<open>rs_emitted\<close> and \<open>rs_acked\<close> are histories: events committed, and publications the broker accepted.\<close>

record relay_sys =
  rs_db :: db
  rs_phase :: "nat \<Rightarrow> relay_phase"
  rs_emitted :: "(uuid \<times> message) list"
  rs_acked :: "(uuid \<times> message) list"

definition entry_of :: "outbox_row \<Rightarrow> uuid \<times> message" where
  "entry_of r = (o_id r, item_message (item_of r))"

inductive outbox_step :: "relay_sys \<Rightarrow> relay_sys \<Rightarrow> bool" where
  emit: "outbox_messages d = outbox_messages (rs_db s) @ rows \<Longrightarrow>
    \<forall>r \<in> set rows. o_published_at r = None \<and> o_id r \<notin> fst ` set (rs_emitted s) \<Longrightarrow> distinct (map o_id rows) \<Longrightarrow>
    outbox_step s (s\<lparr>rs_db := d, rs_emitted := rs_emitted s @ map entry_of rows\<rparr>)"
| fetch: "rs_phase s w = Idle \<Longrightarrow> with_uow (relay_fetch E n) (uow_init (rs_db s)) = (Inr batch, u) \<Longrightarrow>
    outbox_step s (s\<lparr>rs_db := committed u, rs_phase := (rs_phase s)(w := Publishing batch [])\<rparr>)"
| sent: "rs_phase s w = Publishing (it # rest) ids \<Longrightarrow>
    outbox_step s (s\<lparr>rs_phase := (rs_phase s)(w := Publishing rest (ids @ [fst it])),
      rs_acked := rs_acked s @ [(fst it, item_message it)]\<rparr>)"
| failed: "rs_phase s w = Publishing (it # rest) ids \<Longrightarrow>
    outbox_step s (s\<lparr>rs_phase := (rs_phase s)(w := Publishing rest ids)\<rparr>)"
| mark: "rs_phase s w = Publishing [] ids \<Longrightarrow> ids \<noteq> [] \<Longrightarrow>
    with_uow (relay_mark E now ids) (uow_init (rs_db s)) = (r, u) \<Longrightarrow>
    outbox_step s (s\<lparr>rs_db := committed u, rs_phase := (rs_phase s)(w := Idle)\<rparr>)"
| crash: "outbox_step s (s\<lparr>rs_phase := (rs_phase s)(w := Idle)\<rparr>)"
| cleanup: "cleanup_outbox E now days (uow_init (rs_db s)) = (r, u) \<Longrightarrow>
    outbox_step s (s\<lparr>rs_db := committed u\<rparr>)"

inductive outbox_reach :: "relay_sys \<Rightarrow> bool" where
  start: "outbox_messages d = [] \<Longrightarrow>
    outbox_reach \<lparr>rs_db = d, rs_phase = (\<lambda>_. Idle), rs_emitted = [], rs_acked = []\<rparr>"
| next_step: "outbox_reach s \<Longrightarrow> outbox_step s s' \<Longrightarrow> outbox_reach s'"

text \<open>The strengthened invariant.\<close>

fun phase_ok :: "relay_sys \<Rightarrow> relay_phase \<Rightarrow> bool" where
  "phase_ok s Idle = True"
| "phase_ok s (Publishing batch ids) \<longleftrightarrow>
     (\<forall>it \<in> set batch. (fst it, item_message it) \<in> set (rs_emitted s)) \<and> set ids \<subseteq> fst ` set (rs_acked s)"

definition outbox_inv :: "relay_sys \<Rightarrow> bool" where
  "outbox_inv s \<longleftrightarrow> distinct (map fst (rs_emitted s)) \<and> set (rs_acked s) \<subseteq> set (rs_emitted s) \<and>
     (\<forall>r \<in> set (outbox_messages (rs_db s)). entry_of r \<in> set (rs_emitted s) \<and>
        (o_published_at r \<noteq> None \<longrightarrow> entry_of r \<in> set (rs_acked s))) \<and>
     set (rs_emitted s) \<subseteq> set (rs_acked s) \<union>
        entry_of ` {r \<in> set (outbox_messages (rs_db s)). o_published_at r = None} \<and>
     (\<forall>w. phase_ok s (rs_phase s w))"

lemma entry_of_marked [simp]: "entry_of (mark_row now r) = entry_of r"
  by (simp add: entry_of_def)

lemma phase_ok_mono:
  "phase_ok s p \<Longrightarrow> set (rs_emitted s) \<subseteq> set (rs_emitted s') \<Longrightarrow> set (rs_acked s) \<subseteq> set (rs_acked s') \<Longrightarrow> phase_ok s' p"
  by (cases p) (force+)

lemma inv_phase: "outbox_inv s \<Longrightarrow> rs_phase s w = p \<Longrightarrow> phase_ok s p"
  by (auto simp: outbox_inv_def)

lemma inv_fewer_rows:
  assumes "outbox_inv s" "set (outbox_messages d) \<subseteq> set (outbox_messages (rs_db s))"
    and "{r \<in> set (outbox_messages d). o_published_at r = None} =
      {r \<in> set (outbox_messages (rs_db s)). o_published_at r = None}"
  shows "outbox_inv (s\<lparr>rs_db := d\<rparr>)"
proof -
  note i = assms(1) [unfolded outbox_inv_def]
  have "phase_ok (s\<lparr>rs_db := d\<rparr>) (rs_phase s w)" for w using i by (auto intro: phase_ok_mono)
  moreover have "set (rs_emitted s) \<subseteq> set (rs_acked s) \<union> entry_of ` {r \<in> set (outbox_messages d). o_published_at r = None}"
    using i unfolding assms(3) by simp
  moreover have "\<forall>r \<in> set (outbox_messages d). entry_of r \<in> set (rs_emitted s) \<and>
      (o_published_at r \<noteq> None \<longrightarrow> entry_of r \<in> set (rs_acked s))"
    using i assms(2) by blast
  ultimately show ?thesis using i by (simp add: outbox_inv_def)
qed

lemma inv_marked:
  assumes "outbox_inv s" "set ids \<subseteq> fst ` set (rs_acked s)"
  shows "outbox_inv (s\<lparr>rs_db := marked_db now ids (rs_db s), rs_phase := (rs_phase s)(w := Idle)\<rparr>)"
proof -
  note i = assms(1) [unfolded outbox_inv_def]
  have own: "entry_of r \<in> set (rs_acked s)" if "r \<in> set (outbox_messages (rs_db s))" "o_id r \<in> set ids" for r
  proof -
    obtain m where m: "(o_id r, m) \<in> set (rs_acked s)" using assms(2) \<open>o_id r \<in> set ids\<close> by force
    then have "(o_id r, m) \<in> set (rs_emitted s)" "entry_of r \<in> set (rs_emitted s)" using i \<open>r \<in> _\<close> by auto
    then have "snd (entry_of r) = m" using i by (auto simp: entry_of_def dest: eq_key_imp_eq_value)
    with m show ?thesis by (simp add: entry_of_def)
  qed
  have rows: "\<forall>r \<in> set (outbox_messages (marked_db now ids (rs_db s))). entry_of r \<in> set (rs_emitted s) \<and>
        (o_published_at r \<noteq> None \<longrightarrow> entry_of r \<in> set (rs_acked s))"
    using i own by (auto simp: marked_db_def)
  have "p \<in> set (rs_acked s) \<union> entry_of ` {r \<in> set (outbox_messages (marked_db now ids (rs_db s))). o_published_at r = None}"
    if "p \<in> set (rs_emitted s)" for p
  proof (cases "p \<in> set (rs_acked s)")
    case False
    with i that obtain r where r: "r \<in> set (outbox_messages (rs_db s))" "o_published_at r = None" "p = entry_of r"
      by auto
    with own False have "o_id r \<notin> set ids" by auto
    with r show ?thesis by (auto simp: marked_db_def image_iff intro!: bexI [of _ r])
  qed simp
  with i rows show ?thesis by (auto simp: outbox_inv_def intro: phase_ok_mono)
qed

lemma outbox_inv_step: "outbox_step s s' \<Longrightarrow> outbox_inv s \<Longrightarrow> outbox_inv s'"
proof (induction rule: outbox_step.induct)
  case (emit d s rows)
  have "distinct (map fst (rs_emitted s @ map entry_of rows))"
  proof -
    have "map fst (map entry_of rows) = map o_id rows" by (simp add: entry_of_def)
    moreover have "fst ` set (rs_emitted s) \<inter> o_id ` set rows = {}" using emit(2) by force
    ultimately show ?thesis
      using emit by (simp add: outbox_inv_def distinct_append del: map_map)
  qed
  moreover have "phase_ok (s\<lparr>rs_db := d, rs_emitted := rs_emitted s @ map entry_of rows\<rparr>) (rs_phase s w)" for w
    using emit.prems by (auto simp: outbox_inv_def intro: phase_ok_mono)
  ultimately show ?case using emit unfolding outbox_inv_def by auto
next
  case (fetch s w E n batch u)
  then have u: "committed u = rs_db s" "batch = map item_of (take n (unpublished (rs_db s)))"
    using fetch_cases by fastforce+
  then have "\<forall>it \<in> set batch. (fst it, item_message it) \<in> set (rs_emitted s)"
    using fetch.prems
    by (auto simp: outbox_inv_def unpublished_def entry_of_def item_of_def dest!: in_set_takeD)
  with fetch u show ?case by (auto simp: outbox_inv_def intro: phase_ok_mono)
next
  case (sent s w it rest ids)
  note ok2 = inv_phase [OF sent.prems sent.hyps]
  then have ok: "(fst it, item_message it) \<in> set (rs_emitted s)" by simp
  let ?s = "s\<lparr>rs_phase := (rs_phase s)(w := Publishing rest (ids @ [fst it])),
      rs_acked := rs_acked s @ [(fst it, item_message it)]\<rparr>"
  have "phase_ok ?s (rs_phase ?s v)" for v
    using sent.prems ok2 by (auto simp: outbox_inv_def intro: phase_ok_mono)
  with sent.prems ok show ?case by (auto simp: outbox_inv_def)
next
  case (failed s w it rest ids)
  have "phase_ok s (Publishing (it # rest) ids)" using inv_phase [OF failed.prems failed.hyps] .
  with failed.prems show ?case by (auto simp: outbox_inv_def intro: phase_ok_mono)
next
  case (mark s w ids E now r u)
  have "phase_ok s (Publishing [] ids)" using inv_phase [OF mark.prems mark.hyps(1)] .
  then have ids: "set ids \<subseteq> fst ` set (rs_acked s)" by simp
  from mark_cases [OF mark.hyps(3,2)] show ?case
  proof
    assume "r = Inr () \<and> committed u = marked_db now ids (rs_db s)"
    with inv_marked [OF mark.prems ids] show ?thesis by simp
  qed (use mark.prems in \<open>auto simp: outbox_inv_def intro: phase_ok_mono\<close>)
next
  case (crash s w)
  then show ?case by (auto simp: outbox_inv_def intro: phase_ok_mono)
next
  case (cleanup E now days s r u)
  have "{r \<in> set (outbox_messages (cleaned_db c (rs_db s))). o_published_at r = None} =
      {r \<in> set (outbox_messages (rs_db s)). o_published_at r = None}" for c
    by (auto simp: cleaned_db_def is_stale_def)
  moreover have "set (outbox_messages (cleaned_db c (rs_db s))) \<subseteq> set (outbox_messages (rs_db s))" for c
    by (auto simp: cleaned_db_def)
  ultimately have "outbox_inv (s\<lparr>rs_db := cleaned_db c (rs_db s)\<rparr>)" for c
    using inv_fewer_rows [OF cleanup.prems] by blast
  with cleanup_cases [OF cleanup.hyps] cleanup.prems show ?case by auto
qed

lemma reach_inv: "outbox_reach s \<Longrightarrow> outbox_inv s"
proof (induction rule: outbox_reach.induct)
  case (next_step s s')
  then show ?case by (blast intro: outbox_inv_step)
qed (simp add: outbox_inv_def)

text \<open>
  C14: No event is lost. However the relays, the cleanup and crashes interleave, every event that was
  committed with its business data has been accepted by the broker or is still unpublished in the
  outbox, where the next pass finds it; and the broker was given nothing else.
\<close>

theorem outbox_never_loses:
  assumes "outbox_reach s"
  shows "set (rs_emitted s) \<subseteq> set (rs_acked s) \<union> entry_of ` set (unpublished (rs_db s)) \<and>
    set (rs_acked s) \<subseteq> set (rs_emitted s)"
  using reach_inv [OF assms] by (auto simp: outbox_inv_def unpublished_def)

definition demo_outbox_row :: outbox_row where
  "demo_outbox_row = \<lparr>o_id = ''e1'', o_topic = ''users.created'', o_payload = JNull, o_key = None,
     o_created_at = 5, o_published_at = None, o_attempts = 0\<rparr>"

lemma demo_emitted: "outbox_reach \<lparr>rs_db = empty_db\<lparr>outbox_messages := [demo_outbox_row]\<rparr>,
    rs_phase = (\<lambda>_. Idle), rs_emitted = [entry_of demo_outbox_row], rs_acked = []\<rparr>"
  using outbox_reach.next_step [OF outbox_reach.start [of empty_db]
      outbox_step.emit [of "empty_db\<lparr>outbox_messages := [demo_outbox_row]\<rparr>" _ "[demo_outbox_row]"]]
  by (simp add: empty_db_def demo_outbox_row_def)

theorem outbox_never_loses_witness:
  "entry_of demo_outbox_row \<in> entry_of ` set (unpublished (empty_db\<lparr>outbox_messages := [demo_outbox_row]\<rparr>))"
  using outbox_never_loses [OF demo_emitted] by simp

subsection \<open>A pass refines the interleaved phases\<close>

lemma sent_steps:
  assumes "rs_phase s w = Publishing batch ids"
  shows "\<exists>s'. outbox_step\<^sup>*\<^sup>* s s' \<and> rs_db s' = rs_db s \<and>
    rs_phase s' = (rs_phase s)(w := Publishing [] (ids @ fst (relay_publish send batch b)))"
  using assms
proof (induction send batch b arbitrary: s ids rule: relay_publish.induct)
  case (1 send b)
  then show ?case by (intro exI [of _ s]) (simp add: fun_upd_idem)
next
  case (2 send mid topic payload key rest b)
  obtain r b' where r: "send (message_of topic payload key) b = (r, b')" by force
  show ?case
  proof (cases r)
    case (Inl e)
    let ?s = "s\<lparr>rs_phase := (rs_phase s)(w := Publishing rest ids)\<rparr>"
    have "rs_phase ?s w = Publishing rest ids" by simp
    from 2(1) [OF r [symmetric] Inl this] obtain s' where p: "outbox_step\<^sup>*\<^sup>* ?s s'" "rs_db s' = rs_db ?s"
      "rs_phase s' = (rs_phase ?s)(w := Publishing [] (ids @ fst (relay_publish send rest b')))" by blast
    then have s': "rs_db s' = rs_db s" "rs_phase s' = (rs_phase s)(w := Publishing [] (ids @ fst (relay_publish send rest b')))"
      by simp_all
    have "outbox_step s ?s" using 2(3) by (rule outbox_step.failed)
    then have "outbox_step\<^sup>*\<^sup>* s s'" using p(1) by (rule converse_rtranclp_into_rtranclp)
    with s' r Inl show ?thesis by (intro exI [of _ s'] conjI) simp_all
  next
    case (Inr x)
    let ?s = "s\<lparr>rs_phase := (rs_phase s)(w := Publishing rest (ids @ [mid])),
      rs_acked := rs_acked s @ [(mid, message_of topic payload key)]\<rparr>"
    have "rs_phase ?s w = Publishing rest (ids @ [mid])" by simp
    from 2(2) [OF r [symmetric] Inr this] obtain s' where p: "outbox_step\<^sup>*\<^sup>* ?s s'" "rs_db s' = rs_db ?s"
      "rs_phase s' = (rs_phase ?s)(w := Publishing [] ((ids @ [mid]) @ fst (relay_publish send rest b')))" by blast
    then have s': "rs_db s' = rs_db s" "rs_phase s' = (rs_phase s)(w := Publishing [] ((ids @ [mid]) @ fst (relay_publish send rest b')))"
      by simp_all
    have "outbox_step s ?s" using outbox_step.sent [OF 2(3)] by simp
    then have "outbox_step\<^sup>*\<^sup>* s s'" using p(1) by (rule converse_rtranclp_into_rtranclp)
    with s' r Inr show ?thesis by (intro exI [of _ s'] conjI) (simp_all add: case_prod_beta)
  qed
qed


subsection \<open>Progress\<close>

lemma marked_nothing: "marked_db now [] d = d"
  by (simp add: marked_db_def)

lemma filter_not_taken:
  "distinct (map f xs) \<Longrightarrow> filter (\<lambda>x. f x \<notin> f ` set (take n xs)) xs = drop n xs"
proof -
  assume d: "distinct (map f xs)"
  have "filter (\<lambda>x. f x \<notin> f ` set (take n xs)) (take n xs @ drop n xs) = drop n xs"
  proof (subst filter_append, subst filter_False)
    have "f x \<notin> f ` set (take n xs)" if "x \<in> set (drop n xs)" for x
    proof -
      have "distinct (map f (take n xs) @ map f (drop n xs))"
        using d by (metis append_take_drop_id map_append)
      with that show ?thesis by auto
    qed
    then show "[] @ filter (\<lambda>x. f x \<notin> f ` set (take n xs)) (drop n xs) = drop n xs" by simp
  qed simp
  then show ?thesis by simp
qed

lemma filter_marked:
  "filter (\<lambda>r. o_published_at r = None) (map (\<lambda>r. if o_id r \<in> I then mark_row now r else r) rs) =
   filter (\<lambda>r. o_id r \<notin> I) (filter (\<lambda>r. o_published_at r = None) rs)"
  by (induction rs) auto

lemma unpublished_marked:
  assumes "distinct (map o_id (outbox_messages d))"
  shows "unpublished (marked_db now (map o_id (take n (unpublished d))) d) = drop n (unpublished d)"
proof -
  let ?I = "o_id ` set (take n (unpublished d))"
  have dist: "distinct (map o_id (unpublished d))"
    using assms by (auto simp: unpublished_def distinct_map intro: inj_on_subset)
  have "filter (\<lambda>r. o_published_at r = None) (outbox_messages (marked_db now (map o_id (take n (unpublished d))) d)) =
      filter (\<lambda>r. o_id r \<notin> ?I) (filter (\<lambda>r. o_published_at r = None) (outbox_messages d))"
    by (simp add: marked_db_def filter_marked)
  then have "unpublished (marked_db now (map o_id (take n (unpublished d))) d) =
      filter (\<lambda>r. o_id r \<notin> ?I) (unpublished d)"
    by (simp add: unpublished_def filter_sort)
  with filter_not_taken [OF dist] show ?thesis by simp
qed

context event_sink
begin

lemma publish_batch:
  "wired b \<Longrightarrow> relay_publish send batch b =
     (map fst batch, fold (\<lambda>m b. snd (send m b)) (map item_message batch) b)"
proof (induction batch arbitrary: b)
  case (Cons it rest)
  obtain mid topic payload key where it: "it = (mid, topic, payload, key)" by (cases it)
  obtain r b' where r: "send (message_of topic payload key) b = (r, b')" by force
  then have "r = Inr ()" "wired b'" using send_returns [OF Cons.prems] send_wired [OF Cons.prems] by (metis fst_conv snd_conv)+
  with r it Cons.IH show ?case by simp
qed simp

lemma pass:
  assumes "wired b" "db_ok d" "\<And>d. E d = None"
  shows "run_once E E send n now (d, b) =
     (Inr (length (take n (unpublished d))), marked_db now (map o_id (take n (unpublished d))) d,
      fold (\<lambda>m b. snd (send m b)) (map (item_message \<circ> item_of) (take n (unpublished d))) b)"
proof (cases "take n (unpublished d) = []")
  case True
  then show ?thesis using assms
    by (simp add: run_once_def fetch_healthy marked_nothing del: take_eq_Nil take_eq_Nil2)
next
  case False
  let ?batch = "map item_of (take n (unpublished d))"
  have pub: "relay_publish send ?batch b = (map o_id (take n (unpublished d)),
      fold (\<lambda>m b. snd (send m b)) (map (item_message \<circ> item_of) (take n (unpublished d))) b)"
    using publish_batch [OF assms(1), of ?batch] by (simp add: comp_def item_of_def)
  show ?thesis
    using False fetch_healthy [where E = E and n = n, OF assms(2,3)] pub
      mark_healthy [OF assms(2,3), where ids = "map o_id (take n (unpublished d))" and now = now]
    by (simp add: run_once_def del: take_eq_Nil take_eq_Nil2)
qed

lemma passes:
  assumes "wired b" "db_ok d" "\<And>d. E d = None"
    and "fold (\<lambda>now x. snd (run_once E E send n now x)) nows (d, b) = (d', b')"
  shows "wired b' \<and> db_ok d' \<and> unpublished d' = drop (length nows * n) (unpublished d) \<and>
    inbox b' = inbox b @ filter (\<lambda>m. m_topic m = T)
      (map (item_message \<circ> item_of) (take (length nows * n) (unpublished d)))"
  using assms
proof (induction nows arbitrary: b d)
  case (Cons now nows)
  let ?us = "unpublished d"
  let ?ms = "map (item_message \<circ> item_of) (take n ?us)"
  let ?d = "marked_db now (map o_id (take n ?us)) d" and ?b = "fold (\<lambda>m b. snd (send m b)) ?ms b"
  have run: "fold (\<lambda>now x. snd (run_once E E send n now x)) nows (?d, ?b) = (d', b')"
    using Cons.prems(4) by (simp add: pass [OF Cons.prems(1-3)])
  have us: "unpublished ?d = drop n ?us"
    by (rule unpublished_marked [OF distinct_outbox [OF Cons.prems(2)]])
  have "take (n + length nows * n) ?us = take n ?us @ take (length nows * n) (drop n ?us)"
    by (rule take_add)
  with Cons.IH [OF _ marked_ok [OF Cons.prems(2)] Cons.prems(3) run] sends [OF Cons.prems(1), of ?ms]
  show ?case by (simp add: us add.commute comp_def)
qed simp

end

text \<open>
  C26: The backlog drains, in order. When the broker and the database answer, \<open>k\<close> passes with batches
  of \<open>n\<close> rows publish the oldest \<open>k * n\<close> unpublished rows in order of creation; so enough passes
  leave nothing unpublished, and the handler of a topic finds the topic's events in that order.
\<close>

theorem relay_drains:
  assumes "sole_consumer T h b" "db_ok d" "\<And>d. E d = None" "length (unpublished d) \<le> length nows * n"
    and "fold (\<lambda>now x. snd (run_once E E publish n now x)) nows (d, b) = (d', b')"
  shows "unpublished d' = [] \<and> inbox_of h b' = inbox_of h b @
    filter (\<lambda>m. m_topic m = T) (map (item_message \<circ> item_of) (unpublished d))"
  using memory_sink.passes [OF assms(1-3,5)] assms(4) by simp

theorem relay_drains_witness:
  "unpublished (fst (fold (\<lambda>now x. snd (run_once (\<lambda>_. None) (\<lambda>_. None) publish 10 now x)) [8]
     (empty_db\<lparr>outbox_messages := [demo_outbox_row]\<rparr>, subscribe ''users.created'' ''h'' ''g'' InMemoryBroker))) = []"
proof -
  let ?b = "subscribe ''users.created'' ''h'' ''g'' InMemoryBroker"
  let ?d = "empty_db\<lparr>outbox_messages := [demo_outbox_row]\<rparr>"
  have "broker_ok ?b" by (intro broker_ok_subscribe broker_ok_empty)
  then have c: "sole_consumer ''users.created'' ''h'' ?b"
    by (auto simp: sole_consumer_def topic_groups_subscribe topic_groups_empty split: if_splits)
  have ok: "db_ok ?d" by (simp add: db_ok_def db_constraints_def columns_fit_def empty_db_def)
  have len: "length (unpublished ?d) \<le> length [8::int] * 10"
    by (simp add: unpublished_def)
  obtain d' b' where "fold (\<lambda>now x. snd (run_once (\<lambda>_. None) (\<lambda>_. None) publish 10 now x)) [8] (?d, ?b) = (d', b')"
    by force
  with relay_drains [OF c ok _ len this] show ?thesis by simp
qed


end
