(* ===== verification/Http_Client.thy ===== *)
theory Http_Client
  imports Errors
begin

section \<open>The HTTP client\<close>

text \<open>
  \<^verbatim>\<open>app/decorators/retry.py\<close> (the retry decorator), \<^verbatim>\<open>app/clients/base.py\<close> (the request loop with its
  retries, back-off and error mapping) and \<^verbatim>\<open>app/clients/response.py\<close>. \<^verbatim>\<open>httpx\<close> is a parameter: the
  transport function of a client, and the JSON parser of a response body. \<open>'s\<close> is the state of the
  network. What a client does to the outside is kept in a \<open>world\<close>: the requests put on the wire, the
  seconds slept, and the bearer token of a client that logs in.
\<close>

subsection \<open>The decorator \<open>retry\<close>\<close>

text \<open>
  The delay before the next attempt, bounded by \<open>max_delay\<close>, with its deterministic jitter.
\<close>

definition backoff_delay :: "rat \<Rightarrow> rat \<Rightarrow> nat \<Rightarrow> rat" where
  "backoff_delay base max_delay attempt =
     (let delay = min (base * 2 ^ (attempt - 1)) max_delay;
          jitter = delay * (1 / 10) * of_nat (attempt mod 3)
      in delay + jitter)"

text \<open>\<open>catches\<close> tells which exceptions are retried; the delays are collected. With no attempt at all the assertion fails.\<close>

function retry_loop ::
  "('s \<Rightarrow> (exn + 'a) \<times> 's) \<Rightarrow> nat \<Rightarrow> rat \<Rightarrow> rat \<Rightarrow> (exn \<Rightarrow> bool) \<Rightarrow> nat \<Rightarrow> 's \<Rightarrow> rat list \<Rightarrow> (exn + 'a) \<times> 's \<times> rat list" where
  "retry_loop func attempts base max_delay catches attempt s slept =
     (if attempts < attempt then (Inl (OtherError ''AssertionError'' []), s, slept)
      else (case func s of
          (Inr x, s') \<Rightarrow> (Inr x, s', slept)
        | (Inl e, s') \<Rightarrow> if \<not> catches e then (Inl e, s', slept)
            else if attempt = attempts then (Inl e, s', slept)
            else retry_loop func attempts base max_delay catches (attempt + 1) s'
              (slept @ [backoff_delay base max_delay attempt])))"
  by pat_completeness auto
termination
  by (relation "measure (\<lambda>(_, attempts, _, _, _, attempt, _, _). Suc attempts - attempt)") auto

declare retry_loop.simps [simp del]

definition retry :: "nat \<Rightarrow> rat \<Rightarrow> rat \<Rightarrow> (exn \<Rightarrow> bool) \<Rightarrow> ('s \<Rightarrow> (exn + 'a) \<times> 's) \<Rightarrow> 's \<Rightarrow> (exn + 'a) \<times> 's \<times> rat list" where
  "retry attempts base max_delay catches func s = retry_loop func attempts base max_delay catches 1 s []"

lemma backoff_delay_bounds:
  assumes "0 \<le> base" "0 \<le> max_delay"
  shows "0 \<le> backoff_delay base max_delay n \<and> backoff_delay base max_delay n \<le> 6 / 5 * max_delay"
proof -
  define d where "d = min (base * 2 ^ (n - 1)) max_delay"
  have d: "0 \<le> d" "d \<le> max_delay" using assms by (auto simp: d_def)
  have "n mod 3 \<le> 2" by simp
  then have j: "(of_nat (n mod 3) :: rat) \<le> 2" "0 \<le> (of_nat (n mod 3) :: rat)"
    by (metis of_nat_le_iff of_nat_numeral) simp
  have "d * (1 / 10) * of_nat (n mod 3) \<le> d * (1 / 10) * 2" using d j by (intro mult_left_mono) auto
  moreover have "0 \<le> d * (1 / 10) * of_nat (n mod 3)" using d j by simp
  moreover have "backoff_delay base max_delay n = d + d * (1 / 10) * of_nat (n mod 3)"
    by (simp add: backoff_delay_def Let_def d_def)
  ultimately show ?thesis using d by linarith
qed

text \<open>The results of calling the function again and again.\<close>

fun outcomes :: "('s \<Rightarrow> (exn + 'a) \<times> 's) \<Rightarrow> nat \<Rightarrow> 's \<Rightarrow> ((exn + 'a) \<times> 's) list" where
  "outcomes func 0 s = []"
| "outcomes func (Suc n) s = (let (r, s') = func s in (r, s') # outcomes func n s')"

definition is_caught :: "(exn \<Rightarrow> bool) \<Rightarrow> (exn + 'a) \<times> 's \<Rightarrow> bool" where
  "is_caught catches o' = (case fst o' of Inl e \<Rightarrow> catches e | Inr _ \<Rightarrow> False)"

text \<open>The outcome that counts: the first one that is not to be repeated, or the last.\<close>

definition decisive :: "('o \<Rightarrow> bool) \<Rightarrow> 'o list \<Rightarrow> 'o" where
  "decisive again os = hd (dropWhile again (butlast os) @ [last os])"

lemma decisive_simps [simp]:
  "decisive again [x] = x"
  "decisive again (x # y # ys) = (if again x then decisive again (y # ys) else x)"
  by (simp_all add: decisive_def)

lemma length_outcomes [simp]: "length (outcomes func n s) = n"
  by (induction n arbitrary: s) (auto simp: Let_def split: prod.split)

lemma retry_loop_outcomes:
  assumes "attempt \<le> attempts"
  shows "\<exists>delays. retry_loop func attempts base max_delay catches attempt s slept =
      (fst (decisive (is_caught catches) (outcomes func (Suc attempts - attempt) s)),
       snd (decisive (is_caught catches) (outcomes func (Suc attempts - attempt) s)), slept @ delays) \<and>
    length delays \<le> attempts - attempt \<and> set delays \<subseteq> range (backoff_delay base max_delay)"
  using assms
proof (induction func attempts base max_delay catches attempt s slept rule: retry_loop.induct)
  case (1 func attempts base max_delay catches attempt s slept)
  obtain r s' where f: "func s = (r, s')" by force
  have n: "Suc attempts - attempt = Suc (attempts - attempt)" using 1(2) by simp
  show ?case
  proof (cases "\<exists>e. r = Inl e \<and> catches e \<and> attempt \<noteq> attempts")
    case False
    then have "retry_loop func attempts base max_delay catches attempt s slept = (r, s', slept)"
      using 1(2) f by (subst retry_loop.simps) (auto split: sum.split)
    moreover have "decisive (is_caught catches) (outcomes func (Suc attempts - attempt) s) = (r, s')"
    proof (cases "attempts - attempt")
      case (Suc k)
      then show ?thesis using False 1(2) f n
        by (auto simp: Let_def is_caught_def split: sum.split prod.split)
    qed (simp add: n f)
    ultimately show ?thesis by simp
  next
    case True
    then obtain e where e: "r = Inl e" "catches e" "attempt < attempts" using 1(2) by fastforce
    then have k: "attempts - attempt = Suc (attempts - Suc attempt)" "Suc attempts - Suc attempt = Suc (attempts - Suc attempt)"
      by simp_all
    obtain delays where d: "retry_loop func attempts base max_delay catches (attempt + 1) s'
        (slept @ [backoff_delay base max_delay attempt]) =
      (fst (decisive (is_caught catches) (outcomes func (Suc attempts - (attempt + 1)) s')),
       snd (decisive (is_caught catches) (outcomes func (Suc attempts - (attempt + 1)) s')),
       (slept @ [backoff_delay base max_delay attempt]) @ delays)"
      "length delays \<le> attempts - (attempt + 1)" "set delays \<subseteq> range (backoff_delay base max_delay)"
      using 1(1) [OF _ f [symmetric] e(1)] e 1(2) by (metis Suc_eq_plus1 Suc_leI leD less_imp_neq not_not)
    have "retry_loop func attempts base max_delay catches attempt s slept =
        retry_loop func attempts base max_delay catches (attempt + 1) s' (slept @ [backoff_delay base max_delay attempt])"
      using e f by (subst retry_loop.simps) auto
    moreover have "decisive (is_caught catches) (outcomes func (Suc attempts - attempt) s) =
        decisive (is_caught catches) (outcomes func (Suc attempts - (attempt + 1)) s')"
    proof -
      have m: "Suc attempts - attempt = Suc (Suc (attempts - Suc attempt))"
        "Suc attempts - (attempt + 1) = Suc (attempts - Suc attempt)" using e(3) by simp_all
      obtain q s'' where "func s' = (q, s'')" by force
      then show ?thesis using e(1,2) f unfolding m by (simp add: is_caught_def)
    qed
    ultimately show ?thesis
      using d k by (intro exI [of _ "backoff_delay base max_delay attempt # delays"]) auto
  qed
qed

text \<open>
  C30: \<open>retry\<close> returns, after at most \<open>attempts\<close> calls, the first outcome that is not an exception it
  catches, and otherwise raises the last exception; between calls it sleeps at most \<open>attempts - 1\<close> times,
  each at most 1.2 times \<open>max_delay\<close>.
\<close>

theorem retry_outcome:
  assumes "0 < attempts" "0 \<le> base" "0 \<le> max_delay"
  shows "\<exists>delays. retry attempts base max_delay catches func s =
      (fst (decisive (is_caught catches) (outcomes func attempts s)),
       snd (decisive (is_caught catches) (outcomes func attempts s)), delays) \<and>
    length delays < attempts \<and> list_all (\<lambda>d. 0 \<le> d \<and> d \<le> 6 / 5 * max_delay) delays"
  using retry_loop_outcomes [of 1 attempts func base max_delay catches s "[]"] assms
    backoff_delay_bounds [OF assms(2,3)]
  by (fastforce simp: retry_def list_all_iff)

theorem retry_outcome_witness:
  "\<exists>delays. retry 3 (1 / 10) 2 (\<lambda>_. True)
     (\<lambda>n :: nat. (if n < 2 then Inl (ValueError ''boom'') else Inr n, Suc n)) 0 = (Inr 2, 3, delays) \<and>
     length delays < 3 \<and> list_all (\<lambda>d. 0 \<le> d \<and> d \<le> 6 / 5 * 2) delays"
  using retry_outcome [of 3 "1 / 10" 2 "\<lambda>_. True" "\<lambda>n :: nat. (if n < 2 then Inl (ValueError ''boom'') else Inr n, Suc n)" 0]
  by (simp add: numeral_3_eq_3 numeral_2_eq_2 is_caught_def)

section \<open>The base client\<close>

text \<open>\<^verbatim>\<open>httpx\<close> response and the request options that the clients build.\<close>

record response =
  rp_status :: int
  rp_headers :: "(string \<times> string) list"
  rp_text :: string

record options =
  op_headers :: "(string \<times> string) list"
  op_params :: "(string \<times> string) list option"
  op_json :: "json option"

definition no_options :: options where
  "no_options = \<lparr>op_headers = [], op_params = None, op_json = None\<rparr>"

record retry_policy =
  rt_attempts :: nat
  rt_backoff_base :: rat
  rt_backoff_max :: rat
  rt_statuses :: "int list"
  rt_methods :: "string list"

definition RetryPolicy :: retry_policy where
  "RetryPolicy = \<lparr>rt_attempts = 3, rt_backoff_base = 1 / 5, rt_backoff_max = 5,
     rt_statuses = [429, 500, 502, 503, 504],
     rt_methods = [''GET'', ''HEAD'', ''PUT'', ''DELETE'', ''OPTIONS'']\<rparr>"

record 's world =
  w_net :: 's
  w_sent :: "(string \<times> string \<times> options) list"
  w_slept :: "rat list"
  w_token :: "string option"

text \<open>
  \<open>hc_transport\<close> is \<^verbatim>\<open>AsyncClient.request\<close>, \<open>hc_loads\<close> parses a body; the other fields are the class
  attributes and the two methods a subclass overrides.
\<close>

record 's http_client =
  hc_service :: string
  hc_retry :: retry_policy
  hc_default_headers :: "(string \<times> string) list"
  hc_prepare :: "string \<Rightarrow> string \<Rightarrow> options \<Rightarrow> 's world \<Rightarrow> (exn + options) \<times> 's world"
  hc_transport :: "string \<Rightarrow> string \<Rightarrow> options \<Rightarrow> 's \<Rightarrow> (exn + response) \<times> 's"
  hc_loads :: "string \<Rightarrow> exn + json"

fun exn_text :: "exn \<Rightarrow> string" where
  "exn_text (OtherError cls msg) = msg"
| "exn_text _ = []"

text \<open>\<^verbatim>\<open>except (httpx.TimeoutException, httpx.TransportError)\<close>.\<close>

fun is_transport_error :: "exn \<Rightarrow> bool" where
  "is_transport_error (OtherError cls msg) \<longleftrightarrow> cls \<in> {''TimeoutException'', ''TransportError''}"
| "is_transport_error _ = False"

definition external_error :: "string \<Rightarrow> int option \<Rightarrow> json \<Rightarrow> string \<Rightarrow> exn" where
  "external_error msg upstream_status upstream_body url =
     ExternalAPIError (ServerException_init 502 msg UNAVAILABLE None) upstream_status upstream_body (Some url)"

subsection \<open>The request\<close>

text \<open>\<open>model\<close> validates a JSON document (\<^const>\<open>None\<close>: a \<^verbatim>\<open>ValidationError\<close>).\<close>

datatype 'm reply = Raw response | Data json | Parsed 'm

definition safe_body :: "'s http_client \<Rightarrow> response \<Rightarrow> json" where
  "safe_body C resp = (case hc_loads C (rp_text resp) of Inr j \<Rightarrow> j | Inl _ \<Rightarrow> JStr (take 500 (rp_text resp)))"

definition content_json :: "'s http_client \<Rightarrow> response \<Rightarrow> exn + json" where
  "content_json C resp = (if rp_text resp \<noteq> [] then hc_loads C (rp_text resp) else Inr JNull)"

definition conclude ::
  "'s http_client \<Rightarrow> (json \<Rightarrow> 'm option) option \<Rightarrow> bool \<Rightarrow> string \<Rightarrow> response \<Rightarrow> exn + 'm reply" where
  "conclude C model parse_json url resp =
     (if 400 \<le> rp_status resp
      then Inl (external_error (hc_service C @ '' returned '' @ str_of_int (rp_status resp))
        (Some (rp_status resp)) (safe_body C resp) url)
      else (case model of
          Some validate \<Rightarrow> (case content_json C resp of
              Inl e \<Rightarrow> Inl e
            | Inr d \<Rightarrow> (case validate d of Some x \<Rightarrow> Inr (Parsed x)
                | None \<Rightarrow> Inl (external_error (hc_service C @ '' response schema mismatch'')
                    (Some (rp_status resp)) d url)))
        | None \<Rightarrow> if \<not> parse_json then Inr (Raw resp)
            else (case content_json C resp of Inl e \<Rightarrow> Inl e | Inr d \<Rightarrow> Inr (Data d))))"

text \<open>\<^verbatim>\<open>_backoff\<close>: a numeric \<^verbatim>\<open>Retry-After\<close> of the response counts, up to the limit.\<close>

definition backoff :: "nat \<Rightarrow> retry_policy \<Rightarrow> response option \<Rightarrow> 's world \<Rightarrow> 's world" where
  "backoff attempt P resp w =
     (let retry_after = (case resp of None \<Rightarrow> None | Some r \<Rightarrow> map_of (rp_headers r) ''retry-after'');
          seconds = (case retry_after of
              Some t \<Rightarrow> if t \<noteq> [] \<and> isdigit t then min (of_int (int_of_digits t)) (rt_backoff_max P)
                else backoff_delay (rt_backoff_base P) (rt_backoff_max P) attempt
            | None \<Rightarrow> backoff_delay (rt_backoff_base P) (rt_backoff_max P) attempt)
      in w\<lparr>w_slept := w_slept w @ [seconds]\<rparr>)"

definition wire :: "'s http_client \<Rightarrow> string \<Rightarrow> string \<Rightarrow> options \<Rightarrow> 's world \<Rightarrow> (exn + response) \<times> 's world" where
  "wire C method url opts w =
     (case hc_transport C method url opts (w_net w) of
        (r, s) \<Rightarrow> (r, w\<lparr>w_net := s, w_sent := w_sent w @ [(method, url, opts)]\<rparr>))"

function request_loop ::
  "'s http_client \<Rightarrow> retry_policy \<Rightarrow> (json \<Rightarrow> 'm option) option \<Rightarrow> bool \<Rightarrow> string \<Rightarrow> string \<Rightarrow> options \<Rightarrow> nat \<Rightarrow>
   's world \<Rightarrow> (exn + 'm reply) \<times> 's world" where
  "request_loop C P model parse_json method url opts attempt0 w =
     (let can_retry = method \<in> set (rt_methods P); attempt = attempt0 + 1
      in case wire C method url opts w of
        (Inl e, w') \<Rightarrow>
          if \<not> is_transport_error e then (Inl e, w')
          else if can_retry \<and> attempt < rt_attempts P
          then request_loop C P model parse_json method url opts attempt (backoff attempt P None w')
          else (Inl (external_error (hc_service C @ '' request failed: '' @ exn_text e) None JNull url), w')
      | (Inr resp, w') \<Rightarrow>
          if rp_status resp \<in> set (rt_statuses P) \<and> can_retry \<and> attempt < rt_attempts P
          then request_loop C P model parse_json method url opts attempt (backoff attempt P (Some resp) w')
          else (conclude C model parse_json url resp, w'))"
  by pat_completeness auto
termination
  by (relation "measure (\<lambda>(_, P, _, _, _, _, _, attempt, _). rt_attempts P - attempt)") auto

declare request_loop.simps [simp del]

text \<open>The headers of the call override the client's; then the hook may change the options.\<close>

definition request ::
  "'s http_client \<Rightarrow> (json \<Rightarrow> 'm option) option \<Rightarrow> bool \<Rightarrow> retry_policy option \<Rightarrow> string \<Rightarrow> string \<Rightarrow> options \<Rightarrow>
   's world \<Rightarrow> (exn + 'm reply) \<times> 's world" where
  "request C model parse_json policy method url opts w =
     (let method = upper method;
          P = (case policy of Some P \<Rightarrow> P | None \<Rightarrow> hc_retry C);
          opts = opts\<lparr>op_headers := assoc_merge (hc_default_headers C) (op_headers opts)\<rparr>
      in case hc_prepare C method url opts w of
        (Inl e, w') \<Rightarrow> (Inl e, w')
      | (Inr opts', w') \<Rightarrow> request_loop C P model parse_json method url opts' 0 w')"

subsection \<open>The loop against its specification\<close>

definition again :: "retry_policy \<Rightarrow> (exn + response) \<times> 's \<Rightarrow> bool" where
  "again P o' = (case fst o' of Inl e \<Rightarrow> is_transport_error e | Inr resp \<Rightarrow> rp_status resp \<in> set (rt_statuses P))"

definition verdict :: "'s http_client \<Rightarrow> (json \<Rightarrow> 'm option) option \<Rightarrow> bool \<Rightarrow> string \<Rightarrow> exn + response \<Rightarrow> exn + 'm reply" where
  "verdict C model parse_json url r = (case r of
     Inl e \<Rightarrow> if is_transport_error e
       then Inl (external_error (hc_service C @ '' request failed: '' @ exn_text e) None JNull url) else Inl e
   | Inr resp \<Rightarrow> conclude C model parse_json url resp)"

text \<open>How often a request may be sent.\<close>

definition tries :: "retry_policy \<Rightarrow> string \<Rightarrow> nat \<Rightarrow> nat" where
  "tries P method done = (if method \<in> set (rt_methods P) then max 1 (rt_attempts P - done) else 1)"

lemma backoff_sel [simp]: "w_net (backoff n P r w) = w_net w" "w_sent (backoff n P r w) = w_sent w"
  "w_token (backoff n P r w) = w_token w"
  by (simp_all add: backoff_def Let_def)

lemma backoff_slept:
  assumes "0 \<le> rt_backoff_base P" "0 \<le> rt_backoff_max P"
  shows "\<exists>d. w_slept (backoff n P r w) = w_slept w @ [d] \<and> 0 \<le> d \<and> d \<le> 6 / 5 * rt_backoff_max P"
proof -
  have "0 \<le> int_of_digits t" if "isdigit t" for t using that by (rule int_of_digits_nonneg)
  then show ?thesis
    using backoff_delay_bounds [OF assms, of n] assms
    by (auto simp: backoff_def Let_def min_def split: option.split)
qed

lemma tries_last: "tries P method n = 1 \<longleftrightarrow> \<not> (method \<in> set (rt_methods P) \<and> n + 1 < rt_attempts P)"
  by (auto simp: tries_def max_def)

lemma tries_next: "verb \<in> set (rt_methods P) \<Longrightarrow> n + 1 < rt_attempts P \<Longrightarrow> tries P verb n = Suc (tries P verb (n + 1))"
  by (auto simp: tries_def max_def)

lemma tries_pos: "\<exists>k. tries P verb n = Suc k"
  by (metis Suc_pred max.cobounded1 max_0L neq0_conv not_one_le_zero old.nat.exhaust tries_def zero_neq_one)

definition wire_run :: "'s http_client \<Rightarrow> string \<Rightarrow> string \<Rightarrow> options \<Rightarrow> nat \<Rightarrow> 's \<Rightarrow> ((exn + response) \<times> 's) list" where
  "wire_run C verb url opts n s = outcomes (hc_transport C verb url opts) n s"

lemma request_loop_spec:
  assumes "0 \<le> rt_backoff_base P" "0 \<le> rt_backoff_max P"
  shows "\<exists>k delays w'. request_loop C P model pj verb url opts n w =
      (verdict C model pj url (fst (decisive (again P) (wire_run C verb url opts (tries P verb n) (w_net w)))), w') \<and>
    w_net w' = snd (decisive (again P) (wire_run C verb url opts (tries P verb n) (w_net w))) \<and>
    w_sent w' = w_sent w @ replicate (Suc k) (verb, url, opts) \<and> k < tries P verb n \<and>
    w_slept w' = w_slept w @ delays \<and> length delays = k \<and>
    list_all (\<lambda>d. 0 \<le> d \<and> d \<le> 6 / 5 * rt_backoff_max P) delays \<and> w_token w' = w_token w"
  using assms
proof (induction C P model pj verb url opts n w rule: request_loop.induct)
  case (1 C P model pj verb url opts n w)
  obtain r s where r: "hc_transport C verb url opts (w_net w) = (r, s)" by force
  let ?w = "w\<lparr>w_net := s, w_sent := w_sent w @ [(verb, url, opts)]\<rparr>"
  have wire: "wire C verb url opts w = (r, ?w)" by (simp add: wire_def r)
  obtain k0 where k0: "tries P verb n = Suc k0" using tries_pos by blast
  show ?case
  proof (cases "again P (r, s) \<and> verb \<in> set (rt_methods P) \<and> n + 1 < rt_attempts P")
    case False
    have "request_loop C P model pj verb url opts n w = (verdict C model pj url r, ?w)"
      using False by (subst request_loop.simps) (auto simp: wire verdict_def again_def split: sum.splits)
    moreover have "decisive (again P) (wire_run C verb url opts (tries P verb n) (w_net w)) = (r, s)"
    proof (cases k0)
      case 0
      then show ?thesis by (simp add: k0 wire_run_def r)
    next
      case (Suc k1)
      then have "verb \<in> set (rt_methods P) \<and> n + 1 < rt_attempts P"
        using k0 tries_last [of P verb n] by auto
      with False Suc k0 r show ?thesis by (simp add: wire_run_def Let_def split: prod.split)
    qed
    ultimately show ?thesis using k0 by (intro exI [of _ 0] exI [of _ "[]"] exI [of _ ?w]) simp
  next
    case True
    let ?b = "backoff (n + 1) P (case r of Inl _ \<Rightarrow> None | Inr resp \<Rightarrow> Some resp) ?w"
    have loop: "request_loop C P model pj verb url opts n w = request_loop C P model pj verb url opts (n + 1) ?b"
      using True by (subst request_loop.simps) (auto simp: wire again_def split: sum.splits)
    have b: "w_net ?b = s" "w_sent ?b = w_sent w @ [(verb, url, opts)]" "w_token ?b = w_token w"
      by simp_all
    obtain d where d: "w_slept ?b = w_slept w @ [d]" "0 \<le> d" "d \<le> 6 / 5 * rt_backoff_max P"
      using backoff_slept [OF 1(3,4), of "n + 1" _ ?w] by fastforce
    have ag: "case r of Inl e \<Rightarrow> is_transport_error e | Inr resp \<Rightarrow> rp_status resp \<in> set (rt_statuses P)"
      using True by (simp add: again_def)
    have IH: "\<exists>k delays w'. request_loop C P model pj verb url opts (n + 1) ?b =
      (verdict C model pj url (fst (decisive (again P) (wire_run C verb url opts (tries P verb (n + 1)) (w_net ?b)))), w') \<and>
    w_net w' = snd (decisive (again P) (wire_run C verb url opts (tries P verb (n + 1)) (w_net ?b))) \<and>
    w_sent w' = w_sent ?b @ replicate (Suc k) (verb, url, opts) \<and> k < tries P verb (n + 1) \<and>
    w_slept w' = w_slept ?b @ delays \<and> length delays = k \<and>
    list_all (\<lambda>d. 0 \<le> d \<and> d \<le> 6 / 5 * rt_backoff_max P) delays \<and> w_token w' = w_token ?b"
      using 1(1,2) [OF refl refl wire [symmetric]] 1(3,4) True ag by (cases r) auto
    have dec: "decisive (again P) (wire_run C verb url opts (tries P verb n) (w_net w)) =
        decisive (again P) (wire_run C verb url opts (tries P verb (n + 1)) s)"
    proof -
      obtain k1 where k1: "tries P verb (n + 1) = Suc k1" using tries_pos by blast
      then have "tries P verb n = Suc (Suc k1)" using True tries_next [of verb P n] by simp
      with k1 True r show ?thesis by (simp add: wire_run_def Let_def split: prod.split)
    qed
    from IH obtain k delays w' where i: "request_loop C P model pj verb url opts (n + 1) ?b =
      (verdict C model pj url (fst (decisive (again P) (wire_run C verb url opts (tries P verb (n + 1)) s))), w')"
      "w_net w' = snd (decisive (again P) (wire_run C verb url opts (tries P verb (n + 1)) s))"
      "w_sent w' = (w_sent w @ [(verb, url, opts)]) @ replicate (Suc k) (verb, url, opts)" "k < tries P verb (n + 1)"
      "w_slept w' = (w_slept w @ [d]) @ delays" "length delays = k"
      "list_all (\<lambda>d. 0 \<le> d \<and> d \<le> 6 / 5 * rt_backoff_max P) delays" "w_token w' = w_token w"
      unfolding b d(1) by blast
    show ?thesis
      using i d(2,3) True tries_next [of verb P n]
      unfolding loop dec by (intro exI [of _ "Suc k"] exI [of _ "d # delays"] exI [of _ w']) simp
  qed
qed

definition policy_of :: "'s http_client \<Rightarrow> retry_policy option \<Rightarrow> retry_policy" where
  "policy_of C policy = (case policy of Some P \<Rightarrow> P | None \<Rightarrow> hc_retry C)"

text \<open>The options that reach the wire: the client's headers under the call's, then the hook.\<close>

definition prepared :: "'s http_client \<Rightarrow> string \<Rightarrow> string \<Rightarrow> options \<Rightarrow> 's world \<Rightarrow> (exn + options) \<times> 's world" where
  "prepared C method url opts w =
     hc_prepare C (upper method) url (opts\<lparr>op_headers := assoc_merge (hc_default_headers C) (op_headers opts)\<rparr>) w"

lemma request_prepared:
  "request C model pj policy method url opts w = (case prepared C method url opts w of
     (Inl e, w') \<Rightarrow> (Inl e, w')
   | (Inr opts', w') \<Rightarrow> request_loop C (policy_of C policy) model pj (upper method) url opts' 0 w')"
  unfolding request_def prepared_def policy_of_def Let_def ..

text \<open>
  C24: A request, whole: what it returns is the verdict on the first answer that is not transient, or
  on the last one allowed; every try puts the same request on the wire; a method that the policy does
  not name is sent exactly once, any other at most \<open>max 1 attempts\<close> times; and each pause between two
  tries is at most 1.2 times the limit.
\<close>

theorem request_outcome:
  assumes "prepared C method url opts w = (Inr opts', w1)" "policy_of C policy = P"
    and "0 \<le> rt_backoff_base P" "0 \<le> rt_backoff_max P"
    and "decisive (again P) (wire_run C (upper method) url opts' (tries P (upper method) 0) (w_net w1)) = (answer, s)"
  shows "\<exists>k delays w'. request C model pj policy method url opts w = (verdict C model pj url answer, w') \<and>
    w_net w' = s \<and> w_sent w' = w_sent w1 @ replicate (Suc k) (upper method, url, opts') \<and>
    k < (if upper method \<in> set (rt_methods P) then max 1 (rt_attempts P) else 1) \<and>
    w_slept w' = w_slept w1 @ delays \<and> length delays = k \<and>
    list_all (\<lambda>d. 0 \<le> d \<and> d \<le> 6 / 5 * rt_backoff_max P) delays"
  using request_loop_spec [OF assms(3,4), of C model pj "upper method" url opts' 0 w1] assms(1,2,5)
  by (auto simp: request_prepared tries_def split: if_splits)

text \<open>A service that is unavailable once.\<close>

definition flaky :: "nat http_client" where
  "flaky = \<lparr>hc_service = ''external'', hc_retry = RetryPolicy, hc_default_headers = [],
     hc_prepare = (\<lambda>_ _ opts w. (Inr opts, w)),
     hc_transport = (\<lambda>_ _ _ n. (Inr \<lparr>rp_status = (if n = 0 then 503 else 204), rp_headers = [], rp_text = []\<rparr>, n + 1)),
     hc_loads = (\<lambda>_. Inl (ValueError []))\<rparr>"

definition quiet_world :: "'s \<Rightarrow> 's world" where
  "quiet_world s = \<lparr>w_net = s, w_sent = [], w_slept = [], w_token = None\<rparr>"

lemma upper_methods [simp]: "upper ''GET'' = ''GET''" "upper ''POST'' = ''POST''" "upper ''DELETE'' = ''DELETE''"
  by (simp_all add: upper_def upper_char_def Let_def)

theorem request_outcome_witness:
  "fst (request flaky (None :: (json \<Rightarrow> unit option) option) True None ''GET'' ''/x'' no_options (quiet_world 0)) = Inr (Data JNull) \<and>
   fst (request flaky (None :: (json \<Rightarrow> unit option) option) True None ''POST'' ''/x'' no_options (quiet_world 0)) \<noteq> Inr (Data JNull)"
proof -
  have p: "prepared flaky m ''/x'' no_options (quiet_world 0) = (Inr no_options, quiet_world 0)" for m
    by (simp add: prepared_def flaky_def no_options_def assoc_merge_def)
  have P: "policy_of flaky None = RetryPolicy" "0 \<le> rt_backoff_base RetryPolicy" "0 \<le> rt_backoff_max RetryPolicy"
    by (simp_all add: policy_of_def flaky_def RetryPolicy_def)
  have get: "decisive (again RetryPolicy) (wire_run flaky (upper ''GET'') ''/x'' no_options
      (tries RetryPolicy (upper ''GET'') 0) (w_net (quiet_world 0))) =
    (Inr \<lparr>rp_status = 204, rp_headers = [], rp_text = []\<rparr>, 2)"
    by (simp add: wire_run_def tries_def RetryPolicy_def numeral_3_eq_3 numeral_2_eq_2 flaky_def quiet_world_def again_def)
  have post: "decisive (again RetryPolicy) (wire_run flaky (upper ''POST'') ''/x'' no_options
      (tries RetryPolicy (upper ''POST'') 0) (w_net (quiet_world 0))) =
    (Inr \<lparr>rp_status = 503, rp_headers = [], rp_text = []\<rparr>, 1)"
    by (simp add: wire_run_def tries_def RetryPolicy_def flaky_def quiet_world_def)
  show ?thesis
    using request_outcome [where model = "None :: (json \<Rightarrow> unit option) option" and pj = True, OF p P get]
      request_outcome [where model = "None :: (json \<Rightarrow> unit option) option" and pj = True, OF p P post]
    by (fastforce simp: verdict_def conclude_def content_json_def)
qed

subsection \<open>One envelope for every client\<close>

text \<open>\<^verbatim>\<open>app/clients/response.py\<close>: pydantic checks that \<^verbatim>\<open>message\<close> and \<^verbatim>\<open>code\<close> are strings.\<close>

record api_error =
  ae_message :: string
  ae_code :: "string option"
  ae_upstream_status :: "int option"
  ae_upstream_body :: json

record 'd api_response =
  ar_status :: bool
  ar_data :: "'d option"
  ar_error :: "api_error option"

definition ApiError :: "json \<Rightarrow> json \<Rightarrow> int option \<Rightarrow> json \<Rightarrow> exn + api_error" where
  "ApiError message code upstream_status upstream_body =
     (case message of
        JStr m \<Rightarrow> (case code of
            JNull \<Rightarrow> Inr \<lparr>ae_message = m, ae_code = None, ae_upstream_status = upstream_status, ae_upstream_body = upstream_body\<rparr>
          | JStr c \<Rightarrow> Inr \<lparr>ae_message = m, ae_code = Some c, ae_upstream_status = upstream_status, ae_upstream_body = upstream_body\<rparr>
          | _ \<Rightarrow> Inl ValidationError)
      | _ \<Rightarrow> Inl ValidationError)"

definition api_success :: "'d option \<Rightarrow> 'd api_response" where
  "api_success data = \<lparr>ar_status = True, ar_data = data, ar_error = None\<rparr>"

definition api_failure :: "exn + api_error \<Rightarrow> exn + 'd api_response" where
  "api_failure err = (case err of Inl e \<Rightarrow> Inl e
     | Inr ae \<Rightarrow> Inr \<lparr>ar_status = False, ar_data = None, ar_error = Some ae\<rparr>)"

definition reply_data :: "'m reply \<Rightarrow> 'm reply option" where
  "reply_data r = (if r = Data JNull then None else Some r)"

text \<open>\<^verbatim>\<open>call\<close> puts the outcome of \<^verbatim>\<open>request\<close> into the envelope; other exceptions pass.\<close>

definition enveloped :: "(exn + 'm reply) \<times> 's world \<Rightarrow> (exn + 'm reply api_response) \<times> 's world" where
  "enveloped r = (case r of
     (Inr data, w') \<Rightarrow> (Inr (api_success (reply_data data)), w')
   | (Inl (ExternalAPIError se upstream_status upstream_body _), w') \<Rightarrow>
       (api_failure (ApiError (JStr (se_message se)) JNull upstream_status upstream_body), w')
   | (Inl e, w') \<Rightarrow> (Inl e, w'))"

definition call ::
  "'s http_client \<Rightarrow> (json \<Rightarrow> 'm option) option \<Rightarrow> string \<Rightarrow> string \<Rightarrow> options \<Rightarrow> 's world \<Rightarrow>
   (exn + 'm reply api_response) \<times> 's world" where
  "call C model method url opts w = enveloped (request C model True None method url opts w)"

text \<open>An error answer of the service never raises: it becomes an envelope with its status and body.\<close>

lemma call_error_envelope:
  assumes "request C model True None method url opts w = (Inl (ExternalAPIError se st body u), w')"
  shows "\<exists>ae. call C model method url opts w = (Inr \<lparr>ar_status = False, ar_data = None, ar_error = Some ae\<rparr>, w') \<and>
    ae_message ae = se_message se \<and> ae_upstream_status ae = st \<and> ae_upstream_body ae = body"
  using assms by (simp add: call_def enveloped_def ApiError_def api_failure_def)

text \<open>A body that is no JSON does: the failure of its parsing is none of the client's own exceptions.\<close>

lemma call_bad_body_raises:
  assumes "prepared C verb url opts w = (Inr opts', w1)"
    and "hc_transport C (upper verb) url opts' (w_net w1) = (Inr resp, s)"
    and "rp_status resp < 400" "rp_status resp \<notin> set (rt_statuses (hc_retry C))"
    and "rp_text resp \<noteq> []" "hc_loads C (rp_text resp) = Inl (ValueError m)"
  shows "fst (call C model verb url opts w) = Inl (ValueError m)"
proof -
  have "fst (request C model True None verb url opts w) = Inl (ValueError m)"
    using assms by (simp add: request_prepared policy_of_def request_loop.simps [of C _ model] wire_def conclude_def content_json_def
        split: option.split)
  then show ?thesis unfolding call_def enveloped_def
    by (cases "request C model True None verb url opts w") simp
qed

end
