(* ===== verification/Messages.thy ===== *)
theory Messages
  imports Http_Client
begin

section \<open>Authorised clients, the foreign envelope, the messages API\<close>

text \<open>
  \<^verbatim>\<open>app/clients/auth.py\<close> (each mixin is a function from clients to clients; the login client also wraps
  the request), \<^verbatim>\<open>app/clients/envelope.py\<close>, \<^verbatim>\<open>app/clients/messages.py\<close> and
  \<^verbatim>\<open>app/services/notification.py\<close>. HTTP Basic is done by \<^verbatim>\<open>httpx\<close> (it is part of the transport).
\<close>

definition authorize :: "string \<Rightarrow> options \<Rightarrow> options" where
  "authorize token opts = opts\<lparr>op_headers := assoc_set ''Authorization'' (''Bearer '' @ token) (op_headers opts)\<rparr>"

definition BearerAuthMixin :: "string \<Rightarrow> 's http_client \<Rightarrow> 's http_client" where
  "BearerAuthMixin token C = C\<lparr>hc_prepare := (\<lambda>method url opts w. case hc_prepare C method url opts w of
     (Inl e, w') \<Rightarrow> (Inl e, w') | (Inr opts', w') \<Rightarrow> (Inr (authorize token opts'), w'))\<rparr>"

definition ApiKeyHeaderMixin :: "string \<Rightarrow> string \<Rightarrow> 's http_client \<Rightarrow> 's http_client" where
  "ApiKeyHeaderMixin header api_key C = C\<lparr>hc_default_headers := assoc_set header api_key (hc_default_headers C)\<rparr>"

definition ApiKeyQueryMixin :: "string \<Rightarrow> string \<Rightarrow> 's http_client \<Rightarrow> 's http_client" where
  "ApiKeyQueryMixin param api_key C = C\<lparr>hc_prepare := (\<lambda>method url opts w. case hc_prepare C method url opts w of
     (Inl e, w') \<Rightarrow> (Inl e, w')
   | (Inr opts', w') \<Rightarrow> (Inr (opts'\<lparr>op_params :=
       Some (assoc_set param api_key (case op_params opts' of None \<Rightarrow> [] | Some ps \<Rightarrow> ps))\<rparr>), w'))\<rparr>"

subsection \<open>Login with a token\<close>

record login_config =
  lc_path :: string
  lc_username :: string
  lc_password :: string

text \<open>\<^verbatim>\<open>_login\<close>: for the login path the hook and the wrapper of \<open>request\<close> add nothing.\<close>

definition token_login :: "login_config \<Rightarrow> 's http_client \<Rightarrow> 's world \<Rightarrow> (exn + string) \<times> 's world" where
  "token_login L C w =
     (case request C (None :: (json \<Rightarrow> unit option) option) True None ''POST'' (lc_path L)
         (no_options\<lparr>op_json := Some (JObj [(''username'', JStr (lc_username L)), (''password'', JStr (lc_password L))])\<rparr>) w of
        (Inl e, w') \<Rightarrow> (Inl e, w')
      | (Inr (Data (JObj d)), w') \<Rightarrow> (case map_of d ''access_token'' of
            Some (JStr t) \<Rightarrow> (Inr t, w')
          | Some _ \<Rightarrow> (Inl (OtherError ''TypeError'' ''access_token''), w')
          | None \<Rightarrow> (Inl (OtherError ''KeyError'' ''access_token''), w'))
      | (_, w') \<Rightarrow> (Inl (OtherError ''TypeError'' ''access_token''), w'))"

definition ensure_token :: "login_config \<Rightarrow> 's http_client \<Rightarrow> 's world \<Rightarrow> (exn + string) \<times> 's world" where
  "ensure_token L C w = (case w_token w of Some t \<Rightarrow> (Inr t, w)
     | None \<Rightarrow> (case token_login L C w of (Inl e, w') \<Rightarrow> (Inl e, w') | (Inr t, w') \<Rightarrow> (Inr t, w'\<lparr>w_token := Some t\<rparr>)))"

definition token_client :: "login_config \<Rightarrow> 's http_client \<Rightarrow> 's http_client" where
  "token_client L C = C\<lparr>hc_prepare := (\<lambda>method url opts w. case hc_prepare C method url opts w of
     (Inl e, w') \<Rightarrow> (Inl e, w')
   | (Inr opts', w') \<Rightarrow> if url = lc_path L then (Inr opts', w')
       else (case ensure_token L C w' of (Inl e, w'') \<Rightarrow> (Inl e, w'') | (Inr t, w'') \<Rightarrow> (Inr (authorize t opts'), w'')))\<rparr>"

text \<open>A 401 drops the token and repeats the request once.\<close>

definition token_request ::
  "login_config \<Rightarrow> 's http_client \<Rightarrow> (json \<Rightarrow> 'm option) option \<Rightarrow> bool \<Rightarrow> retry_policy option \<Rightarrow> string \<Rightarrow> string \<Rightarrow>
   options \<Rightarrow> 's world \<Rightarrow> (exn + 'm reply) \<times> 's world" where
  "token_request L C model pj policy method url opts w =
     (case request (token_client L C) model pj policy method url opts w of
        (Inl (ExternalAPIError se st body u), w') \<Rightarrow>
          if st = Some 401 \<and> url \<noteq> lc_path L \<and> str_truthy (w_token w')
          then request (token_client L C) model pj policy method url opts (w'\<lparr>w_token := None\<rparr>)
          else (Inl (ExternalAPIError se st body u), w')
      | r \<Rightarrow> r)"

lemma ensure_token_cached: "w_token w = Some t \<Longrightarrow> ensure_token L C w = (Inr t, w)"
  by (simp add: ensure_token_def)

lemma ensure_token_fresh:
  "w_token w = None \<Longrightarrow> ensure_token L C w = (Inr t, w') \<Longrightarrow> \<exists>w1. token_login L C w = (Inr t, w1) \<and> w' = w1\<lparr>w_token := Some t\<rparr>"
  by (auto simp: ensure_token_def split: prod.splits sum.splits)

text \<open>The second try carries a token of a login made after the first one was refused.\<close>

lemma relogin_carries_fresh_token:
  assumes "request (token_client L C) model pj policy method url opts w = (Inl (ExternalAPIError se (Some 401) body u), w1)"
    and "url \<noteq> lc_path L" "w_token w1 = Some old" "old \<noteq> []"
    and "hc_prepare C = (\<lambda>_ _ opts w. (Inr opts, w))"
    and "token_login L C (w1\<lparr>w_token := None\<rparr>) = (Inr t, w2)"
  shows "token_request L C model pj policy method url opts w =
    request_loop (token_client L C) (policy_of (token_client L C) policy) model pj (upper method) url
      (authorize t (opts\<lparr>op_headers := assoc_merge (hc_default_headers C) (op_headers opts)\<rparr>)) 0 (w2\<lparr>w_token := Some t\<rparr>)"
  using assms
  by (simp add: token_request_def request_prepared prepared_def token_client_def ensure_token_def str_truthy_def)

subsection \<open>The foreign envelope\<close>

text \<open>\<open>status_f\<close>, \<open>data_f\<close>, \<open>code_f\<close>, \<open>message_f\<close> are the four \<^verbatim>\<open>envelope_*_field\<close> attributes.\<close>

record envelope_fields =
  status_f :: string
  data_f :: string
  code_f :: string
  message_f :: string

definition EnvelopeMixin :: envelope_fields where
  "EnvelopeMixin = \<lparr>status_f = ''status'', data_f = ''data'', code_f = ''error_code'', message_f = ''message''\<rparr>"

definition json_or :: "json \<Rightarrow> string \<Rightarrow> json" where
  "json_or j d = (if json_truthy j then j else JStr d)"

definition is_success :: "envelope_fields \<Rightarrow> (string \<times> json) list \<Rightarrow> bool" where
  "is_success F raw = json_truthy (obj_get raw (status_f F))"

definition extract_data :: "envelope_fields \<Rightarrow> (string \<times> json) list \<Rightarrow> json" where
  "extract_data F raw = obj_get raw (data_f F)"

definition extract_error :: "envelope_fields \<Rightarrow> (string \<times> json) list \<Rightarrow> json \<times> json" where
  "extract_error F raw = (obj_get raw (code_f F), obj_get raw (message_f F))"

fun as_dict :: "json \<Rightarrow> (string \<times> json) list option" where
  "as_dict (JObj d) = Some d"
| "as_dict _ = None"

text \<open>What \<^verbatim>\<open>call_envelope\<close> does with a reply (parsed JSON, no model) and with an exception.\<close>

definition unwrap_error :: "envelope_fields \<Rightarrow> exn \<Rightarrow> exn + 'd api_response" where
  "unwrap_error F e = (case e of
     ExternalAPIError se upstream_status body _ \<Rightarrow>
       (let (code, msg) = (case as_dict body of None \<Rightarrow> (JNull, JNull) | Some d \<Rightarrow> extract_error F d)
        in api_failure (ApiError (json_or msg (se_message se)) code upstream_status body))
   | _ \<Rightarrow> Inl e)"

definition unwrap :: "envelope_fields \<Rightarrow> (json \<Rightarrow> 'm option) option \<Rightarrow> json \<Rightarrow> exn + 'm reply api_response" where
  "unwrap F data_model raw = (case as_dict raw of
     None \<Rightarrow> api_failure (ApiError (JStr ''unexpected response shape'') JNull None raw)
   | Some d \<Rightarrow>
       if \<not> is_success F d
       then (let (code, msg) = extract_error F d
             in api_failure (ApiError (json_or msg ''external error'') code None raw))
       else (let j = extract_data F d in case data_model of
             None \<Rightarrow> Inr (api_success (reply_data (Data j)))
           | Some validate \<Rightarrow> if j = JNull then Inr (api_success None)
               else (case validate j of Some x \<Rightarrow> Inr (api_success (Some (Parsed x)))
                 | None \<Rightarrow> api_failure (ApiError (JStr ''response schema mismatch'') JNull None j))))"

definition call_envelope ::
  "envelope_fields \<Rightarrow> 's http_client \<Rightarrow> (json \<Rightarrow> 'm option) option \<Rightarrow> string \<Rightarrow> string \<Rightarrow> options \<Rightarrow> 's world \<Rightarrow>
   (exn + 'm reply api_response) \<times> 's world" where
  "call_envelope F C data_model method url opts w =
     (case request C (None :: (json \<Rightarrow> unit option) option) True None method url opts w of
        (Inl e, w') \<Rightarrow> (unwrap_error F e, w')
      | (Inr (Data raw), w') \<Rightarrow> (unwrap F data_model raw, w')
      | (Inr _, w') \<Rightarrow> (Inl (OtherError ''unreachable'' []), w'))"

text \<open>Without a model and with JSON parsing a reply is always a document.\<close>

lemma conclude_data: "conclude C None True url resp = Inr r \<Longrightarrow> \<exists>j. r = Data j"
  by (auto simp: conclude_def split: if_splits sum.splits)

lemma request_loop_data:
  "request_loop C P model pj verb url opts n w = (Inr r, w') \<Longrightarrow> model = None \<Longrightarrow> pj \<Longrightarrow> \<exists>j. r = Data j"
proof (induction C P model pj verb url opts n w rule: request_loop.induct)
  case (1 C P model pj verb url opts n w)
  obtain q v where q: "wire C verb url opts w = (q, v)" by force
  show ?case
    using 1(3-5) 1(1) [OF refl refl q [symmetric]] 1(2) [OF refl refl q [symmetric]] q
    by (subst (asm) request_loop.simps)
       (auto simp: Let_def split: sum.splits if_splits dest: conclude_data)
qed

lemma request_data:
  "request C (None :: (json \<Rightarrow> 'm option) option) True policy method url opts w = (Inr r, w') \<Longrightarrow> \<exists>j. r = Data j"
  by (auto simp: request_prepared split: sum.splits prod.splits dest: request_loop_data)

subsection \<open>The messages API\<close>

datatype task_state = PENDING | DELIVERED | READ | FAILED | CANCELLED

fun task_state_value :: "task_state \<Rightarrow> string" where
  "task_state_value PENDING = ''pending''"
| "task_state_value DELIVERED = ''delivered''"
| "task_state_value READ = ''read''"
| "task_state_value FAILED = ''failed''"
| "task_state_value CANCELLED = ''cancelled''"

definition task_state_of :: "string \<Rightarrow> task_state option" where
  "task_state_of s = find (\<lambda>t. task_state_value t = s) [PENDING, DELIVERED, READ, FAILED, CANCELLED]"

text \<open>The pattern \<^verbatim>\<open>^\+[1-9]\d{1,14}$\<close>.\<close>

definition e164 :: "string \<Rightarrow> bool" where
  "e164 s = (case s of
     sign # first # rest \<Rightarrow> sign = CHR ''+'' \<and> is_digit first \<and> first \<noteq> CHR ''0'' \<and>
       1 \<le> length rest \<and> length rest \<le> 14 \<and> list_all is_digit rest
   | _ \<Rightarrow> False)"

record create_message_request =
  cm_recipient_phone :: string
  cm_text :: string
  cm_parse_mode :: "string option"

definition CreateMessageRequest :: "string \<Rightarrow> string \<Rightarrow> string option \<Rightarrow> create_message_request option" where
  "CreateMessageRequest phone txt parse_mode =
     (if e164 phone \<and> 1 \<le> length txt \<and> length txt \<le> 4000 \<and> parse_mode \<in> {None, Some ''markdown''}
      then Some \<lparr>cm_recipient_phone = phone, cm_text = txt, cm_parse_mode = parse_mode\<rparr> else None)"

definition dump_message :: "create_message_request \<Rightarrow> json" where
  "dump_message r = JObj ([(''recipient_phone'', JStr (cm_recipient_phone r)), (''text'', JStr (cm_text r))] @
     (case cm_parse_mode r of None \<Rightarrow> [] | Some m \<Rightarrow> [(''parse_mode'', JStr m)]))"

type_synonym create_task_result = string

definition CreateTaskResult :: "json \<Rightarrow> create_task_result option" where
  "CreateTaskResult j = (case j of JObj d \<Rightarrow> (case map_of d ''task_id'' of Some (JStr t) \<Rightarrow> Some t | _ \<Rightarrow> None) | _ \<Rightarrow> None)"

record task_status =
  ts_task_id :: string
  ts_state :: task_state
  ts_delivered_at :: "timestamp option"
  ts_read_at :: "timestamp option"
  ts_error_code :: "string option"
  ts_error_message :: "string option"

text \<open>An optional field: absent or \<^verbatim>\<open>null\<close> is \<^verbatim>\<open>None\<close>; \<open>parse\<close> fails on a value of another type.\<close>

definition optional_field :: "(json \<Rightarrow> 'x option) \<Rightarrow> (string \<times> json) list \<Rightarrow> string \<Rightarrow> 'x option option" where
  "optional_field parse d k = (case obj_get d k of JNull \<Rightarrow> Some None | j \<Rightarrow> map_option Some (parse j))"

fun json_text :: "json \<Rightarrow> string option" where
  "json_text (JStr s) = Some s"
| "json_text _ = None"

definition TaskStatus :: "(json \<Rightarrow> timestamp option) \<Rightarrow> json \<Rightarrow> task_status option" where
  "TaskStatus parse_datetime j = (case j of
     JObj d \<Rightarrow> (case (map_of d ''task_id'', Option.bind (json_text (obj_get d ''state'')) task_state_of,
         optional_field parse_datetime d ''delivered_at'', optional_field parse_datetime d ''read_at'',
         optional_field json_text d ''error_code'', optional_field json_text d ''error_message'')
       of (Some (JStr t), Some st, Some del, Some rd, Some ec, Some em) \<Rightarrow>
            Some \<lparr>ts_task_id = t, ts_state = st, ts_delivered_at = del, ts_read_at = rd, ts_error_code = ec, ts_error_message = em\<rparr>
        | _ \<Rightarrow> None)
   | _ \<Rightarrow> None)"

definition is_terminal :: "task_status \<Rightarrow> bool" where
  "is_terminal t \<longleftrightarrow> ts_state t \<noteq> PENDING"

text \<open>The client: \<open>C\<close> is the base client of the configured service.\<close>

definition messages_client :: "string \<Rightarrow> 's http_client \<Rightarrow> 's http_client" where
  "messages_client api_key C = ApiKeyHeaderMixin ''X-Api-Key'' api_key (C\<lparr>hc_service := ''messages''\<rparr>)"

text \<open>\<open>errors\<close> is pydantic's text for a rejected request.\<close>

definition create_task ::
  "string \<Rightarrow> 's http_client \<Rightarrow> string \<Rightarrow> string \<Rightarrow> string option \<Rightarrow> 's world \<Rightarrow>
   (exn + create_task_result reply api_response) \<times> 's world" where
  "create_task errors C phone txt parse_mode w = (case CreateMessageRequest phone txt parse_mode of
     None \<Rightarrow> (api_failure (ApiError (JStr errors) (JStr ''INVALID_INPUT'') None JNull), w)
   | Some body \<Rightarrow> call_envelope EnvelopeMixin C (Some CreateTaskResult) ''POST'' ''/api/messages''
       (no_options\<lparr>op_json := Some (dump_message body)\<rparr>) w)"

definition get_status ::
  "(json \<Rightarrow> timestamp option) \<Rightarrow> 's http_client \<Rightarrow> string \<Rightarrow> 's world \<Rightarrow> (exn + task_status reply api_response) \<times> 's world" where
  "get_status parse_datetime C task_id w =
     call_envelope EnvelopeMixin C (Some (TaskStatus parse_datetime)) ''GET'' (''/api/messages/'' @ task_id) no_options w"

definition cancel_task :: "'s http_client \<Rightarrow> string \<Rightarrow> 's world \<Rightarrow> (exn + unit reply api_response) \<times> 's world" where
  "cancel_task C task_id w = call_envelope EnvelopeMixin C None ''DELETE'' (''/api/messages/'' @ task_id) no_options w"

subsection \<open>The notification service\<close>

definition ERROR_MAP :: "(string \<times> int \<times> error_code) list" where
  "ERROR_MAP = [(''INVALID_INPUT'', 400, BAD_REQUEST), (''INVALID_PHONE'', 400, BAD_REQUEST),
     (''EMPTY_TEXT'', 400, BAD_REQUEST), (''TEXT_TOO_LONG'', 400, BAD_REQUEST),
     (''INVALID_MARKDOWN'', 400, BAD_REQUEST), (''TASK_NOT_FOUND'', 404, NOT_FOUND),
     (''CANNOT_CANCEL'', 409, CONFLICT)]"

definition raise_api_error :: "api_error option \<Rightarrow> exn" where
  "raise_api_error err =
     (let code = (case err of None \<Rightarrow> None | Some e \<Rightarrow> ae_code e);
          message = (case err of None \<Rightarrow> ''messages API error'' | Some e \<Rightarrow> ae_message e);
          (st, our_code) = (case map_of ERROR_MAP (str_or code []) of Some r \<Rightarrow> r | None \<Rightarrow> (502, UNAVAILABLE))
      in ServerError (ServerException_init st message our_code None))"

definition data_or_raise :: "'d api_response \<Rightarrow> exn + 'd" where
  "data_or_raise res = (case ar_data res of
     Some d \<Rightarrow> if ar_status res then Inr d else Inl (raise_api_error (ar_error res))
   | None \<Rightarrow> Inl (raise_api_error (ar_error res)))"

definition notification_send ::
  "string \<Rightarrow> 's http_client \<Rightarrow> string \<Rightarrow> string \<Rightarrow> bool \<Rightarrow> 's world \<Rightarrow> (exn + create_task_result reply) \<times> 's world" where
  "notification_send errors C phone txt markdown w =
     (case create_task errors C phone txt (if markdown then Some ''markdown'' else None) w of
        (Inl e, w') \<Rightarrow> (Inl e, w') | (Inr res, w') \<Rightarrow> (data_or_raise res, w'))"

definition notification_status ::
  "(json \<Rightarrow> timestamp option) \<Rightarrow> 's http_client \<Rightarrow> string \<Rightarrow> 's world \<Rightarrow> (exn + task_status reply) \<times> 's world" where
  "notification_status parse_datetime C task_id w = (case get_status parse_datetime C task_id w of
     (Inl e, w') \<Rightarrow> (Inl e, w') | (Inr res, w') \<Rightarrow> (data_or_raise res, w'))"

definition notification_cancel :: "'s http_client \<Rightarrow> string \<Rightarrow> 's world \<Rightarrow> (exn + unit) \<times> 's world" where
  "notification_cancel C task_id w = (case cancel_task C task_id w of
     (Inl e, w') \<Rightarrow> (Inl e, w')
   | (Inr res, w') \<Rightarrow> (if ar_status res then Inr () else Inl (raise_api_error (ar_error res)), w'))"

end
