(* ===== verification/Consumers.thy ===== *)
theory Consumers
  imports User_Service Outbox_Delivery Messages
begin

section \<open>Events and their consumers\<close>

text \<open>
  \<^verbatim>\<open>app/consumers\<close>: the events \<^verbatim>\<open>NotificationRequested\<close> and \<^verbatim>\<open>UserCreated\<close> (app/services/user.py),
  the three consumers and \<^verbatim>\<open>register_consumers\<close>. At the end the parts are composed: a user that signs
  up is counted by the audit consumer, through the outbox, the relay and the in-memory broker.
\<close>

record notification_requested =
  nr_recipient_phone :: string
  nr_text :: string
  nr_markdown :: bool

definition valid_notification :: "notification_requested \<Rightarrow> bool" where
  "valid_notification e \<longleftrightarrow> e164 (nr_recipient_phone e) \<and> 1 \<le> length (nr_text e) \<and> length (nr_text e) \<le> 4000"

text \<open>\<open>to_bool\<close> is pydantic's conversion of a JSON value to \<^verbatim>\<open>bool\<close>.\<close>

definition notifications_send :: string where
  "notifications_send = ''notifications.send''"

lemma topics_differ [simp]: "notifications_send \<noteq> users_created" "users_created \<noteq> notifications_send"
  by (simp_all add: notifications_send_def users_created_def)

definition NotificationRequested :: "(json \<Rightarrow> bool option) \<Rightarrow> notification_requested event_class" where
  "NotificationRequested to_bool = \<lparr>ev_topic = notifications_send,
     ev_dump = (\<lambda>e. JObj [(''recipient_phone'', JStr (nr_recipient_phone e)), (''text'', JStr (nr_text e)),
       (''markdown'', JBool (nr_markdown e))]),
     ev_validate = (\<lambda>j. case j of
       JObj d \<Rightarrow> (case (map_of d ''recipient_phone'', map_of d ''text'',
           case map_of d ''markdown'' of None \<Rightarrow> Some False | Some v \<Rightarrow> to_bool v) of
         (Some (JStr phone), Some (JStr txt), Some markdown) \<Rightarrow>
           (let e = \<lparr>nr_recipient_phone = phone, nr_text = txt, nr_markdown = markdown\<rparr>
            in if valid_notification e then Some e else None)
       | _ \<Rightarrow> None)
     | _ \<Rightarrow> None)\<rparr>"

record user_created =
  ue_id :: string
  ue_email :: string

definition UserCreated :: "user_created event_class" where
  "UserCreated = \<lparr>ev_topic = users_created,
     ev_dump = (\<lambda>e. JObj [(''id'', JStr (ue_id e)), (''email'', JStr (ue_email e))]),
     ev_validate = (\<lambda>j. case j of
       JObj d \<Rightarrow> (case (map_of d ''id'', map_of d ''email'') of
         (Some (JStr i), Some (JStr email)) \<Rightarrow> Some \<lparr>ue_id = i, ue_email = email\<rparr> | _ \<Rightarrow> None)
     | _ \<Rightarrow> None)\<rparr>"

text \<open>
  Events survive the queue: the payload that the producer puts there validates back to the same
  event at the consumer, for both event classes.
\<close>

theorem event_roundtrip:
  assumes "valid_notification n" "\<And>b. to_bool (JBool b) = Some b"
  shows "ev_validate (NotificationRequested to_bool) (ev_dump (NotificationRequested to_bool) n) = Some n \<and>
    ev_validate UserCreated (ev_dump UserCreated u) = Some u"
  using assms by (cases n) (simp add: NotificationRequested_def UserCreated_def Let_def)

theorem event_roundtrip_witness:
  "ev_validate (NotificationRequested (\<lambda>j. case j of JBool b \<Rightarrow> Some b | _ \<Rightarrow> None))
     (ev_dump (NotificationRequested (\<lambda>j. case j of JBool b \<Rightarrow> Some b | _ \<Rightarrow> None))
       \<lparr>nr_recipient_phone = ''+79001234567'', nr_text = ''hi'', nr_markdown = True\<rparr>) =
   Some \<lparr>nr_recipient_phone = ''+79001234567'', nr_text = ''hi'', nr_markdown = True\<rparr>"
  using event_roundtrip [of "\<lparr>nr_recipient_phone = ''+79001234567'', nr_text = ''hi'', nr_markdown = True\<rparr>"
      "\<lambda>j. case j of JBool b \<Rightarrow> Some b | _ \<Rightarrow> None"]
  by (simp add: valid_notification_def e164_def is_digit_def)

subsection \<open>Handlers\<close>

text \<open>The state they work on: the cache and the world of the messages client.\<close>

record ('s, 'n) consumer_state =
  co_cache :: 's
  co_world :: "'n world"

datatype consumer = HANDLE_NOTIFICATION | USER_CREATED_AUDIT | USER_CREATED_WELCOME

definition handle_notification ::
  "string \<Rightarrow> 'n http_client \<Rightarrow> notification_requested \<Rightarrow> ('s, 'n) consumer_state \<Rightarrow> (exn + unit) \<times> ('s, 'n) consumer_state" where
  "handle_notification errors C e s =
     (case notification_send errors C (nr_recipient_phone e) (nr_text e) (nr_markdown e) (co_world s) of
        (_, w) \<Rightarrow> (Inr (), s\<lparr>co_world := w\<rparr>))"

definition handle_user_created_audit ::
  "('s, 'v) cache \<Rightarrow> user_created \<Rightarrow> ('s, 'n) consumer_state \<Rightarrow> (exn + unit) \<times> ('s, 'n) consumer_state" where
  "handle_user_created_audit Ch e s =
     (case ca_incr Ch ''stats:users_created'' 1 None (co_cache s) of (total_signups, c) \<Rightarrow> (Inr (), s\<lparr>co_cache := c\<rparr>))"

definition handle_user_created_welcome :: "user_created \<Rightarrow> 's \<Rightarrow> (exn + unit) \<times> 's" where
  "handle_user_created_welcome e s = (Inr (), s)"

definition consumers ::
  "('s, 'v) cache \<Rightarrow> 'n http_client \<Rightarrow> string \<Rightarrow> (json \<Rightarrow> bool option) \<Rightarrow> consumer \<Rightarrow> message \<Rightarrow>
   ('s, 'n) consumer_state \<Rightarrow> (exn + unit) \<times> ('s, 'n) consumer_state" where
  "consumers Ch C errors to_bool h = (case h of
     HANDLE_NOTIFICATION \<Rightarrow> bus_wrapped (NotificationRequested to_bool) (handle_notification errors C)
   | USER_CREATED_AUDIT \<Rightarrow> bus_wrapped UserCreated (handle_user_created_audit Ch)
   | USER_CREATED_WELCOME \<Rightarrow> bus_wrapped UserCreated handle_user_created_welcome)"

definition register_consumers :: "(json \<Rightarrow> bool option) \<Rightarrow> consumer memory_broker \<Rightarrow> consumer memory_broker" where
  "register_consumers to_bool b =
     (let b = bus_subscribe (NotificationRequested to_bool) HANDLE_NOTIFICATION ''notifications'' b;
          b = bus_subscribe UserCreated USER_CREATED_AUDIT ''users-audit'' b
      in bus_subscribe UserCreated USER_CREATED_WELCOME ''users-welcome'' b)"

lemma registered_groups:
  "topic_groups (register_consumers to_bool InMemoryBroker) t =
     (if t = notifications_send then [(''notifications'', [HANDLE_NOTIFICATION])]
      else if t = users_created then [(''users-audit'', [USER_CREATED_AUDIT]), (''users-welcome'', [USER_CREATED_WELCOME])]
      else [])"
  by (simp add: register_consumers_def bus_subscribe_def topic_groups_subscribe NotificationRequested_def
      UserCreated_def Let_def)

lemma registered_mem:
  "(g, hs) \<in> set (topic_groups (register_consumers to_bool InMemoryBroker) t) \<longleftrightarrow>
     t = notifications_send \<and> g = ''notifications'' \<and> hs = [HANDLE_NOTIFICATION] \<or>
     t = users_created \<and> (g = ''users-audit'' \<and> hs = [USER_CREATED_AUDIT] \<or> g = ''users-welcome'' \<and> hs = [USER_CREATED_WELCOME])"
  unfolding registered_groups by (cases "t = notifications_send"; cases "t = users_created") simp_all

lemma registered_ok: "broker_ok (register_consumers to_bool InMemoryBroker)"
  unfolding register_consumers_def bus_subscribe_def Let_def by (intro broker_ok_subscribe broker_ok_empty)

lemma registered_tasks: "mb_tasks (register_consumers to_bool InMemoryBroker) = []"
  by (simp add: register_consumers_def bus_subscribe_def subscribe_def InMemoryBroker_def Let_def)

lemma registered_sole:
  "sole_consumer users_created USER_CREATED_AUDIT (register_consumers to_bool InMemoryBroker)"
  "sole_consumer users_created USER_CREATED_WELCOME (register_consumers to_bool InMemoryBroker)"
  "sole_consumer notifications_send HANDLE_NOTIFICATION (register_consumers to_bool InMemoryBroker)"
proof -
  let ?b = "register_consumers to_bool InMemoryBroker"
  have sole: "sole_consumer T h ?b"
    if "(g, [h]) \<in> set (topic_groups ?b T)"
      "\<And>t g' hs'. (g', hs') \<in> set (topic_groups ?b t) \<Longrightarrow> h \<in> set hs' \<Longrightarrow> t = T \<and> g' = g" for T h g
    using that registered_ok unfolding sole_consumer_def by blast
  show "sole_consumer users_created USER_CREATED_AUDIT ?b"
    by (rule sole [of "''users-audit''"]) (simp_all only: registered_mem, force+)
  show "sole_consumer users_created USER_CREATED_WELCOME ?b"
    by (rule sole [of "''users-welcome''"]) (simp_all only: registered_mem, force+)
  show "sole_consumer notifications_send HANDLE_NOTIFICATION ?b"
    by (rule sole [of "''notifications''"]) (simp_all only: registered_mem, force+)
qed

subsection \<open>Signing up is counted\<close>

definition well_formed_signup :: "message \<Rightarrow> bool" where
  "well_formed_signup m \<longleftrightarrow> ev_validate UserCreated (m_payload m) \<noteq> None"

definition signups :: "string" where
  "signups = ''stats:users_created''"

lemma consumers_cache:
  assumes "redis_cache_service R K d" "is_int_key R (co_cache s) signups"
  shows "is_int_key R (co_cache (safe_dispatch (consumers (redis_cache R K d) C errors to_bool) t s)) signups \<and>
    int_at R (co_cache (safe_dispatch (consumers (redis_cache R K d) C errors to_bool) t s)) signups =
      int_at R (co_cache s) signups +
        (if fst t = USER_CREATED_AUDIT \<and> well_formed_signup (snd t) then 1 else 0)"
proof -
  have rs: "redis_service R" using assms(1) by (simp add: redis_cache_service_def)
  let ?r = "cache_incr R signups 1 None (co_cache s)"
  have i: "kv R (snd ?r) = (kv R (co_cache s))(signups \<mapsto> (RInt (int_at R (co_cache s) signups + 1), ttl_of R (co_cache s) signups))"
    using redis_service.incrby_law [OF rs assms(2), of 1] by (cases "r_incrby R signups 1 (co_cache s)") (auto simp: cache_incr_def)
  then have "is_int_key R (snd ?r) signups" "int_at R (snd ?r) signups = int_at R (co_cache s) signups + 1"
    by (auto simp: is_int_key_def int_at_def)
  then show ?thesis
    using assms(2)
    by (cases t; cases "fst t")
       (auto simp: safe_dispatch_def consumers_def bus_wrapped_def handle_notification_def handle_user_created_audit_def
          handle_user_created_welcome_def well_formed_signup_def redis_cache_def signups_def split: option.split prod.split)
qed

lemma drained_signups:
  assumes "redis_cache_service R K d" "is_int_key R (co_cache s) signups"
  shows "int_at R (co_cache (fold (safe_dispatch (consumers (redis_cache R K d) C errors to_bool)) ts s)) signups =
    int_at R (co_cache s) signups +
      int (length (filter well_formed_signup (map snd (filter (\<lambda>t. fst t = USER_CREATED_AUDIT) ts))))"
  using assms(2)
proof (induction ts arbitrary: s)
  case (Cons t ts)
  note step = consumers_cache [OF assms(1) Cons.prems, of C errors to_bool t]
  show ?case using Cons.IH [OF conjunct1 [OF step]] step by (cases t) (auto simp: split: if_splits)
qed simp


text \<open>
  C31: The user and its event are one transaction: after a successful creation the user, with the
  default role, and exactly one new unpublished event that the consumers accept are committed
  together; after a failure neither is.
\<close>

theorem create_user_with_event:
  assumes "sv_idle v" "create_user E Ch dump i ei now udata v = (r, v')"
  shows "case r of
      Inl e \<Rightarrow> sv_db v' = sv_db v
    | Inr dto \<Rightarrow> ur_id dto = i \<and> (\<exists>u row. users (sv_db v') = users (sv_db v) @ [u] \<and> u_id u = i \<and>
        u_email u = uc_email udata \<and> u_role u = DEFAULT_ROLE \<and>
        outbox_messages (sv_db v') = outbox_messages (sv_db v) @ [row] \<and> o_id row = ei \<and>
        o_published_at row = None \<and> o_topic row = ev_topic UserCreated \<and>
        ev_validate UserCreated (o_payload row) = Some \<lparr>ue_id = i, ue_email = uc_email udata\<rparr>)"
  using assms(2) [unfolded create_user_def] assms(1) atomic_ops(1)
proof (cases rule: in_tx_elim)
  case (failed e)
  then show ?thesis by (simp add: sv_db_def)
next
  case (finished dto u)
  note c = create_tx_runs [OF finished(1)]
  have "r = Inr dto" "sv_db v' = created_db i ei now udata (sv_db v)"
    using finished(2) c by (auto simp: cache_put_def)
  then show ?thesis
    using c by (simp add: created_db_def Let_def new_user_def UserCreated_def user_created_payload_def user_read_of_def)
qed

theorem create_user_with_event_witness:
  "\<exists>row. outbox_messages (sv_db (snd (create_user (\<lambda>_. None) (redis_cache mem_redis str_codec 60) (\<lambda>_. []) ''u1'' ''e1'' 5
     \<lparr>uc_email = ''a@x.io'', uc_full_name = ''Ann''\<rparr> \<lparr>sv_uow = idle empty_db, sv_redis = Map.empty\<rparr>))) = [row] \<and>
   ev_validate UserCreated (o_payload row) = Some \<lparr>ue_id = ''u1'', ue_email = ''a@x.io''\<rparr>"
proof -
  let ?v = "\<lparr>sv_uow = idle empty_db, sv_redis = Map.empty\<rparr> :: mem svc"
  let ?d = "\<lparr>uc_email = ''a@x.io'', uc_full_name = ''Ann''\<rparr>"
  let ?r = "create_user (\<lambda>_. None) (redis_cache mem_redis str_codec 60) (\<lambda>_. []) ''u1'' ''e1'' 5 ?d ?v"
  have idle: "sv_idle ?v" by (simp add: sv_idle_def)
  have ok: "\<exists>dto. fst ?r = Inr dto"
    by (simp add: create_user_def create_tx_def tx_defs flush_def commit_def repo_def repo_defs query_defs table_defs
        in_tx_def with_uow_def aenter_def aexit_def opened_def idle_def db_ok_def db_constraints_def columns_fit_def
        empty_db_def new_user_def)
  then obtain dto where "fst ?r = Inr dto" by blast
  with create_user_with_event [OF idle, of "\<lambda>_. None" "redis_cache mem_redis str_codec 60" "\<lambda>_. []" "''u1''" "''e1''" 5 ?d
      "fst ?r" "snd ?r"]
  show ?thesis by (auto simp: sv_db_def empty_db_def)
qed


end
