(* ===== verification/Acquiring.thy ===== *)
theory Acquiring
  imports Config
begin

section \<open>Payment providers\<close>

text \<open>
  \<^verbatim>\<open>app/acquiring\<close>: the domain model of a payment, the interface of a provider (the locale
  \<open>abstract_acquirer\<close>) and the in-memory provider that implements it. Amounts (\<^verbatim>\<open>Decimal\<close>) are rationals. \<open>'raw\<close> is the provider's
  own answer, \<open>'s\<close> the provider's state. New identifiers are arguments.
\<close>

datatype payment_status = PAY_PENDING | WAITING_FOR_CAPTURE | SUCCEEDED | CANCELED

fun payment_status_value :: "payment_status \<Rightarrow> string" where
  "payment_status_value PAY_PENDING = ''pending''"
| "payment_status_value WAITING_FOR_CAPTURE = ''waiting_for_capture''"
| "payment_status_value SUCCEEDED = ''succeeded''"
| "payment_status_value CANCELED = ''canceled''"

text \<open>\<^verbatim>\<open>PaymentStatus(value)\<close> raises \<^verbatim>\<open>ValueError\<close> for another value.\<close>

definition payment_status_of :: "string \<Rightarrow> exn + payment_status" where
  "payment_status_of v = (case find (\<lambda>s. payment_status_value s = v) [PAY_PENDING, WAITING_FOR_CAPTURE, SUCCEEDED, CANCELED] of
     Some s \<Rightarrow> Inr s | None \<Rightarrow> Inl (ValueError (v @ '' is not a valid PaymentStatus'')))"

lemma payment_status_roundtrip [simp]: "payment_status_of (payment_status_value s) = Inr s"
  by (cases s) (simp_all add: payment_status_of_def)

record 'raw payment =
  pm_id :: string
  pm_status :: payment_status
  pm_amount :: rat
  pm_currency :: string
  pm_paid :: bool
  pm_confirmation_url :: "string option"
  pm_description :: "string option"
  pm_metadata :: "(string \<times> string) list"
  pm_raw :: 'raw

definition is_succeeded :: "'raw payment \<Rightarrow> bool" where
  "is_succeeded p \<longleftrightarrow> pm_status p = SUCCEEDED"

record 'raw refund =
  rf_id :: string
  rf_payment_id :: string
  rf_status :: string
  rf_amount :: rat
  rf_currency :: string
  rf_raw :: 'raw

record 'raw webhook_event =
  wh_event :: string
  wh_payment :: "'raw payment option"
  wh_raw :: 'raw

text \<open>The keyword arguments of \<^verbatim>\<open>create_payment\<close>.\<close>

record payment_request =
  rq_amount :: rat
  rq_currency :: "string option"
  rq_description :: "string option"
  rq_return_url :: "string option"
  rq_capture :: bool
  rq_metadata :: "(string \<times> string) list option"
  rq_idempotency_key :: "string option"

subsection \<open>The interface\<close>

record ('s, 'raw) acquirer =
  aq_create :: "string \<Rightarrow> payment_request \<Rightarrow> 's \<Rightarrow> (exn + 'raw payment) \<times> 's"
  aq_get :: "string \<Rightarrow> 's \<Rightarrow> (exn + 'raw payment) \<times> 's"
  aq_capture :: "string \<Rightarrow> rat option \<Rightarrow> 's \<Rightarrow> (exn + 'raw payment) \<times> 's"
  aq_cancel :: "string \<Rightarrow> 's \<Rightarrow> (exn + 'raw payment) \<times> 's"
  aq_refund :: "string \<Rightarrow> string \<Rightarrow> rat option \<Rightarrow> 's \<Rightarrow> (exn + 'raw refund) \<times> 's"

definition payment_not_found :: exn where
  "payment_not_found = NotFoundError ''Payment not found''"

text \<open>What a caller relies on; \<open>known\<close> is the provider's view of its payments.\<close>

locale abstract_acquirer =
  fixes A :: "('s, 'raw) acquirer" and known :: "'s \<Rightarrow> string \<Rightarrow> 'raw payment option"
  assumes create_law: "known s pid = None \<Longrightarrow> \<exists>p. fst (aq_create A pid q s) = Inr p \<and> pm_id p = pid \<and>
        pm_amount p = rq_amount q \<and> \<not> is_succeeded p \<and> known (snd (aq_create A pid q s)) = (known s)(pid \<mapsto> p)"
    and get_law: "aq_get A pid s = (case known s pid of None \<Rightarrow> (Inl payment_not_found, s) | Some p \<Rightarrow> (Inr p, s))"
    and capture_unknown: "known s pid = None \<Longrightarrow> aq_capture A pid amt s = (Inl payment_not_found, s)"
    and capture_law: "known s pid = Some p \<Longrightarrow> \<exists>p'. fst (aq_capture A pid amt s) = Inr p' \<and> pm_id p' = pm_id p \<and>
        pm_amount p' = pm_amount p \<and> is_succeeded p' \<and> known (snd (aq_capture A pid amt s)) = (known s)(pid \<mapsto> p')"
    and cancel_unknown: "known s pid = None \<Longrightarrow> aq_cancel A pid s = (Inl payment_not_found, s)"
    and cancel_law: "known s pid = Some p \<Longrightarrow> \<exists>p'. fst (aq_cancel A pid s) = Inr p' \<and> pm_id p' = pm_id p \<and>
        pm_amount p' = pm_amount p \<and> \<not> is_succeeded p' \<and> known (snd (aq_cancel A pid s)) = (known s)(pid \<mapsto> p')"
    and refund_law: "snd (aq_refund A rid pid amt s) = s \<and>
        (case known s pid of None \<Rightarrow> fst (aq_refund A rid pid amt s) = Inl payment_not_found
         | Some p \<Rightarrow> if is_succeeded p
             then (\<exists>r. fst (aq_refund A rid pid amt s) = Inr r \<and> rf_payment_id r = pid \<and>
               rf_amount r = (case amt of None \<Rightarrow> pm_amount p | Some a \<Rightarrow> a))
             else fst (aq_refund A rid pid amt s) = Inl (ConflictError ''Only succeeded payments can be refunded''))"

text \<open>Calls on one provider, and what they mean for one payment.\<close>

datatype acq_op = Create string payment_request | Capture string "rat option" | Cancel string | Refund string string "rat option"

fun acq_run :: "('s, 'raw) acquirer \<Rightarrow> acq_op \<Rightarrow> 's \<Rightarrow> 's" where
  "acq_run A (Create pid q) s = snd (aq_create A pid q s)"
| "acq_run A (Capture pid amt) s = snd (aq_capture A pid amt s)"
| "acq_run A (Cancel pid) s = snd (aq_cancel A pid s)"
| "acq_run A (Refund rid pid amt) s = snd (aq_refund A rid pid amt s)"

fun touches :: "string \<Rightarrow> acq_op \<Rightarrow> bool" where
  "touches pid (Capture p _) \<longleftrightarrow> p = pid"
| "touches pid (Cancel p) \<longleftrightarrow> p = pid"
| "touches pid _ = False"

fun is_capture :: "acq_op \<Rightarrow> bool" where
  "is_capture (Capture _ _) = True"
| "is_capture _ = False"

definition settled :: "string \<Rightarrow> acq_op list \<Rightarrow> bool \<Rightarrow> bool" where
  "settled pid ops before = (case filter (touches pid) ops of [] \<Rightarrow> before | xs \<Rightarrow> is_capture (last xs))"

lemma settled_simps [simp]: "settled pid [] b = b"
  "settled pid (x # xs) b = settled pid xs (if touches pid x then is_capture x else b)"
  by (auto simp: settled_def split: list.split)

context abstract_acquirer
begin

text \<open>After any calls a payment is refundable exactly when the last capture or cancel of it was a capture.\<close>

lemma run_settles:
  assumes "known s pid = Some p" "list_all (\<lambda>x. \<forall>q. x \<noteq> Create pid q) ops"
    and "\<And>i q s. Create i q \<in> set ops \<Longrightarrow> i \<noteq> pid \<Longrightarrow> known s i \<noteq> None \<Longrightarrow> known (snd (aq_create A i q s)) pid = known s pid"
  shows "\<exists>p'. known (fold (acq_run A) ops s) pid = Some p' \<and> pm_id p' = pm_id p \<and> pm_amount p' = pm_amount p \<and>
    is_succeeded p' = settled pid ops (is_succeeded p)"
  using assms
proof (induction ops arbitrary: s p)
  case (Cons x ops)
  have "\<exists>p1. known (acq_run A x s) pid = Some p1 \<and> pm_id p1 = pm_id p \<and> pm_amount p1 = pm_amount p \<and>
      is_succeeded p1 = (if touches pid x then is_capture x else is_succeeded p)"
  proof (cases x)
    case (Create i q)
    then have ne: "i \<noteq> pid" using Cons.prems(2) by auto
    have "known (snd (aq_create A i q s)) pid = known s pid"
    proof (cases "known s i")
      case None
      with create_law [OF None, of q] ne show ?thesis by auto
    next
      case (Some y)
      with Cons.prems(3) [of i q s] ne Create show ?thesis by simp
    qed
    with Create Cons.prems(1) show ?thesis by simp
  next
    case (Capture i amt)
    then show ?thesis
      using capture_law [of s i _ amt] capture_unknown [of s i amt] Cons.prems(1) by (cases "known s i") fastforce+
  next
    case (Cancel i)
    then show ?thesis
      using cancel_law [of s i] cancel_unknown [of s i] Cons.prems(1) by (cases "known s i") fastforce+
  next
    case (Refund rid i amt)
    with refund_law [of rid i amt s] Cons.prems(1) show ?thesis by simp
  qed
  then obtain p1 where p1: "known (acq_run A x s) pid = Some p1" "pm_id p1 = pm_id p" "pm_amount p1 = pm_amount p"
    "is_succeeded p1 = (if touches pid x then is_capture x else is_succeeded p)" by blast
  show ?case using Cons.IH [OF p1(1)] Cons.prems(2,3) p1(2-4) by simp
qed simp

end

subsection \<open>The in-memory provider\<close>

text \<open>\<open>mq_payments\<close> is \<^verbatim>\<open>_payments\<close>; the raw answer is the dict of its fields.\<close>

record memory_acquirer =
  mq_currency :: string
  mq_payments :: "string \<rightharpoonup> json payment"

definition memory_create_payment :: "string \<Rightarrow> payment_request \<Rightarrow> memory_acquirer \<Rightarrow> (exn + json payment) \<times> memory_acquirer" where
  "memory_create_payment pid q s =
     (let p = \<lparr>pm_id = pid, pm_status = PAY_PENDING, pm_amount = rq_amount q,
            pm_currency = str_or (rq_currency q) (mq_currency s), pm_paid = False,
            pm_confirmation_url = Some (''https://stub.acquirer/pay/'' @ pid), pm_description = rq_description q,
            pm_metadata = (case rq_metadata q of None \<Rightarrow> [] | Some m \<Rightarrow> m),
            pm_raw = JObj [(''id'', JStr pid), (''simulated'', JBool True)]\<rparr>
      in (Inr p, s\<lparr>mq_payments := (mq_payments s)(pid \<mapsto> p)\<rparr>))"

definition memory_get_payment :: "string \<Rightarrow> memory_acquirer \<Rightarrow> (exn + json payment) \<times> memory_acquirer" where
  "memory_get_payment pid s = (case mq_payments s pid of None \<Rightarrow> (Inl payment_not_found, s) | Some p \<Rightarrow> (Inr p, s))"

definition memory_capture_payment :: "string \<Rightarrow> rat option \<Rightarrow> memory_acquirer \<Rightarrow> (exn + json payment) \<times> memory_acquirer" where
  "memory_capture_payment pid amount s = (case memory_get_payment pid s of
     (Inl e, s) \<Rightarrow> (Inl e, s)
   | (Inr p, s) \<Rightarrow> (let p = p\<lparr>pm_status := SUCCEEDED, pm_paid := True\<rparr>
       in (Inr p, s\<lparr>mq_payments := (mq_payments s)(pid \<mapsto> p)\<rparr>)))"

definition memory_cancel_payment :: "string \<Rightarrow> memory_acquirer \<Rightarrow> (exn + json payment) \<times> memory_acquirer" where
  "memory_cancel_payment pid s = (case memory_get_payment pid s of
     (Inl e, s) \<Rightarrow> (Inl e, s)
   | (Inr p, s) \<Rightarrow> (let p = p\<lparr>pm_status := CANCELED\<rparr>
       in (Inr p, s\<lparr>mq_payments := (mq_payments s)(pid \<mapsto> p)\<rparr>)))"

definition memory_create_refund :: "string \<Rightarrow> string \<Rightarrow> rat option \<Rightarrow> memory_acquirer \<Rightarrow> (exn + json refund) \<times> memory_acquirer" where
  "memory_create_refund rid pid amount s = (case memory_get_payment pid s of
     (Inl e, s) \<Rightarrow> (Inl e, s)
   | (Inr p, s) \<Rightarrow> if \<not> is_succeeded p then (Inl (ConflictError ''Only succeeded payments can be refunded''), s)
       else (Inr \<lparr>rf_id = rid, rf_payment_id = pid, rf_status = ''succeeded'',
           rf_amount = (case amount of Some a \<Rightarrow> a | None \<Rightarrow> pm_amount p), rf_currency = pm_currency p,
           rf_raw = JObj [(''id'', JStr rid), (''payment_id'', JStr pid), (''simulated'', JBool True)]\<rparr>, s))"

text \<open>\<open>py_str\<close> is \<^verbatim>\<open>str(x)\<close>; a body that is not a JSON object raises.\<close>

definition memory_parse_webhook :: "(string \<Rightarrow> exn + json) \<Rightarrow> (json \<Rightarrow> string) \<Rightarrow> string \<Rightarrow> exn + json webhook_event" where
  "memory_parse_webhook loads py_str body = (case loads body of
     Inl e \<Rightarrow> Inl e
   | Inr (JObj d) \<Rightarrow> Inr \<lparr>wh_event = (case map_of d ''event'' of None \<Rightarrow> [] | Some v \<Rightarrow> py_str v), wh_payment = None, wh_raw = JObj d\<rparr>
   | Inr _ \<Rightarrow> Inl (OtherError ''AttributeError'' ''get''))"

definition InMemoryAcquirer :: "(memory_acquirer, json) acquirer" where
  "InMemoryAcquirer = \<lparr>aq_create = memory_create_payment, aq_get = memory_get_payment, aq_capture = memory_capture_payment,
     aq_cancel = memory_cancel_payment, aq_refund = memory_create_refund\<rparr>"

lemmas memory_acquirer_defs = InMemoryAcquirer_def memory_create_payment_def memory_get_payment_def
  memory_capture_payment_def memory_cancel_payment_def memory_create_refund_def is_succeeded_def Let_def

text \<open>A capture does not look at the status, and a cancellation leaves \<open>pm_paid\<close> as it was.\<close>

lemma cancelled_payment_captured:
  assumes "mq_payments s pid = Some p"
  shows "\<exists>p'. mq_payments (snd (memory_cancel_payment pid s)) pid = Some p' \<and> pm_paid p' = pm_paid p"
    and "\<exists>p'. fst (memory_capture_payment pid amount (snd (memory_cancel_payment pid s))) = Inr p' \<and> is_succeeded p'"
  using assms by (auto simp: memory_acquirer_defs memory_get_payment_def)

interpretation memory_acquirer: abstract_acquirer InMemoryAcquirer mq_payments
proof (unfold_locales, goal_cases)
  case (7 rid pid amt s)
  then show ?case by (auto simp: memory_acquirer_defs split: option.splits)
qed (auto simp: memory_acquirer_defs split: option.split)



end
