(* ===== verification/Yookassa.thy ===== *)
theory Yookassa
  imports Acquiring
begin

section \<open>The YooKassa provider and the registry\<close>

text \<open>
  \<^verbatim>\<open>app/acquiring/yookassa.py\<close> over the SDK, which is a parameter: its calls on an abstract state, the
  attributes of the objects it returns, and \<^verbatim>\<open>Decimal(text)\<close>. \<^verbatim>\<open>app/acquiring/factory.py\<close> builds one provider per
  enabled name, once per process.
\<close>

subsection \<open>Amounts as text\<close>

text \<open>\<^verbatim>\<open>f"{amount:.2f}"\<close> of a \<^verbatim>\<open>Decimal\<close>: two places, a tie goes to the even neighbour.\<close>

definition round_half_even :: "rat \<Rightarrow> int" where
  "round_half_even q = (let n = \<lfloor>q\<rfloor>; f = q - of_int n
     in if f < 1 / 2 then n else if f > 1 / 2 then n + 1 else if even n then n else n + 1)"

definition cents_text :: "nat \<Rightarrow> string" where
  "cents_text a = str_of_nat (a div 100) @ ''.'' @ str_of_nat (a div 10 mod 10) @ str_of_nat (a mod 10)"

definition money :: "rat \<Rightarrow> string" where
  "money amount = (if amount < 0 then ''-'' else []) @ cents_text (nat (round_half_even (100 * \<bar>amount\<bar>)))"

text \<open>Reading such a text back: digits, a point, two digits.\<close>

definition read_money :: "string \<Rightarrow> rat option" where
  "read_money t = (case split_on CHR ''.'' t of
     [units, cents] \<Rightarrow> if isdigit units \<and> isdigit cents \<and> length cents = 2
       then Some (of_int (int_of_digits units) + of_int (int_of_digits cents) / 100) else None
   | _ \<Rightarrow> None)"

lemma str_of_digit: "n < 10 \<Longrightarrow> str_of_nat n = [char_of (48 + n)]"
  by (subst str_of_nat.simps) simp

lemma split_on_append: "c \<notin> set a \<Longrightarrow> split_on c (a @ c # b) = a # split_on c b"
  by (induction a) auto

lemma split_on_single: "c \<notin> set a \<Longrightarrow> split_on c a = [a]"
  by (induction a) auto

lemma isdigit_no_point: "isdigit s \<Longrightarrow> CHR ''.'' \<notin> set s"
  by (auto simp: isdigit_def list_all_iff is_digit_def)

lemma round_half_even_int [simp]: "round_half_even (of_int n) = n"
  by (simp add: round_half_even_def Let_def)



subsection \<open>The SDK\<close>

text \<open>
  The attributes \<^verbatim>\<open>_to_payment\<close> and \<^verbatim>\<open>_to_refund\<close> read of an SDK object; an attribute that may be
  missing is an option. \<open>yk_decimal\<close> is \<^verbatim>\<open>Decimal(text)\<close>.
\<close>

record yk_object =
  yo_id :: string
  yo_status :: string
  yo_amount :: "(string \<times> string) option"
  yo_paid :: bool
  yo_confirmation_url :: "string option"
  yo_description :: "string option"
  yo_metadata :: "(string \<times> string) list"
  yo_payment_id :: string

record 's yk_sdk =
  yk_configure :: "string \<Rightarrow> string \<Rightarrow> 's \<Rightarrow> 's"
  yk_settings :: "'s \<Rightarrow> (exn + unit) \<times> 's"
  yk_create :: "json \<Rightarrow> string \<Rightarrow> 's \<Rightarrow> (exn + yk_object) \<times> 's"
  yk_find_one :: "string \<Rightarrow> 's \<Rightarrow> (exn + yk_object option) \<times> 's"
  yk_capture :: "string \<Rightarrow> json \<Rightarrow> string \<Rightarrow> 's \<Rightarrow> (exn + yk_object) \<times> 's"
  yk_cancel :: "string \<Rightarrow> string \<Rightarrow> 's \<Rightarrow> (exn + yk_object) \<times> 's"
  yk_refund :: "json \<Rightarrow> string \<Rightarrow> 's \<Rightarrow> (exn + yk_object) \<times> 's"
  yk_decimal :: "string \<Rightarrow> exn + rat"
  yk_text :: "exn \<Rightarrow> string"

record 's yookassa_acquirer =
  ya_shop_id :: string
  ya_secret_key :: string
  ya_currency :: string
  ya_return_url :: string
  ya_configured :: bool
  ya_sdk :: 's

definition YooKassaAcquirer :: "string \<Rightarrow> string \<Rightarrow> string \<Rightarrow> string \<Rightarrow> 's \<Rightarrow> 's yookassa_acquirer" where
  "YooKassaAcquirer shop_id secret_key default_currency default_return_url s =
     \<lparr>ya_shop_id = shop_id, ya_secret_key = secret_key, ya_currency = default_currency,
      ya_return_url = default_return_url, ya_configured = False, ya_sdk = s\<rparr>"

definition yookassa_configure :: "'s yk_sdk \<Rightarrow> 's yookassa_acquirer \<Rightarrow> 's yookassa_acquirer" where
  "yookassa_configure K a = a\<lparr>ya_sdk := yk_configure K (ya_shop_id a) (ya_secret_key a) (ya_sdk a), ya_configured := True\<rparr>"

definition ensure_configured :: "'s yk_sdk \<Rightarrow> 's yookassa_acquirer \<Rightarrow> 's yookassa_acquirer" where
  "ensure_configured K a = (if ya_configured a then a else yookassa_configure K a)"

definition yookassa_healthcheck :: "'s yk_sdk \<Rightarrow> 's yookassa_acquirer \<Rightarrow> bool \<times> 's yookassa_acquirer" where
  "yookassa_healthcheck K a = (let a = ensure_configured K a in case yk_settings K (ya_sdk a) of
     (Inl e, s) \<Rightarrow> (False, a\<lparr>ya_sdk := s\<rparr>) | (Inr _, s) \<Rightarrow> (True, a\<lparr>ya_sdk := s\<rparr>))"

text \<open>\<^verbatim>\<open>_call\<close>: every exception of the SDK becomes the provider's error.\<close>

definition yk_call :: "'s yk_sdk \<Rightarrow> ('s \<Rightarrow> (exn + 'x) \<times> 's) \<Rightarrow> 's yookassa_acquirer \<Rightarrow> (exn + 'x) \<times> 's yookassa_acquirer" where
  "yk_call K func a = (case func (ya_sdk a) of
     (Inl e, s) \<Rightarrow> (Inl (AcquiringError (''YooKassa request failed: '' @ yk_text K e)), a\<lparr>ya_sdk := s\<rparr>)
   | (Inr x, s) \<Rightarrow> (Inr x, a\<lparr>ya_sdk := s\<rparr>))"

definition yk_amount :: "'s yk_sdk \<Rightarrow> yk_object \<Rightarrow> exn + rat" where
  "yk_amount K raw = (case yo_amount raw of None \<Rightarrow> Inr 0 | Some (v, _) \<Rightarrow> yk_decimal K v)"

definition to_payment :: "'s yk_sdk \<Rightarrow> yk_object \<Rightarrow> exn + yk_object payment" where
  "to_payment K raw = (case payment_status_of (yo_status raw) of Inl e \<Rightarrow> Inl e
     | Inr st \<Rightarrow> (case yk_amount K raw of Inl e \<Rightarrow> Inl e
       | Inr amount \<Rightarrow> Inr \<lparr>pm_id = yo_id raw, pm_status = st, pm_amount = amount,
           pm_currency = (case yo_amount raw of None \<Rightarrow> [] | Some (_, c) \<Rightarrow> c), pm_paid = yo_paid raw,
           pm_confirmation_url = yo_confirmation_url raw, pm_description = yo_description raw,
           pm_metadata = yo_metadata raw, pm_raw = raw\<rparr>))"

definition to_refund :: "'s yk_sdk \<Rightarrow> yk_object \<Rightarrow> exn + yk_object refund" where
  "to_refund K raw = (case yk_amount K raw of Inl e \<Rightarrow> Inl e
     | Inr amount \<Rightarrow> Inr \<lparr>rf_id = yo_id raw, rf_payment_id = yo_payment_id raw, rf_status = yo_status raw, rf_amount = amount,
         rf_currency = (case yo_amount raw of None \<Rightarrow> [] | Some (_, c) \<Rightarrow> c), rf_raw = raw\<rparr>)"

definition then_map :: "('x \<Rightarrow> exn + 'y) \<Rightarrow> (exn + 'x) \<times> 'a \<Rightarrow> (exn + 'y) \<times> 'a" where
  "then_map f r = (case r of (Inl e, a) \<Rightarrow> (Inl e, a) | (Inr x, a) \<Rightarrow> (f x, a))"

subsection \<open>The operations\<close>

definition amount_json :: "rat \<Rightarrow> string \<Rightarrow> json" where
  "amount_json amount currency = JObj [(''value'', JStr (money amount)), (''currency'', JStr currency)]"

text \<open>\<open>new_key\<close> is \<^verbatim>\<open>uuid4().hex\<close>.\<close>

definition create_params :: "'s yookassa_acquirer \<Rightarrow> payment_request \<Rightarrow> json" where
  "create_params a q = JObj ([(''amount'', amount_json (rq_amount q) (str_or (rq_currency q) (ya_currency a))),
       (''capture'', JBool (rq_capture q)),
       (''confirmation'', JObj [(''type'', JStr ''redirect''), (''return_url'', JStr (str_or (rq_return_url q) (ya_return_url a)))])] @
     (if str_truthy (rq_description q) then [(''description'', JStr (the (rq_description q)))] else []) @
     (case rq_metadata q of None \<Rightarrow> [] | Some [] \<Rightarrow> [] | Some m \<Rightarrow> [(''metadata'', JObj (map (\<lambda>(k, v). (k, JStr v)) m))]))"

definition yookassa_create_payment ::
  "'s yk_sdk \<Rightarrow> string \<Rightarrow> payment_request \<Rightarrow> 's yookassa_acquirer \<Rightarrow> (exn + yk_object payment) \<times> 's yookassa_acquirer" where
  "yookassa_create_payment K new_key q a = (let a = ensure_configured K a in
     then_map (to_payment K) (yk_call K (yk_create K (create_params a q) (str_or (rq_idempotency_key q) new_key)) a))"

definition yookassa_get_payment ::
  "'s yk_sdk \<Rightarrow> string \<Rightarrow> 's yookassa_acquirer \<Rightarrow> (exn + yk_object payment) \<times> 's yookassa_acquirer" where
  "yookassa_get_payment K pid a = (let a = ensure_configured K a in
     then_map (\<lambda>raw. case raw of None \<Rightarrow> Inl payment_not_found | Some r \<Rightarrow> to_payment K r) (yk_call K (yk_find_one K pid) a))"

definition yookassa_capture_payment ::
  "'s yk_sdk \<Rightarrow> string \<Rightarrow> string \<Rightarrow> rat option \<Rightarrow> string option \<Rightarrow> 's yookassa_acquirer \<Rightarrow>
   (exn + yk_object payment) \<times> 's yookassa_acquirer" where
  "yookassa_capture_payment K new_key pid amount key a = (let a = ensure_configured K a;
       params = JObj (case amount of None \<Rightarrow> [] | Some x \<Rightarrow> [(''amount'', amount_json x (ya_currency a))])
     in then_map (to_payment K) (yk_call K (yk_capture K pid params (str_or key new_key)) a))"

definition yookassa_cancel_payment ::
  "'s yk_sdk \<Rightarrow> string \<Rightarrow> string \<Rightarrow> string option \<Rightarrow> 's yookassa_acquirer \<Rightarrow> (exn + yk_object payment) \<times> 's yookassa_acquirer" where
  "yookassa_cancel_payment K new_key pid key a = (let a = ensure_configured K a in
     then_map (to_payment K) (yk_call K (yk_cancel K pid (str_or key new_key)) a))"

definition refund_params :: "string \<Rightarrow> rat \<Rightarrow> string \<Rightarrow> json" where
  "refund_params pid amount currency = JObj [(''payment_id'', JStr pid), (''amount'', amount_json amount currency)]"

definition yookassa_create_refund ::
  "'s yk_sdk \<Rightarrow> string \<Rightarrow> string \<Rightarrow> rat option \<Rightarrow> string option \<Rightarrow> 's yookassa_acquirer \<Rightarrow>
   (exn + yk_object refund) \<times> 's yookassa_acquirer" where
  "yookassa_create_refund K new_key pid amount key a = (let a = ensure_configured K a in
     case (case amount of
         Some x \<Rightarrow> (Inr (x, ya_currency a), a)
       | None \<Rightarrow> then_map (\<lambda>p. Inr (pm_amount p, pm_currency p)) (yookassa_get_payment K pid a)) of
       (Inl e, a) \<Rightarrow> (Inl e, a)
     | (Inr (x, currency), a) \<Rightarrow>
         then_map (to_refund K) (yk_call K (yk_refund K (refund_params pid x currency) (str_or key new_key)) a))"

text \<open>The webhook: \<open>py_str\<close> is \<^verbatim>\<open>str\<close>; a nested field of another shape than the code expects raises.\<close>

definition as_object :: "json \<Rightarrow> exn + (string \<times> json) list" where
  "as_object j = (if json_truthy j then (case j of JObj d \<Rightarrow> Inr d | _ \<Rightarrow> Inl (OtherError ''AttributeError'' ''get'')) else Inr [])"

definition field_or :: "(string \<times> json) list \<Rightarrow> string \<Rightarrow> json \<Rightarrow> json" where
  "field_or d k v = (case map_of d k of None \<Rightarrow> v | Some x \<Rightarrow> x)"

definition json_string_option :: "json \<Rightarrow> string option" where
  "json_string_option j = (case j of JStr s \<Rightarrow> Some s | _ \<Rightarrow> None)"

definition payment_from_dict :: "'s yk_sdk \<Rightarrow> (json \<Rightarrow> string) \<Rightarrow> (string \<times> json) list \<Rightarrow> exn + json payment" where
  "payment_from_dict K py_str obj = (case as_object (obj_get obj ''amount'') of Inl e \<Rightarrow> Inl e
     | Inr amount \<Rightarrow> (case as_object (obj_get obj ''confirmation'') of Inl e \<Rightarrow> Inl e
       | Inr conf \<Rightarrow> (case payment_status_of (py_str (field_or obj ''status'' (JStr ''pending''))) of Inl e \<Rightarrow> Inl e
         | Inr st \<Rightarrow> (case yk_decimal K (py_str (field_or amount ''value'' (JStr ''0''))) of Inl e \<Rightarrow> Inl e
           | Inr value \<Rightarrow> (case as_object (obj_get obj ''metadata'') of Inl e \<Rightarrow> Inl e
             | Inr metadata \<Rightarrow> Inr \<lparr>pm_id = py_str (field_or obj ''id'' (JStr [])), pm_status = st, pm_amount = value,
                 pm_currency = py_str (field_or amount ''currency'' (JStr [])), pm_paid = json_truthy (obj_get obj ''paid''),
                 pm_confirmation_url = json_string_option (obj_get conf ''confirmation_url''),
                 pm_description = json_string_option (obj_get obj ''description''),
                 pm_metadata = map (\<lambda>(k, v). (k, py_str v)) metadata, pm_raw = JObj obj\<rparr>)))))"

definition yookassa_parse_webhook ::
  "'s yk_sdk \<Rightarrow> (string \<Rightarrow> exn + json) \<Rightarrow> (json \<Rightarrow> string) \<Rightarrow> string \<Rightarrow> exn + json webhook_event" where
  "yookassa_parse_webhook K loads py_str body = (case loads body of
     Inl _ \<Rightarrow> Inl (AcquiringError ''Invalid webhook body'')
   | Inr (JObj d) \<Rightarrow> (case as_object (obj_get d ''object'') of Inl e \<Rightarrow> Inl e
       | Inr obj \<Rightarrow> (case (if obj = [] then Inr None else map_sum id Some (payment_from_dict K py_str obj)) of Inl e \<Rightarrow> Inl e
         | Inr payment \<Rightarrow> Inr \<lparr>wh_event = py_str (field_or d ''event'' (JStr [])), wh_payment = payment, wh_raw = JObj d\<rparr>))
   | Inr _ \<Rightarrow> Inl (OtherError ''AttributeError'' ''get''))"

subsection \<open>Errors of the provider\<close>

lemma yk_call_failed: "func (ya_sdk a) = (Inl e, s) \<Longrightarrow>
    yk_call K func a = (Inl (AcquiringError (''YooKassa request failed: '' @ yk_text K e)), a\<lparr>ya_sdk := s\<rparr>)"
  by (simp add: yk_call_def)

lemma then_map_failed: "then_map f (Inl e, a) = (Inl e, a)"
  by (simp add: then_map_def)

text \<open>
  A full refund asks the provider for the payment first and sends exactly its amount and currency.
\<close>

lemma full_refund_params:
  assumes "ya_configured a" "yookassa_get_payment K pid a = (Inr p, a1)"
  shows "yookassa_create_refund K new_key pid None key a =
    then_map (to_refund K) (yk_call K (yk_refund K (refund_params pid (pm_amount p) (pm_currency p)) (str_or key new_key)) a1)"
  using assms by (simp add: yookassa_create_refund_def ensure_configured_def then_map_def Let_def)

subsection \<open>The registry\<close>

datatype 's built = BuiltMemory memory_acquirer | BuiltYooKassa "'s yookassa_acquirer"

definition build_one :: "settings \<Rightarrow> 's \<Rightarrow> acquirer_name \<Rightarrow> 's built" where
  "build_one c s name = (case name of
     MEMORY \<Rightarrow> BuiltMemory \<lparr>mq_currency = acquiring_currency c, mq_payments = Map.empty\<rparr>
   | YOOKASSA \<Rightarrow> BuiltYooKassa (YooKassaAcquirer (yookassa_shop_id c) (yookassa_secret_key c) (acquiring_currency c)
       (acquiring_return_url c) s))"

definition build_enabled :: "settings \<Rightarrow> 's \<Rightarrow> acquirer_name \<rightharpoonup> 's built" where
  "build_enabled c s = (\<lambda>name. if name \<in> enabled_acquirers c then Some (build_one c s name) else None)"

text \<open>
  The registry is a module variable: built on first use, kept until \<^verbatim>\<open>reset_acquirers\<close>. The names in
  the message are in alphabetical order.
\<close>

type_synonym 's acquirer_registry = "(acquirer_name \<rightharpoonup> 's built) option"

definition get_acquirers :: "settings \<Rightarrow> 's \<Rightarrow> 's acquirer_registry \<Rightarrow> (acquirer_name \<rightharpoonup> 's built) \<times> 's acquirer_registry" where
  "get_acquirers c s reg =
     (let reg = (case reg of None \<Rightarrow> build_enabled c s | Some r \<Rightarrow> r) in (reg, Some reg))"

definition acquirer_names :: "(acquirer_name \<rightharpoonup> 's built) \<Rightarrow> string" where
  "acquirer_names r = (case [acquirer_value n. n \<leftarrow> [MEMORY, YOOKASSA], r n \<noteq> None] of
     [] \<Rightarrow> ''<none>'' | n # ns \<Rightarrow> n @ concat (map (\<lambda>m. '', '' @ m) ns))"

definition get_acquirer ::
  "settings \<Rightarrow> 's \<Rightarrow> acquirer_name \<Rightarrow> 's acquirer_registry \<Rightarrow> (exn + 's built) \<times> 's acquirer_registry" where
  "get_acquirer c s name reg = (case get_acquirers c s reg of (acquirers, reg') \<Rightarrow>
     (case acquirers name of
        Some a \<Rightarrow> (Inr a, reg')
      | None \<Rightarrow> (Inl (ValueError (''Acquirer '' @ [CHR 0x27] @ acquirer_value name @ [CHR 0x27] @
          '' is not enabled (enabled: '' @ acquirer_names acquirers @ '')'')), reg')))"

definition reset_acquirers :: "'s acquirer_registry \<Rightarrow> 's acquirer_registry" where
  "reset_acquirers reg = None"

text \<open>What a first use builds stays: later uses return the same providers, even after the settings change.\<close>

lemma get_acquirer_enabled:
  "get_acquirer c s name None = (r, reg) \<Longrightarrow> (\<exists>a. r = Inr a) \<longleftrightarrow> name \<in> enabled_acquirers c"
  by (auto simp: get_acquirer_def get_acquirers_def Let_def build_enabled_def split: if_splits)

lemma get_acquirer_kept:
  "get_acquirer c s name reg = (r, reg') \<Longrightarrow> get_acquirer c' s' name reg' = (r, reg')"
  by (auto simp: get_acquirer_def get_acquirers_def Let_def split: option.splits)

lemma prod_never_builds_stub:
  "get_settings c = Inr c \<Longrightarrow> is_prod c \<Longrightarrow> \<exists>e reg. get_acquirer c s MEMORY None = (Inl e, reg)"
  by (auto simp: get_acquirer_def get_acquirers_def Let_def build_enabled_def get_settings_Inr)

lemma nothing_enabled_message:
  "enabled_acquirers c = {} \<Longrightarrow> fst (get_acquirer c s YOOKASSA None) =
     Inl (ValueError (''Acquirer '' @ [CHR 0x27] @ ''yookassa'' @ [CHR 0x27] @ '' is not enabled (enabled: <none>)''))"
  by (simp add: get_acquirer_def get_acquirers_def Let_def build_enabled_def acquirer_names_def)

end
