(* ===== verification/Middleware.thy ===== *)
theory Middleware
  imports Rate_Limit
begin

section \<open>The middleware stack\<close>

text \<open>
  \<^verbatim>\<open>app/middleware\<close> and the order in which \<^verbatim>\<open>create_app\<close> (app/main.py) puts the layers around the
  application. An ASGI application is a function of the scope, the request id of the context and the
  state, which is Redis and the rest of the world; it answers or raises. The CORS layer \<open>cors\<close> is Starlette's
  and a parameter; \<open>sha256\<close> is the hash as hexadecimal text, \<open>new_id\<close> is \<^verbatim>\<open>uuid4().hex\<close>. Header values are
  bytes.
\<close>

record http_scope =
  hs_type :: string
  hs_path :: string
  hs_headers :: "(string \<times> string) list"
  hs_client :: "string option"

datatype 'b body = ErrorBody "error_data server_response" | Body 'b

record 'b http_response =
  hr_status :: int
  hr_headers :: "(string \<times> string) list"
  hr_body :: "'b body"

type_synonym ('r, 'w, 'b) asgi = "http_scope \<Rightarrow> string option \<Rightarrow> 'r \<times> 'w \<Rightarrow> (exn + 'b http_response) \<times> 'r \<times> 'w"

text \<open>\<^verbatim>\<open>dict(scope["headers"])\<close>: of a repeated header the last value; Starlette's \<^verbatim>\<open>headers.get\<close>: the first.\<close>

definition last_header :: "http_scope \<Rightarrow> string \<Rightarrow> string" where
  "last_header sc name = (case map_of (rev (hs_headers sc)) name of None \<Rightarrow> [] | Some v \<Rightarrow> v)"

definition first_header :: "http_scope \<Rightarrow> string \<Rightarrow> string option" where
  "first_header sc name = map_of (hs_headers sc) name"

text \<open>
  \<^verbatim>\<open>bytes.decode()\<close>: strict UTF-8. The text is kept as its bytes; what is not well formed raises.
\<close>

definition byte :: "char \<Rightarrow> nat" where
  "byte ch = of_char ch"

definition is_ascii :: "string \<Rightarrow> bool" where
  "is_ascii = list_all (\<lambda>ch. byte ch < 128)"

definition continues :: "nat \<Rightarrow> bool" where
  "continues b \<longleftrightarrow> 128 \<le> b \<and> b < 192"

fun utf8_ok :: "nat list \<Rightarrow> bool" where
  "utf8_ok [] = True"
| "utf8_ok (a # bs) = (if a < 128 then utf8_ok bs
     else if 194 \<le> a \<and> a < 224 then (case bs of b # r \<Rightarrow> continues b \<and> utf8_ok r | _ \<Rightarrow> False)
     else if 224 \<le> a \<and> a < 240 then (case bs of b # c # r \<Rightarrow> continues b \<and> continues c \<and>
         (a = 224 \<longrightarrow> 160 \<le> b) \<and> (a = 237 \<longrightarrow> b < 160) \<and> utf8_ok r | _ \<Rightarrow> False)
     else if 240 \<le> a \<and> a < 245 then (case bs of b # c # d # r \<Rightarrow> continues b \<and> continues c \<and> continues d \<and>
         (a = 240 \<longrightarrow> 144 \<le> b) \<and> (a = 244 \<longrightarrow> b < 144) \<and> utf8_ok r | _ \<Rightarrow> False)
     else False)"

definition decoded :: "http_scope \<Rightarrow> string \<Rightarrow> exn + string" where
  "decoded sc name = (let v = last_header sc name in if utf8_ok (map byte v) then Inr v
     else Inl (OtherError ''UnicodeDecodeError'' ''utf-8''))"

lemma ascii_utf8: "is_ascii s \<Longrightarrow> utf8_ok (map byte s)"
  by (induction s) (auto simp: is_ascii_def)

subsection \<open>Exceptions\<close>

text \<open>
  \<^verbatim>\<open>register_exception_handlers\<close>: Starlette runs the handlers of the named classes in its innermost layer
  (\<^verbatim>\<open>ExceptionMiddleware\<close>), and the handler of \<^verbatim>\<open>Exception\<close> in its outermost one (\<^verbatim>\<open>ServerErrorMiddleware\<close>), for
  whatever comes out of the program's own layers.
\<close>

definition rendered :: "http_error \<Rightarrow> 'b http_response" where
  "rendered he = \<lparr>hr_status = he_status he, hr_headers = (case he_headers he of None \<Rightarrow> [] | Some hs \<Rightarrow> hs),
     hr_body = ErrorBody (he_body he)\<rparr>"

definition ExceptionMiddleware :: "('r, 'w, 'b) asgi \<Rightarrow> ('r, 'w, 'b) asgi" where
  "ExceptionMiddleware app sc rid s = (case app sc rid s of
     (Inl e, s') \<Rightarrow> (if is_unforeseen e then Inl e else Inr (rendered (handle_exception rid e)), s')
   | (Inr resp, s') \<Rightarrow> (Inr resp, s'))"

definition ServerErrorMiddleware :: "('r, 'w, 'b) asgi \<Rightarrow> ('r, 'w, 'b) asgi" where
  "ServerErrorMiddleware app sc rid s = (if hs_type sc \<noteq> ''http'' then app sc rid s
     else (case app sc rid s of
         (Inl e, s') \<Rightarrow> (Inr (rendered (unhandled_handler rid)), s')
       | (Inr resp, s') \<Rightarrow> (Inr resp, s')))"

subsection \<open>Security headers\<close>

definition HEADERS :: "(string \<times> string) list" where
  "HEADERS = [(''x-content-type-options'', ''nosniff''), (''x-frame-options'', ''DENY''),
     (''referrer-policy'', ''strict-origin-when-cross-origin'')]"

definition add_headers :: "(string \<times> string) list \<Rightarrow> 'b http_response \<Rightarrow> 'b http_response" where
  "add_headers hs resp = resp\<lparr>hr_headers := hr_headers resp @ hs\<rparr>"

definition SecurityHeadersMiddleware :: "('r, 'w, 'b) asgi \<Rightarrow> ('r, 'w, 'b) asgi" where
  "SecurityHeadersMiddleware app sc rid s = (if hs_type sc \<noteq> ''http'' then app sc rid s
     else (case app sc rid s of (r, s') \<Rightarrow> (map_sum id (add_headers HEADERS) r, s')))"

subsection \<open>Request context\<close>

text \<open>The trace id is read, and bound for the log records. The context of the id ends with the layer.\<close>

definition request_id_of :: "string \<Rightarrow> http_scope \<Rightarrow> string" where
  "request_id_of new_id sc = (let h = last_header sc ''x-request-id'' in if h \<noteq> [] then h else new_id)"

definition RequestContextMiddleware :: "string \<Rightarrow> ('r, 'w, 'b) asgi \<Rightarrow> ('r, 'w, 'b) asgi" where
  "RequestContextMiddleware new_id app sc rid s = (if hs_type sc \<noteq> ''http'' then app sc rid s
     else (case decoded sc ''x-request-id'' of
         Inl e \<Rightarrow> (Inl e, s)
       | Inr _ \<Rightarrow> (case decoded sc ''x-trace-id'' of
           Inl e \<Rightarrow> (Inl e, s)
         | Inr _ \<Rightarrow> (let request_id = request_id_of new_id sc
             in case app sc (Some request_id) s of
                  (r, s') \<Rightarrow> (map_sum id (add_headers [(''x-request-id'', request_id)]) r, s')))))"

subsection \<open>The global key\<close>

definition exempt_prefixes :: "settings \<Rightarrow> string list" where
  "exempt_prefixes c = [api_v1_prefix c @ ''/health'', ''/docs'', ''/redoc'', ''/openapi.json'']"

definition is_exempt :: "settings \<Rightarrow> http_scope \<Rightarrow> bool" where
  "is_exempt c sc \<longleftrightarrow> (\<exists>p \<in> set (exempt_prefixes c). startswith (hs_path sc) p)"

text \<open>\<^verbatim>\<open>hmac.compare_digest\<close> takes texts of ASCII characters only and raises on others.\<close>

definition is_valid_key :: "settings \<Rightarrow> string \<Rightarrow> exn + bool" where
  "is_valid_key c provided = (let expected = global_api_key c
     in if expected = [] then Inr False
        else if \<not> is_ascii provided \<or> \<not> is_ascii expected
        then Inl (OtherError ''TypeError'' ''comparing strings with non-ASCII characters is not supported'')
        else Inr (provided = expected))"

definition reject_key :: "string option \<Rightarrow> 'b http_response" where
  "reject_key rid = \<lparr>hr_status = 401, hr_headers = [],
     hr_body = ErrorBody (error_resp rid ''Invalid or missing API key'' UNAUTHORIZED None)\<rparr>"

definition ApiKeyMiddleware :: "settings \<Rightarrow> ('r, 'w, 'b) asgi \<Rightarrow> ('r, 'w, 'b) asgi" where
  "ApiKeyMiddleware c app sc rid s =
     (if hs_type sc \<noteq> ''http'' \<or> \<not> global_api_key_enabled c then app sc rid s
      else if is_exempt c sc then app sc rid s
      else (case decoded sc ''x-api-key'' of
          Inl e \<Rightarrow> (Inl e, s)
        | Inr provided \<Rightarrow> (case is_valid_key c provided of
            Inl e \<Rightarrow> (Inl e, s)
          | Inr valid \<Rightarrow> if \<not> valid then (Inr (reject_key rid), s) else app sc rid s)))"

subsection \<open>The rate limit\<close>

definition client_ip :: "http_scope \<Rightarrow> string" where
  "client_ip sc = (let xff = first_header sc ''x-forwarded-for''
     in if str_truthy xff then strip (hd (split_on CHR '','' (the xff)))
        else (case hs_client sc of Some host' \<Rightarrow> host' | None \<Rightarrow> ''unknown''))"

definition identity_of :: "(string \<Rightarrow> string) \<Rightarrow> settings \<Rightarrow> http_scope \<Rightarrow> string" where
  "identity_of sha256 c sc = (let api_key = first_header sc ''x-api-key''
     in if global_api_key_enabled c \<and> str_truthy api_key then ''key:'' @ take 16 (sha256 (the api_key))
        else ''ip:'' @ client_ip sc)"

definition too_many :: "string option \<Rightarrow> rate_limit_result \<Rightarrow> 'b http_response" where
  "too_many rid result = \<lparr>hr_status = 429,
     hr_headers = [(''Retry-After'', str_of_int (rl_retry_after result)),
       (''X-RateLimit-Limit'', str_of_int (rl_limit result)),
       (''X-RateLimit-Remaining'', str_of_int (rl_remaining result))],
     hr_body = ErrorBody (error_resp rid ''Too many requests'' RATE_LIMITED None)\<rparr>"

definition RateLimitMiddleware ::
  "'r redis \<Rightarrow> (string \<Rightarrow> string) \<Rightarrow> settings \<Rightarrow> ('r, 'w, 'b) asgi \<Rightarrow> ('r, 'w, 'b) asgi" where
  "RateLimitMiddleware R sha256 c app sc rid s =
     (if hs_type sc \<noteq> ''http'' \<or> \<not> rate_limit_enabled c then app sc rid s
      else if is_exempt c sc then app sc rid s
      else (case check R (tiers_from_settings c) (identity_of sha256 c sc) (fst s) of
        (result, r) \<Rightarrow> if \<not> rl_allowed result then (Inr (too_many rid result), r, snd s) else app sc rid (r, snd s)))"

text \<open>The stack of \<^verbatim>\<open>create_app\<close>: what is added last is outermost of the program's layers.\<close>

definition create_app ::
  "'r redis \<Rightarrow> (string \<Rightarrow> string) \<Rightarrow> settings \<Rightarrow> string \<Rightarrow> (('r, 'w, 'b) asgi \<Rightarrow> ('r, 'w, 'b) asgi) \<Rightarrow>
   ('r, 'w, 'b) asgi \<Rightarrow> ('r, 'w, 'b) asgi" where
  "create_app R sha256 c new_id cors app =
     ServerErrorMiddleware (SecurityHeadersMiddleware (RequestContextMiddleware new_id (ApiKeyMiddleware c
       (RateLimitMiddleware R sha256 c (cors (ExceptionMiddleware app))))))"

lemmas middleware_defs = create_app_def ServerErrorMiddleware_def SecurityHeadersMiddleware_def
  RequestContextMiddleware_def ApiKeyMiddleware_def RateLimitMiddleware_def

subsection \<open>What a request meets\<close>

text \<open>The verdict of the two gates: refused by the key, a key that cannot be compared, refused by the limiter, or let through.\<close>

datatype verdict = KeyRefused | KeyRaises | Limited rate_limit_result | Passed

definition gates :: "'r redis \<Rightarrow> (string \<Rightarrow> string) \<Rightarrow> settings \<Rightarrow> http_scope \<Rightarrow> 'r \<Rightarrow> verdict \<times> 'r" where
  "gates R sha256 c sc r =
     (let key = last_header sc ''x-api-key''; gated = global_api_key_enabled c \<and> \<not> is_exempt c sc
      in if gated \<and> \<not> (utf8_ok (map byte key) \<and> (global_api_key c = [] \<or> is_ascii key \<and> is_ascii (global_api_key c)))
         then (KeyRaises, r)
         else if gated \<and> (global_api_key c = [] \<or> key \<noteq> global_api_key c) then (KeyRefused, r)
         else if is_exempt c sc \<or> \<not> rate_limit_enabled c then (Passed, r)
         else (case check R (tiers_from_settings c) (identity_of sha256 c sc) r of
           (result, r') \<Rightarrow> (if rl_allowed result then Passed else Limited result, r')))"

lemma gates_answer:
  assumes "hs_type sc = ''http''" "gates R sha256 c sc r = (v, r')"
  shows "\<exists>e. ApiKeyMiddleware c (RateLimitMiddleware R sha256 c app) sc rid (r, w) = (case v of
      KeyRefused \<Rightarrow> (Inr (reject_key rid), r, w)
    | KeyRaises \<Rightarrow> (Inl e, r, w)
    | Limited result \<Rightarrow> (Inr (too_many rid result), r', w)
    | Passed \<Rightarrow> app sc rid (r', w))"
proof -
  let ?key = "last_header sc ''x-api-key''"
  let ?gated = "global_api_key_enabled c \<and> \<not> is_exempt c sc"
  have limited: "RateLimitMiddleware R sha256 c app sc rid (r, w) =
      (if is_exempt c sc \<or> \<not> rate_limit_enabled c then app sc rid (r, w)
       else (case check R (tiers_from_settings c) (identity_of sha256 c sc) r of
         (result, r') \<Rightarrow> if rl_allowed result then app sc rid (r', w) else (Inr (too_many rid result), r', w)))"
    using assms(1) by (auto simp: RateLimitMiddleware_def split: prod.split)
  let ?readable = "utf8_ok (map byte ?key) \<and> (global_api_key c = [] \<or> is_ascii ?key \<and> is_ascii (global_api_key c))"
  let ?wrong = "global_api_key c = [] \<or> ?key \<noteq> global_api_key c"
  let ?limiter = "if is_exempt c sc \<or> \<not> rate_limit_enabled c then (Passed, r)
     else (case check R (tiers_from_settings c) (identity_of sha256 c sc) r of
       (result, r') \<Rightarrow> (if rl_allowed result then Passed else Limited result, r'))"
  have through: "\<exists>e. RateLimitMiddleware R sha256 c app sc rid (r, w) = (case v of
      KeyRefused \<Rightarrow> (Inr (reject_key rid), r, w) | KeyRaises \<Rightarrow> (Inl e, r, w)
    | Limited result \<Rightarrow> (Inr (too_many rid result), r', w) | Passed \<Rightarrow> app sc rid (r', w))" if "?limiter = (v, r')"
    using that unfolding limited by (auto split: if_splits prod.splits)
  consider (raises) "?gated" "\<not> ?readable" | (wrong) "?gated" "?readable" "?wrong"
    | (right) "?gated" "?readable" "\<not> ?wrong" | (open_gate) "\<not> ?gated" by blast
  then show ?thesis
  proof cases
    case raises
    then have "\<exists>e. ApiKeyMiddleware c (RateLimitMiddleware R sha256 c app) sc rid (r, w) = (Inl e, r, w)"
      using assms(1) by (cases "utf8_ok (map byte ?key)") (simp_all add: ApiKeyMiddleware_def decoded_def is_valid_key_def Let_def)
    moreover have "v = KeyRaises" using assms(2) raises unfolding gates_def Let_def by (simp only: if_True simp_thms prod.inject)
    ultimately show ?thesis by simp
  next
    case wrong
    then have "ApiKeyMiddleware c (RateLimitMiddleware R sha256 c app) sc rid (r, w) = (Inr (reject_key rid), r, w)"
      using assms(1) by (cases "global_api_key c = []") (simp_all add: ApiKeyMiddleware_def decoded_def is_valid_key_def Let_def)
    moreover have "v = KeyRefused" using assms(2) wrong unfolding gates_def Let_def by (simp only: if_True if_False simp_thms prod.inject)
    ultimately show ?thesis by simp
  next
    case right
    then have "ApiKeyMiddleware c (RateLimitMiddleware R sha256 c app) sc rid (r, w) = RateLimitMiddleware R sha256 c app sc rid (r, w)"
      using assms(1) by (simp add: ApiKeyMiddleware_def decoded_def is_valid_key_def Let_def)
    moreover have "?limiter = (v, r')" using assms(2) right unfolding gates_def Let_def by (simp only: if_False simp_thms)
    ultimately show ?thesis using through by simp
  next
    case open_gate
    then have "ApiKeyMiddleware c (RateLimitMiddleware R sha256 c app) sc rid (r, w) = RateLimitMiddleware R sha256 c app sc rid (r, w)"
      by (auto simp: ApiKeyMiddleware_def)
    moreover have "?limiter = (v, r')" using assms(2) open_gate unfolding gates_def Let_def by (simp only: if_False simp_thms)
    ultimately show ?thesis using through by simp
  qed
qed


definition demo_scope :: http_scope where
  "demo_scope = \<lparr>hs_type = ''http'', hs_path = ''/api/v1/users'',
     hs_headers = [(''x-request-id'', ''abc'')], hs_client = Some ''10.0.0.7''\<rparr>"


subsection \<open>Where the stack does not do what it promises\<close>

text \<open>The gate and the limiter read different values of a repeated header.\<close>

lemma repeated_key_header:
  assumes "hs_headers sc = [(''x-api-key'', chosen), (''x-api-key'', global_api_key c)]" "global_api_key_enabled c"
    and "global_api_key c \<noteq> []" "is_ascii (global_api_key c)" "chosen \<noteq> []"
  shows "is_valid_key c (last_header sc ''x-api-key'') = Inr True \<and>
    identity_of sha256 c sc = ''key:'' @ take 16 (sha256 chosen)"
  using assms by (simp add: is_valid_key_def last_header_def identity_of_def first_header_def str_truthy_def Let_def)

text \<open>
  A request that gets through the gates and raises what no handler foresees is answered 500 from outside
  the layers: without request id, in the headers or in the body, and without the security headers.
\<close>

lemma unforeseen_500_is_bare:
  assumes "hs_type sc = ''http''" "\<not> global_api_key_enabled c" "\<not> rate_limit_enabled c"
    and "utf8_ok (map byte (last_header sc ''x-request-id''))" "utf8_ok (map byte (last_header sc ''x-trace-id''))"
    and "app sc (Some (request_id_of new_id sc)) s = (Inl e, s')" "is_unforeseen e"
  shows "create_app R sha256 c new_id id app sc None s =
    (Inr \<lparr>hr_status = 500, hr_headers = [], hr_body = ErrorBody (error_resp None ''Internal server error'' INTERNAL None)\<rparr>, s')"
  using assms by (simp add: middleware_defs decoded_def Let_def ExceptionMiddleware_def rendered_def handler_defs)

text \<open>A key with a byte outside ASCII is not refused with 401: the comparison raises.\<close>

lemma non_ascii_key_is_500:
  assumes "hs_type sc = ''http''" "global_api_key_enabled c" "global_api_key c \<noteq> []" "\<not> is_exempt c sc"
    and "\<not> is_ascii (last_header sc ''x-api-key'')"
  shows "\<exists>resp. create_app R sha256 c new_id cors app sc rid s = (Inr resp, s) \<and> hr_status resp = 500"
  using assms
  by (auto simp: middleware_defs decoded_def is_valid_key_def Let_def rendered_def handler_defs split: sum.splits)

text \<open>
  A browser asks for leave before it sends a request of its page to another origin, and it asks without the
  key: behind the gate the question is answered 401, whatever the CORS layer would say.
\<close>

lemma preflight_refused_by_gate:
  assumes "hs_type sc = ''http''" "global_api_key_enabled c" "\<not> is_exempt c sc" "is_ascii (global_api_key c)"
    and "last_header sc ''x-api-key'' = []"
    and "utf8_ok (map byte (last_header sc ''x-request-id''))" "utf8_ok (map byte (last_header sc ''x-trace-id''))"
  shows "\<exists>resp. create_app R sha256 c new_id cors app sc rid s = (Inr resp, s) \<and> hr_status resp = 401"
  using assms
  by (auto simp: middleware_defs decoded_def is_valid_key_def Let_def reject_key_def add_headers_def is_ascii_def)

end
