(* ===== verification/Scheduler.thy ===== *)
theory Scheduler
  imports Outbox Redis
begin

section \<open>The scheduler and its jobs\<close>

text \<open>
  \<^verbatim>\<open>app/scheduler/scheduler.py\<close> (jobs on an interval or a cron expression, the Redis lock of a
  single-instance job) and \<^verbatim>\<open>app/scheduler/jobs.py\<close>. \<^verbatim>\<open>croniter\<close> is a parameter; time is in seconds. The
  loop of a job is run over the ways its sleeps end. At the end the lock is looked at between workers.
\<close>

record 's job =
  jb_name :: string
  jb_func :: "'s \<Rightarrow> (exn + unit) \<times> 's"
  jb_interval :: "rat option"
  jb_cron :: "string option"
  jb_run_on_start :: bool
  jb_single_instance :: bool
  jb_lock_ttl :: nat

definition scheduler_add ::
  "string \<Rightarrow> ('s \<Rightarrow> (exn + unit) \<times> 's) \<Rightarrow> rat \<Rightarrow> bool \<Rightarrow> bool \<Rightarrow> nat \<Rightarrow> 's job list \<Rightarrow> 's job list" where
  "scheduler_add name func interval run_on_start single_instance lock_ttl jobs =
     jobs @ [\<lparr>jb_name = name, jb_func = func, jb_interval = Some interval, jb_cron = None,
       jb_run_on_start = run_on_start, jb_single_instance = single_instance, jb_lock_ttl = lock_ttl\<rparr>]"

text \<open>\<open>is_valid\<close> is \<^verbatim>\<open>croniter.is_valid\<close>.\<close>

definition scheduler_add_cron ::
  "(string \<Rightarrow> bool) \<Rightarrow> string \<Rightarrow> ('s \<Rightarrow> (exn + unit) \<times> 's) \<Rightarrow> string \<Rightarrow> bool \<Rightarrow> bool \<Rightarrow> nat \<Rightarrow> 's job list \<Rightarrow> exn + 's job list" where
  "scheduler_add_cron is_valid name func cron run_on_start single_instance lock_ttl jobs =
     (if \<not> is_valid cron then Inl (ValueError (''invalid cron expression: '' @ cron))
      else Inr (jobs @ [\<lparr>jb_name = name, jb_func = func, jb_interval = None, jb_cron = Some cron,
        jb_run_on_start = run_on_start, jb_single_instance = single_instance, jb_lock_ttl = lock_ttl\<rparr>]))"

text \<open>\<open>get_next cron now\<close> is the next time of the expression after \<open>now\<close>.\<close>

definition next_delay :: "(string \<Rightarrow> rat \<Rightarrow> rat) \<Rightarrow> rat \<Rightarrow> 's job \<Rightarrow> rat" where
  "next_delay get_next now job = (case jb_cron job of
     Some cron \<Rightarrow> max 0 (get_next cron now - now)
   | None \<Rightarrow> (case jb_interval job of Some i \<Rightarrow> i | None \<Rightarrow> 0))"

definition lock_key :: "string \<Rightarrow> string" where
  "lock_key name = ''scheduler:lock:'' @ name"

definition acquire_lock :: "'r redis \<Rightarrow> string \<Rightarrow> nat \<Rightarrow> 'r \<Rightarrow> bool \<times> 'r" where
  "acquire_lock R name ttl r = r_set_nx R (lock_key name) ''1'' ttl r"

definition release_lock :: "'r redis \<Rightarrow> string \<Rightarrow> 'r \<Rightarrow> 'r" where
  "release_lock R name r = snd (r_del R (lock_key name) r)"

text \<open>The state a job works on has Redis as its first part. A failing job is logged.\<close>

definition run_job :: "'r redis \<Rightarrow> ('r \<times> 'w) job \<Rightarrow> 'r \<times> 'w \<Rightarrow> 'r \<times> 'w" where
  "run_job R job s =
     (if jb_single_instance job
      then (case acquire_lock R (jb_name job) (jb_lock_ttl job) (fst s) of
          (False, r) \<Rightarrow> (r, snd s)
        | (True, r) \<Rightarrow> (case snd (jb_func job (r, snd s)) of (r', w) \<Rightarrow> (release_lock R (jb_name job) r', w)))
      else snd (jb_func job s))"

text \<open>One sleep after the other: it ends because of the stop signal, or it times out and the job runs.\<close>

datatype wake = Stopped | TimedOut

fun job_loop_from :: "'r redis \<Rightarrow> ('r \<times> 'w) job \<Rightarrow> wake list \<Rightarrow> 'r \<times> 'w \<Rightarrow> 'r \<times> 'w" where
  "job_loop_from R job [] s = s"
| "job_loop_from R job (Stopped # ws) s = s"
| "job_loop_from R job (TimedOut # ws) s = job_loop_from R job ws (run_job R job s)"

definition job_loop :: "'r redis \<Rightarrow> ('r \<times> 'w) job \<Rightarrow> wake list \<Rightarrow> 'r \<times> 'w \<Rightarrow> 'r \<times> 'w" where
  "job_loop R job wakes s = job_loop_from R job wakes (if jb_run_on_start job then run_job R job s else s)"

subsection \<open>The jobs\<close>

text \<open>\<open>now_text\<close> is the time in ISO format; the stubs only log.\<close>

definition heartbeat :: "'r redis \<Rightarrow> string \<Rightarrow> 'r \<times> 'w \<Rightarrow> (exn + unit) \<times> 'r \<times> 'w" where
  "heartbeat R now_text s = (Inr (), r_set R ''worker:heartbeat'' now_text 120 (fst s), snd s)"

definition poll_external_service :: "'s \<Rightarrow> (exn + unit) \<times> 's" where
  "poll_external_service s = (Inr (), s)"

definition daily_report :: "'s \<Rightarrow> (exn + unit) \<times> 's" where
  "daily_report s = (Inr (), s)"

definition relay_outbox ::
  "engine \<Rightarrow> engine \<Rightarrow> (message \<Rightarrow> 'b \<Rightarrow> (exn + unit) \<times> 'b) \<Rightarrow> settings \<Rightarrow> timestamp \<Rightarrow> 'r \<times> db \<times> 'b \<Rightarrow> (exn + unit) \<times> 'r \<times> db \<times> 'b" where
  "relay_outbox E E' send c now s = (case run_once E E' send (outbox_batch_size c) now (snd s) of
     (r, x) \<Rightarrow> (map_sum id (\<lambda>_. ()) r, fst s, x))"

definition cleanup_outbox_job :: "engine \<Rightarrow> settings \<Rightarrow> timestamp \<Rightarrow> 'r \<times> db \<times> 'b \<Rightarrow> (exn + unit) \<times> 'r \<times> db \<times> 'b" where
  "cleanup_outbox_job E c now s = (case cleanup_outbox E now (outbox_retention_days c) (uow_init (fst (snd s))) of
     (r, u) \<Rightarrow> (map_sum id (\<lambda>_. ()) r, fst s, committed u, snd (snd s)))"

definition register_jobs ::
  "settings \<Rightarrow> (string \<Rightarrow> bool) \<Rightarrow> ('s \<Rightarrow> (exn + unit) \<times> 's) \<Rightarrow> ('s \<Rightarrow> (exn + unit) \<times> 's) \<Rightarrow> ('s \<Rightarrow> (exn + unit) \<times> 's) \<Rightarrow>
   's job list \<Rightarrow> exn + 's job list" where
  "register_jobs c is_valid hb relay clean jobs =
     (let jobs = scheduler_add ''heartbeat'' hb 30 True False 300 jobs;
          jobs = scheduler_add ''poll_external'' poll_external_service 3600 False True 300 jobs
      in case scheduler_add_cron is_valid ''daily_report'' daily_report ''0 3 * * *'' False True 300 jobs of
           Inl e \<Rightarrow> Inl e
         | Inr jobs \<Rightarrow> if outbox_enabled c \<and> broker_enabled c
             then scheduler_add_cron is_valid ''outbox_cleanup'' clean ''0 4 * * *'' False True 300
               (scheduler_add ''outbox_relay'' relay (outbox_relay_interval c) True True 300 jobs)
             else Inr jobs)"

text \<open>Without a broker the relay is not registered; with it, it is a single-instance job.\<close>

lemma relay_registered:
  assumes "register_jobs c is_valid hb relay clean [] = Inr jobs"
  shows "(\<exists>j \<in> set jobs. jb_name j = ''outbox_relay'' \<and> jb_single_instance j) \<longleftrightarrow> outbox_enabled c \<and> broker_enabled c"
  using assms by (auto simp: register_jobs_def scheduler_add_def scheduler_add_cron_def Let_def split: if_splits)

lemma next_delay_nonneg: "(\<And>i. jb_interval job = Some i \<Longrightarrow> 0 \<le> i) \<Longrightarrow> 0 \<le> next_delay get_next now job"
  by (auto simp: next_delay_def split: option.split)

subsection \<open>The lock between workers\<close>

text \<open>
  Workers take and release the lock of one job; everything else that happens in Redis leaves the key
  alone, or lets it expire (\<open>expires\<close>: a job may outlive the lock's time to live).
\<close>

inductive lock_step :: "'r redis \<Rightarrow> string \<Rightarrow> nat \<Rightarrow> bool \<Rightarrow> 'r \<times> (nat \<Rightarrow> bool) \<Rightarrow> 'r \<times> (nat \<Rightarrow> bool) \<Rightarrow> bool"
  for R name ttl expires where
  taken: "\<not> running k \<Longrightarrow> acquire_lock R name ttl r = (True, r') \<Longrightarrow>
    lock_step R name ttl expires (r, running) (r', running(k := True))"
| skipped: "acquire_lock R name ttl r = (False, r') \<Longrightarrow> lock_step R name ttl expires (r, running) (r', running)"
| finished: "running k \<Longrightarrow> lock_step R name ttl expires (r, running) (release_lock R name r, running(k := False))"
| elsewhere: "kv R r' (lock_key name) = kv R r (lock_key name) \<Longrightarrow> lock_step R name ttl expires (r, running) (r', running)"
| expired: "expires \<Longrightarrow> kv R r' (lock_key name) = None \<Longrightarrow> lock_step R name ttl expires (r, running) (r', running)"

inductive lock_reach :: "'r redis \<Rightarrow> string \<Rightarrow> nat \<Rightarrow> bool \<Rightarrow> 'r \<times> (nat \<Rightarrow> bool) \<Rightarrow> bool"
  for R name ttl expires where
  begun: "kv R r (lock_key name) = None \<Longrightarrow> lock_reach R name ttl expires (r, \<lambda>_. False)"
| stepped: "lock_reach R name ttl expires s \<Longrightarrow> lock_step R name ttl expires s s' \<Longrightarrow> lock_reach R name ttl expires s'"

definition lock_inv :: "'r redis \<Rightarrow> string \<Rightarrow> 'r \<times> (nat \<Rightarrow> bool) \<Rightarrow> bool" where
  "lock_inv R name s \<longleftrightarrow> (\<forall>i j. snd s i \<longrightarrow> snd s j \<longrightarrow> i = j) \<and>
     ((\<exists>i. snd s i) \<longrightarrow> kv R (fst s) (lock_key name) \<noteq> None)"

lemma lock_inv_step:
  assumes "redis_service R" "0 < ttl" "lock_step R name ttl False s s'" "lock_inv R name s"
  shows "lock_inv R name s'"
  using assms(3,4)
proof (induction rule: lock_step.induct)
  case (taken running k r r')
  have "kv R r (lock_key name) = None"
    using redis_service.set_nx_present [OF assms(1,2)] taken(2)
    by (metis acquire_lock_def fst_conv not_None_eq)
  moreover from this have "kv R r' (lock_key name) \<noteq> None"
    using redis_service.set_nx_absent [OF assms(1,2), of r "lock_key name" "''1''"] taken(2) by (simp add: acquire_lock_def)
  ultimately show ?case using taken(3) by (auto simp: lock_inv_def)
next
  case (skipped r r' running)
  have "kv R r (lock_key name) \<noteq> None"
  proof
    assume "kv R r (lock_key name) = None"
    from redis_service.set_nx_absent [OF assms(1,2) this, of "''1''"] skipped(1) show False
      by (simp add: acquire_lock_def)
  qed
  then obtain e where e: "kv R r (lock_key name) = Some e" by (cases "kv R r (lock_key name)") auto
  have "kv R r' = kv R r"
    using redis_service.set_nx_present [OF assms(1,2) e, of "''1''"] skipped(1) by (simp add: acquire_lock_def)
  with skipped(2) show ?case by (simp add: lock_inv_def)
next
  case (finished running k r)
  then show ?case by (auto simp: lock_inv_def)
qed (auto simp: lock_inv_def)

text \<open>
  C28: The lock keeps the runs of a single-instance job apart: as long as no run outlives the lock's time
  to live, no two workers run the job at the same time, however they interleave.
\<close>

theorem single_instance_exclusive:
  assumes "redis_service R" "0 < ttl" "lock_reach R name ttl False (r, running)" "running i" "running j"
  shows "i = j"
proof -
  have "lock_inv R name s" if "lock_reach R name ttl False s" for s
    using that
  proof (induction rule: lock_reach.induct)
    case (stepped s s')
    then show ?case using lock_inv_step [OF assms(1,2)] by blast
  qed (simp add: lock_inv_def)
  then show ?thesis using assms(3-5) by (auto simp: lock_inv_def)
qed

lemma demo_lock_taken: "lock_reach mem_redis ''j'' 300 e (snd (acquire_lock mem_redis ''j'' 300 Map.empty), (\<lambda>_. False)(k := True))"
proof (rule lock_reach.stepped [OF lock_reach.begun])
  show "kv mem_redis Map.empty (lock_key ''j'') = None" by (simp add: mem_defs)
  show "lock_step mem_redis ''j'' 300 e (Map.empty, \<lambda>_. False)
      (snd (acquire_lock mem_redis ''j'' 300 Map.empty), (\<lambda>_. False)(k := True))"
    by (rule lock_step.taken) (simp_all add: acquire_lock_def mem_defs)
qed

theorem single_instance_exclusive_witness:
  "\<exists>r running. lock_reach mem_redis ''j'' 300 False (r, running) \<and> running 1 \<and> (\<forall>j. running j \<longrightarrow> j = 1)"
proof (intro exI conjI)
  show reach: "lock_reach mem_redis ''j'' 300 False
      (snd (acquire_lock mem_redis ''j'' 300 Map.empty), (\<lambda>_. False)(1 := True))"
    by (rule demo_lock_taken)
  show "((\<lambda>_. False)(1 := True)) (1 :: nat)" by simp
  show "\<forall>j. ((\<lambda>_. False)(1 := True)) j \<longrightarrow> j = (1 :: nat)"
  proof (intro allI impI)
    fix j :: nat
    assume "((\<lambda>_. False)(1 := True)) j"
    moreover have "0 < (300 :: nat)" "((\<lambda>_. False)(1 := True)) (1 :: nat)" by simp_all
    ultimately show "j = 1" by (intro single_instance_exclusive [OF mem_redis_service _ reach])
  qed
qed

text \<open>
  A run that outlives the time to live frees the lock of its successor: then a third worker runs beside
  the second one, whose own lock has not expired.
\<close>

lemma unconditional_release_race:
  "\<exists>r running. lock_reach mem_redis ''j'' 300 True (r, running) \<and> running 2 \<and> running 3"
proof -
  let ?A = "\<lambda>r. snd (acquire_lock mem_redis ''j'' 300 r)"
  have acq: "acquire_lock mem_redis ''j'' 300 r = (True, ?A r)" if "r (lock_key ''j'') = None" for r :: mem
    using that by (simp add: acquire_lock_def mem_defs)
  have rel: "release_lock mem_redis ''j'' r (lock_key ''j'') = None" for r :: mem
    by (simp add: release_lock_def mem_defs)
  let ?r1 = "?A Map.empty" and ?f1 = "(\<lambda>_. False)(1 := True)"
  let ?r2 = "Map.empty :: mem"
  let ?r3 = "?A ?r2" and ?f3 = "?f1(2 := True)"
  let ?r4 = "release_lock mem_redis ''j'' ?r3" and ?f4 = "?f3(1 := False)"
  have 1: "lock_reach mem_redis ''j'' 300 True (?r1, ?f1)" by (rule demo_lock_taken)
  have 2: "lock_reach mem_redis ''j'' 300 True (?r2, ?f1)"
    by (rule lock_reach.stepped [OF 1 lock_step.expired]) (simp_all add: mem_defs)
  have 3: "lock_reach mem_redis ''j'' 300 True (?r3, ?f3)"
    by (rule lock_reach.stepped [OF 2 lock_step.taken [OF _ acq]]) simp_all
  have 4: "lock_reach mem_redis ''j'' 300 True (?r4, ?f4)"
    by (rule lock_reach.stepped [OF 3 lock_step.finished]) simp
  have 5: "lock_reach mem_redis ''j'' 300 True (?A ?r4, ?f4(3 := True))"
  proof (rule lock_reach.stepped [OF 4 lock_step.taken])
    show "acquire_lock mem_redis ''j'' 300 ?r4 = (True, ?A ?r4)" by (rule acq, rule rel)
  qed simp
  show ?thesis
  proof (intro exI conjI)
    show "lock_reach mem_redis ''j'' 300 True (?A ?r4, ?f4(3 := True))" by (rule 5)
  qed simp_all
qed

end
