(* ===== verification/Api.thy ===== *)
theory Api
  imports App_Safety Auth_Safety Consumers
begin

section \<open>The routes\<close>

text \<open>
  \<^verbatim>\<open>app/api\<close>: the routes of users, accounts, categories, authentication and notifications, with the
  dependencies they declare (\<^verbatim>\<open>app/api/deps.py\<close>), the constraints of their schemas
  (\<^verbatim>\<open>app/schemas\<close>) and the table of \<^verbatim>\<open>build_api_router\<close>. A route is an operation on the services'
  state whose result is the envelope or the exception that the global handlers render. FastAPI runs
  the dependencies first, then reports all invalid fields at once, and only then runs the route.
  The record \<open>api\<close> holds what \<^verbatim>\<open>Depends\<close> provides; \<open>ap_email\<close> is the check behind \<^verbatim>\<open>EmailStr\<close> (the
  normalised address, or the text of the error).
\<close>

record ('s, 'v, 'j) api =
  ap_auth :: auth_env
  ap_redis :: "'s redis"
  ap_cache :: "('s, 'v) cache"
  ap_dump :: "user_read_detail \<Rightarrow> 'v"
  ap_undump :: "'v \<Rightarrow> exn + user_read_detail"
  ap_codec :: "'j codec"
  ap_email :: "string \<Rightarrow> string + string"
  ap_request_id :: "string option"
  ap_clock :: int
  ap_tokens :: auth_request

abbreviation ap_engine :: "('s, 'v, 'j) api \<Rightarrow> engine" where
  "ap_engine P \<equiv> ae_engine (ap_auth P)"

abbreviation ap_settings :: "('s, 'v, 'j) api \<Rightarrow> settings" where
  "ap_settings P \<equiv> ae_settings (ap_auth P)"

subsection \<open>Dependencies and envelopes\<close>

definition checked :: "field_error list \<Rightarrow> ('s, 'a) svc_op \<Rightarrow> ('s, 'a) svc_op" where
  "checked errs op v = (if errs = [] then op v else (Inl (RequestValidationError errs), v))"

definition with_user :: "('s, 'v, 'j) api \<Rightarrow> (current_user \<Rightarrow> ('s, 'a) svc_op) \<Rightarrow> ('s, 'a) svc_op" where
  "with_user P f v = (case get_current_user (ap_auth P) (ap_redis P) (ap_clock P) (ap_tokens P) (sv_redis v) of
     Inl e \<Rightarrow> (Inl e, v) | Inr user \<Rightarrow> f user v)"

definition with_role :: "('s, 'v, 'j) api \<Rightarrow> role list \<Rightarrow> (current_user \<Rightarrow> ('s, 'a) svc_op) \<Rightarrow> ('s, 'a) svc_op" where
  "with_role P roles f = with_user P (\<lambda>user v. case require_roles (ap_settings P) roles user of
     Inl e \<Rightarrow> (Inl e, v) | Inr user \<Rightarrow> f user v)"

definition wrap :: "('a \<Rightarrow> 'b) \<Rightarrow> ('s, 'a) svc_op \<Rightarrow> ('s, 'b) svc_op" where
  "wrap f op v = (case op v of (Inl e, v) \<Rightarrow> (Inl e, v) | (Inr x, v) \<Rightarrow> (Inr (f x), v))"

definition success_op :: "('s, 'v, 'j) api \<Rightarrow> ('s, 'a) svc_op \<Rightarrow> ('s, 'a server_response) svc_op" where
  "success_op P = wrap (\<lambda>x. success (ap_request_id P) x None)"

text \<open>The headers \<^verbatim>\<open>IdempotencyKey\<close> and \<^verbatim>\<open>RequiredIdempotencyKey\<close>.\<close>

definition key_loc :: "json list" where
  "key_loc = [JStr ''header'', JStr ''Idempotency-Key'']"

definition key_errors :: "string \<Rightarrow> field_error list" where
  "key_errors k = min_length 8 key_loc k @ max_length 255 key_loc k"

definition optional_key :: "string option \<Rightarrow> field_error list" where
  "optional_key k = if_given key_errors k"

definition required_key :: "string option \<Rightarrow> field_error list" where
  "required_key k = (case k of None \<Rightarrow> [missing key_loc] | Some s \<Rightarrow> key_errors s)"

text \<open>
  \<^verbatim>\<open>idempotent(key, model, _produce)\<close> around a service call; \<open>model\<close> is the pair of
  \<^verbatim>\<open>model_dump\<close> and \<^verbatim>\<open>model_validate\<close>.
\<close>

definition idempotent_op ::
  "('s, 'v, 'j) api \<Rightarrow> ('a \<Rightarrow> 'j) \<times> ('j \<Rightarrow> exn + 'a) \<Rightarrow> string option \<Rightarrow> ('s, 'a) svc_op \<Rightarrow> ('s, 'a) svc_op" where
  "idempotent_op P model key produce v =
     (case idempotent (ap_redis P) (ap_codec P) DEFAULT_TTL (fst model) (snd model) key
         (\<lambda>s w. case produce (v\<lparr>sv_uow := w, sv_redis := s\<rparr>) of (r, v) \<Rightarrow> (r, sv_redis v, sv_uow v))
         (sv_redis v) (sv_uow v) of
       (r, s, w) \<Rightarrow> (r, v\<lparr>sv_uow := w, sv_redis := s\<rparr>))"

text \<open>
  What the client gets: the declared status with the envelope, or the rendered exception. What no handler
  foresees is rendered outside the context of the request, without its id (\<open>ServerErrorMiddleware\<close>).
\<close>

datatype 'b answer = Answer int 'b | Refused http_error

definition respond :: "('s, 'v, 'j) api \<Rightarrow> int \<Rightarrow> ('s, 'b) svc_op \<Rightarrow> 's svc \<Rightarrow> 'b answer \<times> 's svc" where
  "respond P status route v = (case route v of
     (Inl e, v) \<Rightarrow> (Refused (handle_exception (if is_unforeseen e then None else ap_request_id P) e), v)
   | (Inr x, v) \<Rightarrow> (Answer status x, v))"

subsection \<open>Users (app/api/v1/users.py)\<close>

definition email_errors :: "('s, 'v, 'j) api \<Rightarrow> string \<Rightarrow> field_error list" where
  "email_errors P email = (case ap_email P email of
     Inl msg \<Rightarrow> [(body_field ''email'', msg, ''value_error'')] | Inr _ \<Rightarrow> [])"

definition email_of :: "('s, 'v, 'j) api \<Rightarrow> string \<Rightarrow> string" where
  "email_of P email = (case ap_email P email of Inl _ \<Rightarrow> email | Inr normal \<Rightarrow> normal)"

definition name_errors :: "nat \<Rightarrow> string \<Rightarrow> string \<Rightarrow> field_error list" where
  "name_errors n field s = min_length 1 (body_field field) s @ max_length n (body_field field) s"

definition post_user ::
  "('s, 'v, 'j) api \<Rightarrow> (user_read server_response \<Rightarrow> 'j) \<times> ('j \<Rightarrow> exn + user_read server_response) \<Rightarrow> string option \<Rightarrow>
   uuid \<Rightarrow> uuid \<Rightarrow> timestamp \<Rightarrow> user_create \<Rightarrow> ('s, user_read server_response) svc_op" where
  "post_user P model key new_id event_id now data =
     checked (optional_key key @ email_errors P (uc_email data) @ name_errors 255 ''full_name'' (uc_full_name data))
       (idempotent_op P model key (success_op P (create_user (ap_engine P) (ap_cache P) (ap_dump P) new_id event_id now
          (data\<lparr>uc_email := email_of P (uc_email data)\<rparr>))))"

definition get_user_route :: "('s, 'v, 'j) api \<Rightarrow> uuid \<Rightarrow> ('s, user_read_detail server_response) svc_op" where
  "get_user_route P uid = with_user P (\<lambda>_. success_op P
     (get_user (ap_engine P) (ap_cache P) (ap_dump P) (ap_undump P) uid))"

definition get_users ::
  "('s, 'v, 'j) api \<Rightarrow> user_row dbms \<Rightarrow> parsers \<Rightarrow> (val \<Rightarrow> string) \<Rightarrow> list_model \<Rightarrow> (string \<times> string) list \<Rightarrow> int \<Rightarrow> int \<Rightarrow>
   string option \<Rightarrow> string option \<Rightarrow> ('s, user_read_detail list server_response) svc_op" where
  "get_users P D Ps str M query page per_page sortp q v = (case list_params query page per_page sortp q of
     Inl e \<Rightarrow> (Inl e, v)
   | Inr params \<Rightarrow> wrap (\<lambda>(items, rows). success (ap_request_id P) items (Some (list_meta params rows)))
       (list_users (ap_engine P) D Ps str M params) v)"

definition patch_user :: "('s, 'v, 'j) api \<Rightarrow> timestamp \<Rightarrow> uuid \<Rightarrow> user_update \<Rightarrow> ('s, user_read server_response) svc_op" where
  "patch_user P now uid data = checked (if_given (name_errors 255 ''full_name'') (uu_full_name data))
     (success_op P (update_user (ap_engine P) (ap_cache P) now uid data))"

definition profile_errors :: "profile_upsert \<Rightarrow> field_error list" where
  "profile_errors data =
     (case pu_bio data of Some (Some s) \<Rightarrow> max_length 500 (body_field ''bio'') s | _ \<Rightarrow> []) @
     (case pu_avatar_url data of Some (Some s) \<Rightarrow> max_length 500 (body_field ''avatar_url'') s | _ \<Rightarrow> [])"

definition put_user_profile ::
  "('s, 'v, 'j) api \<Rightarrow> uuid \<Rightarrow> uuid \<Rightarrow> profile_upsert \<Rightarrow> ('s, profile_read server_response) svc_op" where
  "put_user_profile P new_id uid data = checked (profile_errors data)
     (success_op P (upsert_profile (ap_engine P) (ap_cache P) new_id uid data))"

definition delete_user_route :: "('s, 'v, 'j) api \<Rightarrow> uuid \<Rightarrow> ('s, empty_response) svc_op" where
  "delete_user_route P uid = with_role P [ADMIN] (\<lambda>_. wrap (\<lambda>_. empty_resp (ap_request_id P))
     (delete_user (ap_engine P) (ap_cache P) (Some (revoke_all (ap_redis P))) uid))"

definition stream_users :: "('s, 'v, 'j) api \<Rightarrow> (user_read \<Rightarrow> string) \<Rightarrow> ('s, string list) svc_op" where
  "stream_users P to_json = stream_all (ap_engine P) to_json"

subsection \<open>Accounts and categories (app/api/v1/accounts.py, categories.py)\<close>

type_synonym ('a, 'j) json_model = "('a server_response \<Rightarrow> 'j) \<times> ('j \<Rightarrow> exn + 'a server_response)"

record create_account_request =
  ca_user_id :: uuid
  ca_name :: string

definition post_account ::
  "('s, 'v, 'j) api \<Rightarrow> (account_read, 'j) json_model \<Rightarrow> string option \<Rightarrow> uuid \<Rightarrow> create_account_request \<Rightarrow>
   ('s, account_read server_response) svc_op" where
  "post_account P model key new_id data =
     checked (required_key key @ name_errors 255 ''name'' (ca_name data))
       (idempotent_op P model key (success_op P
          (create_account (ap_engine P) (ap_cache P) new_id (ca_user_id data) (ca_name data))))"

definition get_overview_route :: "('s, 'v, 'j) api \<Rightarrow> uuid \<Rightarrow> ('s, user_overview server_response) svc_op" where
  "get_overview_route P user_id = success_op P (get_user_overview (ap_engine P) user_id)"

definition get_account_route :: "('s, 'v, 'j) api \<Rightarrow> uuid \<Rightarrow> ('s, account_with_transactions server_response) svc_op" where
  "get_account_route P account_id = success_op P (get_account (ap_engine P) account_id)"

definition post_deposit ::
  "('s, 'v, 'j) api \<Rightarrow> (account_read, 'j) json_model \<Rightarrow> string option \<Rightarrow> uuid \<Rightarrow> timestamp \<Rightarrow> uuid \<Rightarrow> amount_request \<Rightarrow>
   ('s, account_read server_response) svc_op" where
  "post_deposit P model key new_id now account_id data =
     checked (required_key key @ amount_errors (ap_settings P) data)
       (idempotent_op P model key (success_op P (deposit (ap_engine P) (ap_cache P) new_id now account_id
          (am_amount data) (am_acquirer data) (am_category_ids data))))"

definition post_withdraw ::
  "('s, 'v, 'j) api \<Rightarrow> (account_read, 'j) json_model \<Rightarrow> string option \<Rightarrow> uuid \<Rightarrow> timestamp \<Rightarrow> uuid \<Rightarrow> amount_request \<Rightarrow>
   ('s, account_read server_response) svc_op" where
  "post_withdraw P model key new_id now account_id data =
     checked (required_key key @ amount_errors (ap_settings P) data)
       (idempotent_op P model key (success_op P (withdraw (ap_engine P) (ap_cache P) new_id now account_id
          (am_amount data) (am_acquirer data))))"

definition post_category :: "('s, 'v, 'j) api \<Rightarrow> uuid \<Rightarrow> string \<Rightarrow> ('s, category_read server_response) svc_op" where
  "post_category P new_id name = checked (name_errors 100 ''name'' name)
     (success_op P (create_category (ap_engine P) new_id name))"

definition get_categories ::
  "('s, 'v, 'j) api \<Rightarrow> (category_row list \<Rightarrow> category_row list) \<Rightarrow> ('s, category_read list server_response) svc_op" where
  "get_categories P by_name = success_op P (list_categories (ap_engine P) by_name)"

subsection \<open>Authentication (app/api/v1/auth.py)\<close>

definition session_ip :: "string option \<Rightarrow> string option \<Rightarrow> string option" where
  "session_ip xff client = (if str_truthy xff then Some (strip (hd (split_on CHR '','' (the xff)))) else client)"

definition password_errors :: "nat \<Rightarrow> string \<Rightarrow> string \<Rightarrow> field_error list" where
  "password_errors n field s = min_length n (body_field field) s @ max_length 128 (body_field field) s"

definition post_register ::
  "('s, 'v, 'j) api \<Rightarrow> string \<Rightarrow> uuid \<Rightarrow> timestamp \<Rightarrow> register_request \<Rightarrow> ('s, user_read server_response) svc_op" where
  "post_register P salt new_id now data =
     checked (email_errors P (rg_email data) @ password_errors 8 ''password'' (rg_password data) @
         name_errors 255 ''full_name'' (rg_full_name data))
       (success_op P (register (ap_auth P) salt new_id now (data\<lparr>rg_email := email_of P (rg_email data)\<rparr>)))"

text \<open>The token routes also write the cookies of the answer.\<close>

definition with_cookies :: "('s, 'v, 'j) api \<Rightarrow> ('s, token_pair) svc_op \<Rightarrow> ('s, token_pair server_response \<times> cookie list) svc_op" where
  "with_cookies P = wrap (\<lambda>pair. (success (ap_request_id P) pair None,
     if cookie_auth (ap_settings P) then set_auth_cookies (ap_settings P) pair [] else []))"

definition post_login ::
  "('s, 'v, 'j) api \<Rightarrow> string \<Rightarrow> string \<Rightarrow> string \<Rightarrow> login_request \<Rightarrow> string option \<Rightarrow> string option \<Rightarrow> string option \<Rightarrow>
   ('s, token_pair server_response \<times> cookie list) svc_op" where
  "post_login P sid jti iso_now data xff client user_agent =
     checked (email_errors P (lg_email data) @ password_errors 1 ''password'' (lg_password data))
       (with_cookies P (login (ap_auth P) (ap_redis P) sid jti (ap_clock P) iso_now
          (data\<lparr>lg_email := email_of P (lg_email data)\<rparr>) (session_ip xff client) user_agent))"

definition post_refresh ::
  "('s, 'v, 'j) api \<Rightarrow> string \<Rightarrow> string \<Rightarrow> string option \<Rightarrow> string option \<Rightarrow>
   ('s, token_pair server_response \<times> cookie list) svc_op" where
  "post_refresh P new_jti iso_now cookie body_token =
     (let token = (if cookie_auth (ap_settings P) then cookie else body_token)
      in if \<not> str_truthy token then (\<lambda>v. (Inl (UnauthorizedError ''Missing refresh token''), v))
         else with_cookies P (refresh (ap_auth P) (ap_redis P) new_jti (ap_clock P) iso_now (the token)))"

definition revoked_answer :: "('s, 'v, 'j) api \<Rightarrow> int \<Rightarrow> json server_response" where
  "revoked_answer P n = success (ap_request_id P) (JObj [(''revoked'', JNum (of_int n))]) None"

definition cleared :: "('s, 'v, 'j) api \<Rightarrow> cookie list" where
  "cleared P = (if cookie_auth (ap_settings P) then clear_auth_cookies (ap_settings P) [] else [])"

definition post_logout :: "('s, 'v, 'j) api \<Rightarrow> ('s, json server_response \<times> cookie list) svc_op" where
  "post_logout P = with_user P (\<lambda>current v. case logout_current (ap_redis P) (cu_sid current) v of
     (n, v) \<Rightarrow> (Inr (revoked_answer P n, cleared P), v))"

definition post_logout_all :: "('s, 'v, 'j) api \<Rightarrow> ('s, json server_response \<times> cookie list) svc_op" where
  "post_logout_all P = with_user P (\<lambda>current v. case logout_all (ap_redis P) (cu_id current) v of
     (n, v) \<Rightarrow> (Inr (revoked_answer P (int n), cleared P), v))"

definition post_logout_others :: "('s, 'v, 'j) api \<Rightarrow> ('s, json server_response) svc_op" where
  "post_logout_others P = with_user P (\<lambda>current v. case logout_others (ap_redis P) (cu_id current) (cu_sid current) v of
     (n, v) \<Rightarrow> (Inr (revoked_answer P (int n)), v))"

definition get_sessions_route :: "('s, 'v, 'j) api \<Rightarrow> ('s, session_info list server_response) svc_op" where
  "get_sessions_route P = with_user P (\<lambda>current v.
     (Inr (success (ap_request_id P) (list_user_sessions (ap_redis P) (cu_id current) (cu_sid current) v) None), v))"

definition get_me :: "('s, 'v, 'j) api \<Rightarrow> ('s, json server_response) svc_op" where
  "get_me P = with_user P (\<lambda>current v. (Inr (success (ap_request_id P)
     (JObj [(''id'', JStr (cu_id current)), (''role'', JStr (role_value (cu_role current))),
        (''sid'', case cu_sid current of None \<Rightarrow> JNull | Some s \<Rightarrow> JStr s)]) None), v))"

definition post_change_password ::
  "('s, 'v, 'j) api \<Rightarrow> string \<Rightarrow> timestamp \<Rightarrow> string \<Rightarrow> string \<Rightarrow> ('s, json server_response) svc_op" where
  "post_change_password P salt now current_password new_password = with_user P (\<lambda>current.
     checked (password_errors 1 ''current_password'' current_password @ password_errors 8 ''new_password'' new_password)
       (wrap (\<lambda>_. success (ap_request_id P) (JObj [(''changed'', JBool True)]) None)
         (change_password (ap_auth P) salt now (cu_id current) current_password new_password)))"

subsection \<open>Notifications (app/api/v1/notifications.py)\<close>

text \<open>The body is the event itself; \<open>send\<close> is the broker's \<^verbatim>\<open>publish\<close>.\<close>

definition phone_errors :: "string \<Rightarrow> field_error list" where
  "phone_errors s = (if e164 s then [] else [(body_field ''recipient_phone'',
     ''String should match pattern '' @ [CHR 0x27] @ ''^'' @ [CHR 0x5C] @ ''+[1-9]'' @ [CHR 0x5C] @ ''d{1,14}$'' @ [CHR 0x27],
     ''string_pattern_mismatch'')])"

definition queue_notification ::
  "string option \<Rightarrow> (message \<Rightarrow> 'b \<Rightarrow> (exn + unit) \<times> 'b) \<Rightarrow> (json \<Rightarrow> bool option) \<Rightarrow> notification_requested \<Rightarrow> 'b \<Rightarrow>
   (exn + json server_response) \<times> 'b" where
  "queue_notification rid send to_bool event b =
     (let errs = phone_errors (nr_recipient_phone event) @ name_errors 4000 ''text'' (nr_text event)
      in if errs \<noteq> [] then (Inl (RequestValidationError errs), b)
         else (case bus_publish send (NotificationRequested to_bool) event b of
             (Inl e, b) \<Rightarrow> (Inl e, b)
           | (Inr _, b) \<Rightarrow> (Inr (success rid (JObj [(''queued'', JBool True)]) None), b)))"

subsection \<open>The router (app/api/router.py)\<close>

text \<open>The routes as their decorators declare them: method and path template.\<close>

definition health_routes :: "(string \<times> string) list" where
  "health_routes = [(''GET'', ''/health/live''), (''GET'', ''/health/ready'')]"

definition auth_routes :: "(string \<times> string) list" where
  "auth_routes = [(''POST'', ''/register''), (''POST'', ''/login''), (''POST'', ''/refresh''), (''POST'', ''/logout''),
     (''POST'', ''/logout/all''), (''POST'', ''/logout/others''), (''GET'', ''/sessions''), (''GET'', ''/me''),
     (''POST'', ''/change-password'')]"

definition users_routes :: "(string \<times> string) list" where
  "users_routes = [(''POST'', []), (''GET'', ''/{user_id}''), (''GET'', []), (''PATCH'', ''/{user_id}''),
     (''PUT'', ''/{user_id}/profile''), (''DELETE'', ''/{user_id}''), (''GET'', ''/stream/all'')]"

definition accounts_routes :: "(string \<times> string) list" where
  "accounts_routes = [(''POST'', []), (''GET'', ''/overview/{user_id}''), (''GET'', ''/{account_id}''),
     (''POST'', ''/{account_id}/deposit''), (''POST'', ''/{account_id}/withdraw'')]"

definition categories_routes :: "(string \<times> string) list" where
  "categories_routes = [(''POST'', []), (''GET'', [])]"

definition notifications_routes :: "(string \<times> string) list" where
  "notifications_routes = [(''POST'', [])]"

definition files_routes :: "(string \<times> string) list" where
  "files_routes = [(''POST'', []), (''GET'', ''/url/{key:path}''), (''GET'', ''/download/{key:path}''),
     (''DELETE'', ''/{key:path}'')]"

definition include_router :: "string \<Rightarrow> (string \<times> string) list \<Rightarrow> (string \<times> string) list" where
  "include_router pre rs = map (\<lambda>(verb, path). (verb, pre @ path)) rs"

definition build_api_router :: "settings \<Rightarrow> (string \<times> string) list" where
  "build_api_router c = include_router [] health_routes @
     (if auth_jwt_enabled c then include_router ''/auth'' auth_routes else []) @
     include_router ''/users'' users_routes @ include_router ''/accounts'' accounts_routes @
     include_router ''/categories'' categories_routes @
     (if broker_enabled c then include_router ''/notifications'' notifications_routes else []) @
     (if storage_enabled c then include_router ''/files'' files_routes else [])"

lemmas route_defs = include_router_def health_routes_def auth_routes_def users_routes_def accounts_routes_def
  categories_routes_def notifications_routes_def files_routes_def

text \<open>No route is declared twice, and the switched-off groups have none.\<close>

lemma routes_distinct: "distinct (build_api_router c)"
proof -
  have "distinct (build_api_router (c\<lparr>auth_jwt_enabled := True, broker_enabled := True, storage_enabled := True\<rparr>))"
    by (simp add: build_api_router_def route_defs)
  then show ?thesis by (auto simp: build_api_router_def)
qed

lemma auth_routes_only_with_jwt:
  "(verb, ''/auth'' @ p) \<in> set (build_api_router c) \<Longrightarrow> auth_jwt_enabled c"
  by (cases "auth_jwt_enabled c") (simp_all add: build_api_router_def route_defs)

end
