(* ===== verification/Api_Safety.thy ===== *)
theory Api_Safety
  imports Api
begin

section \<open>What the routes promise\<close>

text \<open>
  Properties of whole requests: the money routes with their idempotency key, the guard of the delete
  route. The effect of a service call comes from the services' lemmas, the replay from the idempotency
  store's.
\<close>

subsection \<open>Requests with an idempotency key\<close>

lemma idempotent_op_first:
  assumes I: "idempotency (ap_redis P) (ap_codec P) DEFAULT_TTL" and "key \<noteq> []"
    and free: "kv (ap_redis P) (sv_redis v) (idem_key key) = None"
    and run: "idempotent_op P M (Some key) op v = (Inr resp, v1)"
  shows "(\<exists>s v'. op (v\<lparr>sv_redis := s\<rparr>) = (Inr resp, v') \<and> sv_uow v1 = sv_uow v') \<and>
    kv (ap_redis P) (sv_redis v1) (idem_key key) = Some (RStr (c_dumps (ap_codec P) (fst M resp)), Some DEFAULT_TTL)"
proof -
  let ?h = "\<lambda>s w. case op (v\<lparr>sv_uow := w, sv_redis := s\<rparr>) of (r, v) \<Rightarrow> (r, sv_redis v, sv_uow v)"
  obtain s' w' where r: "idempotent (ap_redis P) (ap_codec P) DEFAULT_TTL (fst M) (snd M) (Some key) ?h (sv_redis v) (sv_uow v)
      = (Inr resp, s', w')" and v1: "v1 = v\<lparr>sv_uow := w', sv_redis := s'\<rparr>"
    using run by (auto simp: idempotent_op_def split: prod.splits)
  have stored: "kv (ap_redis P) s' (idem_key key) = Some (RStr (c_dumps (ap_codec P) (fst M resp)), Some DEFAULT_TTL)"
    by (rule idempotency.first_run_stores [OF I free assms(2) r])
  obtain s1 where "try_acquire (ap_redis P) (ap_codec P) DEFAULT_TTL key (sv_redis v) =
      (Inr \<lparr>hit_found = False, hit_in_progress = False, hit_response = None\<rparr>, s1)"
    using idempotency.try_acquire_free [OF I free] by metis
  with r assms(2) have "\<exists>s2. ?h s1 (sv_uow v) = (Inr resp, s2, w')"
    by (auto simp: idempotent_def split: prod.splits sum.splits)
  then obtain v' where "op (v\<lparr>sv_redis := s1\<rparr>) = (Inr resp, v')" "sv_uow v' = w'"
    by (auto split: prod.splits)
  with stored v1 show ?thesis by auto
qed

lemma idempotent_op_again:
  assumes I: "idempotency (ap_redis P) (ap_codec P) DEFAULT_TTL" and "key \<noteq> []"
    and "kv (ap_redis P) (sv_redis v) (idem_key key) = Some (RStr (c_dumps (ap_codec P) (fst M resp)), t)"
  shows "fst (idempotent_op P M (Some key) op v) = snd M (fst M resp) \<and>
    sv_uow (snd (idempotent_op P M (Some key) op v)) = sv_uow v"
proof -
  let ?h = "\<lambda>s w. case op (v\<lparr>sv_uow := w, sv_redis := s\<rparr>) of (r, v) \<Rightarrow> (r, sv_redis v, sv_uow v)"
  obtain s' where "idempotent (ap_redis P) (ap_codec P) DEFAULT_TTL (fst M) (snd M) (Some key) ?h (sv_redis v) (sv_uow v)
      = (snd M (fst M resp), s', sv_uow v)"
    by (rule idempotency.replay [where dump = "fst M" and resp = resp, OF I assms(3,2)])
  then show ?thesis by (simp add: idempotent_op_def)
qed

lemma success_op_Inr: "success_op P op v = (Inr r, v') \<longleftrightarrow> (\<exists>x. op v = (Inr x, v') \<and> r = success (ap_request_id P) x None)"
  by (auto simp: success_op_def wrap_def split: prod.splits sum.splits)

lemma checked_Inr: "checked errs op v = (Inr r, v') \<longleftrightarrow> errs = [] \<and> op v = (Inr r, v')"
  by (auto simp: checked_def)

lemma required_key_met: "required_key key = [] \<longleftrightarrow> (\<exists>k. key = Some k \<and> 8 \<le> length k \<and> length k \<le> 255)"
  by (auto simp: required_key_def key_errors_def constraints_met split: option.splits)

lemma deposit_runs:
  assumes "sv_idle v" "deposit E Ch i now aid amount acq cids v = (Inr dto, v')"
  shows "\<exists>acc links. row_get a_id (accounts (sv_db v)) aid = Some acc \<and>
    dto = account_read_of (acc\<lparr>a_balance := a_balance acc + amount\<rparr>) \<and>
    sv_db v' = moved_db (acc\<lparr>a_balance := a_balance acc + amount\<rparr>)
      \<lparr>t_id = i, t_account_id = a_id acc, t_amount = amount, t_kind = ''deposit'', t_acquirer = acq, t_created_at = now\<rparr>
      links (sv_db v)"
  using assms(2) unfolding deposit_def
proof (rule in_tx_elim [OF _ assms(1) atomic_account_ops(3)], goal_cases)
  case (2 x u)
  then show ?case using deposit_tx_runs [of E i now aid amount acq cids "sv_db v" "fst x" "snd x" u]
    by (cases x) (auto simp: drop_cached_def sv_db_def idle_def)
qed auto

text \<open>The same service at a later request, of any client.\<close>

definition later_request :: "('s, 'v, 'j) api \<Rightarrow> string option \<Rightarrow> int \<Rightarrow> auth_request \<Rightarrow> ('s, 'v, 'j) api" where
  "later_request P rid clock tokens = P\<lparr>ap_request_id := rid, ap_clock := clock, ap_tokens := tokens\<rparr>"

text \<open>
  An answer that changes no data and is the first response (as it was stored and read back), or 422 for
  an invalid request.
\<close>

definition replays ::
  "('s, 'v, 'j) api \<Rightarrow> (account_read, 'j) json_model \<Rightarrow> account_read server_response \<Rightarrow> amount_request \<Rightarrow> 's svc \<Rightarrow>
   (exn + account_read server_response) \<times> 's svc \<Rightarrow> bool" where
  "replays P M resp data v answer \<longleftrightarrow> sv_db (snd answer) = sv_db v \<and>
     (if amount_errors (ap_settings P) data = [] then fst answer = snd M (fst M resp)
      else \<exists>e. fst answer = Inl e \<and> he_status (handle_exception (ap_request_id P) e) = 422)"

text \<open>
  C4: A deposit is booked once: when a request to deposit has succeeded, the balance has grown by its
  amount and one transaction records it; and as long as the store keeps its key, no later request
  with that key, whatever its account, amount or route (deposit or withdrawal), changes any data:
  it is answered with the first response, or with 422 if it is invalid.
\<close>

theorem deposit_booked_once:
  assumes I: "idempotency (ap_redis P) (ap_codec P) DEFAULT_TTL" and idle: "sv_idle v"
    and free: "kv (ap_redis P) (sv_redis v) (idem_key key) = None"
    and first: "post_deposit P M (Some key) i now aid data v = (Inr resp, v1)"
    and later: "kv (ap_redis P) (sv_redis v2) (idem_key key) = kv (ap_redis P) (sv_redis v1) (idem_key key)"
  shows "(\<exists>acc links. row_get a_id (accounts (sv_db v)) aid = Some acc \<and>
      sr_data resp = account_read_of (acc\<lparr>a_balance := a_balance acc + am_amount data\<rparr>) \<and>
      sv_db v1 = moved_db (acc\<lparr>a_balance := a_balance acc + am_amount data\<rparr>)
        \<lparr>t_id = i, t_account_id = a_id acc, t_amount = am_amount data, t_kind = ''deposit'',
         t_acquirer = am_acquirer data, t_created_at = now\<rparr> links (sv_db v)) \<and>
    replays (later_request P rid clock tokens) M resp data' v2
      (post_deposit (later_request P rid clock tokens) M (Some key) i' now' aid' data' v2) \<and>
    replays (later_request P rid clock tokens) M resp data' v2
      (post_withdraw (later_request P rid clock tokens) M (Some key) i' now' aid' data' v2)"
proof (intro conjI)
  let ?P = "later_request P rid clock tokens"
  have key: "required_key (Some key) = []" and key': "key \<noteq> []"
    and run: "idempotent_op P M (Some key) (success_op P (deposit (ap_engine P) (ap_cache P) i now aid
        (am_amount data) (am_acquirer data) (am_category_ids data))) v = (Inr resp, v1)"
    using first by (auto simp: post_deposit_def checked_Inr required_key_met)
  from idempotent_op_first [OF I key' free run]
  obtain s v' x where op: "deposit (ap_engine P) (ap_cache P) i now aid (am_amount data) (am_acquirer data)
        (am_category_ids data) (v\<lparr>sv_redis := s\<rparr>) = (Inr x, v')" "resp = success (ap_request_id P) x None" "sv_uow v1 = sv_uow v'"
    and stored: "kv (ap_redis P) (sv_redis v1) (idem_key key) = Some (RStr (c_dumps (ap_codec P) (fst M resp)), Some DEFAULT_TTL)"
    by (auto simp: success_op_Inr)
  have "sv_idle (v\<lparr>sv_redis := s\<rparr>)" using idle by simp
  from deposit_runs [OF this op(1)] op(2,3)
  show "\<exists>acc links. row_get a_id (accounts (sv_db v)) aid = Some acc \<and>
      sr_data resp = account_read_of (acc\<lparr>a_balance := a_balance acc + am_amount data\<rparr>) \<and>
      sv_db v1 = moved_db (acc\<lparr>a_balance := a_balance acc + am_amount data\<rparr>)
        \<lparr>t_id = i, t_account_id = a_id acc, t_amount = am_amount data, t_kind = ''deposit'',
         t_acquirer = am_acquirer data, t_created_at = now\<rparr> links (sv_db v)"
    by (auto simp: sv_db_def)
  have I': "idempotency (ap_redis ?P) (ap_codec ?P) DEFAULT_TTL" using I by (simp add: later_request_def)
  have "replays ?P M resp data' v2 (checked (required_key (Some key) @ amount_errors (ap_settings ?P) data')
      (idempotent_op ?P M (Some key) op) v2)" for op
    using idempotent_op_again [OF I' key', of v2 M resp _ op] stored later key
    by (auto simp: replays_def checked_def sv_db_def validation_handler_def render_def later_request_def)
  then show "replays ?P M resp data' v2 (post_deposit ?P M (Some key) i' now' aid' data' v2)"
    "replays ?P M resp data' v2 (post_withdraw ?P M (Some key) i' now' aid' data' v2)"
    unfolding post_deposit_def post_withdraw_def by blast+
qed

text \<open>
  What is stored is the whole envelope: the answer to a repetition carries the id of the first request,
  beside the header with its own.
\<close>

lemma replay_has_first_id:
  assumes I: "idempotency (ap_redis P) (ap_codec P) DEFAULT_TTL" and "key \<noteq> []"
    and "kv (ap_redis P) (sv_redis v) (idem_key key) = None" "str_truthy (ap_request_id P)"
    and "idempotent_op P M (Some key) (success_op P op) v = (Inr resp, v1)" "snd M (fst M resp) = Inr resp"
    and "kv (ap_redis P) (sv_redis v2) (idem_key key) = kv (ap_redis P) (sv_redis v1) (idem_key key)"
  shows "fst (idempotent_op (later_request P rid clock tokens) M (Some key) op' v2) = Inr resp \<and>
    sr_meta resp = Some (meta_of_request (ap_request_id P))"
proof -
  let ?P = "later_request P rid clock tokens"
  from idempotent_op_first [OF I assms(2,3,5)] obtain x where x: "resp = success (ap_request_id P) x None"
    and stored: "kv (ap_redis P) (sv_redis v1) (idem_key key) = Some (RStr (c_dumps (ap_codec P) (fst M resp)), Some DEFAULT_TTL)"
    by (auto simp: success_op_Inr)
  have "idempotency (ap_redis ?P) (ap_codec ?P) DEFAULT_TTL" using I by (simp add: later_request_def)
  from idempotent_op_again [OF this assms(2), of v2 M resp _ op'] stored assms(6,7)
  have "fst (idempotent_op ?P M (Some key) op' v2) = Inr resp" by (simp add: later_request_def)
  then show ?thesis using assms(4) by (simp add: x success_def)
qed

definition demo_api :: "auth_request \<Rightarrow> (mem, string, string) api" where
  "demo_api tokens = \<lparr>ap_auth = demo_env\<lparr>ae_settings := default_settings\<lparr>acquiring_memory_enabled := True\<rparr>\<rparr>,
     ap_redis = mem_redis, ap_cache = redis_cache mem_redis str_codec 60, ap_dump = user_text, ap_undump = text_user,
     ap_codec = str_codec, ap_email = Inr, ap_request_id = None, ap_clock = 1000, ap_tokens = tokens\<rparr>"

abbreviation no_token :: auth_request where
  "no_token \<equiv> \<lparr>rq_access_cookie = None, rq_bearer = None\<rparr>"

definition demo_model :: "(account_read, string) json_model" where
  "demo_model = ((\<lambda>r. account_text (sr_data r)), (\<lambda>t. Inr (success None (text_account t) None)))"

definition demo_amount :: "int \<Rightarrow> amount_request" where
  "demo_amount n = \<lparr>am_amount = n, am_acquirer = MEMORY, am_category_ids = []\<rparr>"

definition demo_bank :: "mem svc" where
  "demo_bank = \<lparr>sv_uow = sv_uow demo2, sv_redis = Map.empty\<rparr>"

lemma mem_idempotency_day: "idempotency mem_redis str_codec DEFAULT_TTL"
  using mem_idempotency by (simp add: DEFAULT_TTL_def)

lemma demo_api_sel [simp]: "ap_redis (demo_api tk) = mem_redis" "ap_codec (demo_api tk) = str_codec"
  "ap_engine (demo_api tk) = (\<lambda>_. None)" "ap_cache (demo_api tk) = redis_cache mem_redis str_codec 60"
  "ap_settings (demo_api tk) = default_settings\<lparr>acquiring_memory_enabled := True\<rparr>" "ap_request_id (demo_api tk) = None"
  "ap_tokens (demo_api tk) = tk" "ap_clock (demo_api tk) = 1000" "ae_jwt (ap_auth (demo_api tk)) = demo_jwt"
  by (simp_all add: demo_api_def)

lemma demo_amount_ok: "0 < n \<Longrightarrow> amount_errors (ap_settings (demo_api tk)) (demo_amount n) = []"
  by (simp add: amount_errors_def constraints_met demo_amount_def)

lemma demo_deposit: "\<exists>v'. deposit (\<lambda>_. None) Ch ''t1'' 6 ''a1'' 70 MEMORY [] (demo_bank\<lparr>sv_redis := s\<rparr>) =
    (Inr (account_read_of (demo_acc 70)), v')"
  by (simp add: demo_bank_def demo2_db deposit_def deposit_defs link_categories_def exec_defs schema_defs demo_rows
      drop_cached_def row_get_def row_put_def Let_def)

lemma demo_deposit_request:
  "\<exists>v1. post_deposit (demo_api tk) demo_model (Some ''k-000001'') ''t1'' 6 ''a1'' (demo_amount 70) demo_bank =
     (Inr (success None (account_read_of (demo_acc 70)) None), v1)"
proof -
  obtain s1 where "try_acquire mem_redis str_codec DEFAULT_TTL ''k-000001'' Map.empty =
      (Inr \<lparr>hit_found = False, hit_in_progress = False, hit_response = None\<rparr>, s1)"
    using idempotency.try_acquire_free [OF mem_idempotency_day, of Map.empty "''k-000001''"] by (auto simp: mem_defs)
  moreover obtain v' where "deposit (\<lambda>_. None) (redis_cache mem_redis str_codec 60) ''t1'' 6 ''a1'' 70 MEMORY []
      (demo_bank\<lparr>sv_redis := s1\<rparr>) = (Inr (account_read_of (demo_acc 70)), v')" using demo_deposit by blast
  ultimately show ?thesis
    using demo_amount_ok [of 70 tk]
    by (simp add: post_deposit_def checked_def required_key_def key_errors_def constraints_met idempotent_op_def
        idempotent_def success_op_def wrap_def demo_amount_def demo_bank_def)
qed

theorem deposit_booked_once_witness:
  "\<exists>v1. post_deposit (demo_api no_token) demo_model (Some ''k-000001'') ''t1'' 6 ''a1'' (demo_amount 70) demo_bank =
     (Inr (success None (account_read_of (demo_acc 70)) None), v1) \<and>
   sv_db (snd (post_withdraw (demo_api no_token) demo_model (Some ''k-000001'') ''t2'' 7 ''a1'' (demo_amount 30) v1)) = sv_db v1"
proof -
  obtain v1 where run: "post_deposit (demo_api no_token) demo_model (Some ''k-000001'') ''t1'' 6 ''a1'' (demo_amount 70) demo_bank =
     (Inr (success None (account_read_of (demo_acc 70)) None), v1)" using demo_deposit_request by blast
  have same: "later_request (demo_api no_token) None 1000 no_token = demo_api no_token"
    by (simp add: later_request_def demo_api_def)
  have "sv_idle demo_bank" "kv (ap_redis (demo_api no_token)) (sv_redis demo_bank) (idem_key ''k-000001'') = None"
    by (simp_all add: demo_bank_def sv_idle_def demo2_db idle_def mem_defs)
  from deposit_booked_once [OF _ this run refl, where data' = "demo_amount 30" and rid = None and clock = 1000
      and tokens = no_token and i' = "''t2''" and now' = 7 and aid' = "''a1''"]
  show ?thesis using run mem_idempotency_day unfolding same by (auto simp: replays_def)
qed

subsection \<open>Deleting a user\<close>

lemma current_user_token:
  assumes "auth_jwt_enabled (ae_settings A)" "get_current_user A R now req s = Inr u"
  shows "\<exists>tok p. (if cookie_auth (ae_settings A) then rq_access_cookie req else rq_bearer req) = Some tok \<and>
    decode_token (ae_jwt A) (ae_settings A) now tok ACCESS = Inr p \<and>
    (auth_validate_session (ae_settings A) \<longrightarrow> (\<exists>sid. tp_sid p = Some sid \<and> exists_session R sid s)) \<and>
    cu_role u = (case tp_role p of None \<Rightarrow> USER | Some r \<Rightarrow> r)"
proof -
  define tok where "tok = (if cookie_auth (ae_settings A) then rq_access_cookie req else rq_bearer req)"
  have tok: "str_truthy tok" using assms unfolding get_current_user_def Let_def tok_def [symmetric] by (auto split: if_splits)
  then obtain tk where tk: "tok = Some tk" by (cases tok) auto
  obtain p where p: "decode_token (ae_jwt A) (ae_settings A) now tk ACCESS = Inr p"
    using assms tok unfolding get_current_user_def Let_def tok_def [symmetric]
    by (auto simp: tk split: sum.splits exn.splits)
  have "auth_validate_session (ae_settings A) \<longrightarrow> str_truthy (tp_sid p) \<and> exists_session R (the (tp_sid p)) s"
    "cu_role u = (case tp_role p of None \<Rightarrow> USER | Some r \<Rightarrow> r)"
    using assms tok unfolding get_current_user_def Let_def tok_def [symmetric]
    by (auto simp: tk p split: if_splits option.splits)
  moreover have "str_truthy (tp_sid p) \<longrightarrow> tp_sid p = Some (the (tp_sid p))" by (cases "tp_sid p") auto
  ultimately show ?thesis unfolding tok_def [symmetric] using tk p by blast
qed

text \<open>
  C11: Only an administrator deletes users: with tokens switched on, a delete request either carries an
  access token that is valid now, has the role \<^verbatim>\<open>ADMIN\<close> and, when sessions are checked, a live session,
  and then it is \<^verbatim>\<open>UserService.delete\<close>; or it is an error and nothing at all is changed.
\<close>

theorem delete_only_by_admin:
  assumes "auth_jwt_enabled (ap_settings P)"
  shows "(\<exists>tok p. (if cookie_auth (ap_settings P) then rq_access_cookie (ap_tokens P) else rq_bearer (ap_tokens P)) = Some tok \<and>
      decode_token (ae_jwt (ap_auth P)) (ap_settings P) (ap_clock P) tok ACCESS = Inr p \<and> tp_role p = Some ADMIN \<and>
      (auth_validate_session (ap_settings P) \<longrightarrow>
        (\<exists>sid. tp_sid p = Some sid \<and> exists_session (ap_redis P) sid (sv_redis v))) \<and>
      delete_user_route P uid v = wrap (\<lambda>_. empty_resp (ap_request_id P))
        (delete_user (ap_engine P) (ap_cache P) (Some (revoke_all (ap_redis P))) uid) v) \<or>
    (\<exists>e. delete_user_route P uid v = (Inl e, v))"
proof (cases "get_current_user (ap_auth P) (ap_redis P) (ap_clock P) (ap_tokens P) (sv_redis v)")
  case (Inl e)
  then show ?thesis by (simp add: delete_user_route_def with_role_def with_user_def)
next
  case (Inr u)
  show ?thesis
  proof (cases "cu_role u = ADMIN")
    case True
    then have "delete_user_route P uid v = wrap (\<lambda>_. empty_resp (ap_request_id P))
        (delete_user (ap_engine P) (ap_cache P) (Some (revoke_all (ap_redis P))) uid) v"
      by (simp add: delete_user_route_def with_role_def with_user_def Inr require_roles_def)
    then show ?thesis using current_user_token [OF assms Inr] True
      by (elim exE conjE) (auto split: option.splits)
  next
    case False
    then show ?thesis using assms
      by (simp add: delete_user_route_def with_role_def with_user_def Inr require_roles_def)
  qed
qed

theorem delete_only_by_admin_witness:
  "\<exists>e. delete_user_route (demo_api \<lparr>rq_access_cookie = None,
       rq_bearer = Some (create_access_token demo_jwt default_settings 900 (u_id demo_user) USER ''s1'')\<rparr>)
     (u_id demo_user) demo_svc = (Inl e, demo_svc)"
proof -
  let ?tok = "create_access_token demo_jwt default_settings 900 (u_id demo_user) USER ''s1''"
  let ?P = "demo_api \<lparr>rq_access_cookie = None, rq_bearer = Some ?tok\<rparr>"
  let ?c = "default_settings\<lparr>acquiring_memory_enabled := True\<rparr>"
  have c: "create_access_token demo_jwt default_settings = create_access_token demo_jwt ?c"
    by (intro ext) (simp add: create_access_token_def encode_def)
  have "decode_token demo_jwt ?c 1000 ?tok ACCESS = Inr \<lparr>tp_sub = u_id demo_user, tp_type = ACCESS, tp_role = Some USER,
      tp_sid = Some ''s1'', tp_jti = None, tp_exp = 1800\<rparr>"
    unfolding c using jwt_service.decode_access [OF demo_jwt_service, of 900 1000 ?c "u_id demo_user" USER "''s1''"]
    by simp
  moreover have "\<not> cookie_auth ?c" by (simp add: cookie_auth_def default_settings_def)
  ultimately show ?thesis
    using delete_only_by_admin [of ?P demo_svc "u_id demo_user"] by auto
qed

lemma deleted_db_sel:
  "users (deleted_db uid d) = filter (\<lambda>u. u_id u \<noteq> uid) (users d)"
  "profiles (deleted_db uid d) = filter (\<lambda>p. p_user_id p \<noteq> uid) (profiles d)"
  "accounts (deleted_db uid d) = filter (\<lambda>a. a_user_id a \<noteq> uid) (accounts d)"
  "transactions (deleted_db uid d) =
     filter (\<lambda>t. t_account_id t \<notin> a_id ` {a \<in> set (accounts d). a_user_id a = uid}) (transactions d)"
  by (simp_all add: deleted_db_def drop_defs)

lemma delete_user_runs:
  assumes "sv_idle v" "delete_user E Ch (Some rvk) uid v = (Inr x, v')"
  shows "sv_db v' = deleted_db uid (sv_db v) \<and>
    sv_redis v' = snd (rvk uid (snd (ca_delete Ch [user_cache_key uid] (sv_redis v))))"
  using assms(2) unfolding delete_user_def
proof (rule in_tx_elim [OF _ assms(1) atomic_ops(2)], goal_cases)
  case (2 y u)
  with delete_tx_runs [OF 2(1)] show ?case by (auto simp: drop_cached_def Let_def sv_db_def idle_def)
qed auto


lemma delete_tx_healthy:
  assumes "db_ok d" "E d = None" "\<And>w. E w = None" "uid \<in> u_id ` set (users d)"
  shows "\<exists>u. delete_tx E uid (opened d) = (Inr (), u)"
  using assms delete_user_ok [of d uid]
  by (auto simp: delete_tx_def runs table_defs ran_def filter_empty_conv)


end
