(* ===== verification/Api_Errors.thy ===== *)
theory Api_Errors
  imports Api_Safety
begin

section \<open>Refused requests\<close>

text \<open>
  What a client may conclude from an error: nothing was written. Every service commits last, so an
  operation that fails leaves the committed data alone; the rules of the collection \<open>clean\<close> carry this
  through the dependencies, the envelope and the idempotency key up to whole routes.
\<close>

named_theorems clean

definition all_or_nothing :: "('s, 'a) svc_op \<Rightarrow> bool" where
  "all_or_nothing op \<longleftrightarrow> (\<forall>v e v'. sv_idle v \<longrightarrow> op v = (Inl e, v') \<longrightarrow> sv_db v' = sv_db v)"

lemma all_or_nothingD: "all_or_nothing op \<Longrightarrow> sv_idle v \<Longrightarrow> op v = (Inl e, v') \<Longrightarrow> sv_db v' = sv_db v"
  by (simp add: all_or_nothing_def)

lemma clean_tx [clean]:
  assumes "atomic m" "\<And>x v e v'. f x v \<noteq> (Inl e, v')"
  shows "all_or_nothing (in_tx m f)"
  unfolding all_or_nothing_def
proof (intro allI impI)
  fix v e v' assume "sv_idle v" "in_tx m f v = (Inl e, v')"
  then show "sv_db v' = sv_db v"
    by (elim in_tx_elim [OF _ _ assms(1)]) (use assms(2) in \<open>auto simp: idle_def\<close>)
qed

lemma clean_read_tx:
  assumes "uncommitted m" "\<And>x. all_or_nothing (f x)"
  shows "all_or_nothing (in_tx m f)"
  unfolding all_or_nothing_def
proof (intro allI impI)
  fix v e v' assume v: "sv_idle v" and run: "in_tx m f v = (Inl e, v')"
  from run v uncommitted_atomic [OF assms(1)] show "sv_db v' = sv_db v"
  proof (cases rule: in_tx_elim)
    case (finished x u)
    have "committed (snd (m (opened (sv_db v)))) = committed (opened (sv_db v))" using assms(1) unfolding uncommitted_def by blast
    then have "committed u = sv_db v" using finished(1) by (simp add: opened_def)
    moreover have "sv_idle (v\<lparr>sv_uow := idle (committed u)\<rparr>)" by (simp add: idle_def)
    note all_or_nothingD [OF assms(2) this finished(2)]
    ultimately show ?thesis by (simp add: idle_def)
  qed (simp add: idle_def)
qed

lemma clean_checked [clean]: "all_or_nothing op \<Longrightarrow> all_or_nothing (checked errs op)"
  by (simp add: all_or_nothing_def checked_def)

lemma wrap_Inl: "wrap f op v = (Inl e, v') \<longleftrightarrow> op v = (Inl e, v')"
  by (auto simp: wrap_def split: prod.splits sum.splits)

lemma clean_wrap [clean]: "all_or_nothing op \<Longrightarrow> all_or_nothing (wrap f op)"
  by (simp only: all_or_nothing_def wrap_Inl simp_thms)

lemma clean_success [clean]: "all_or_nothing op \<Longrightarrow> all_or_nothing (success_op P op)"
  unfolding success_op_def by (rule clean_wrap)

lemma clean_user [clean]: "(\<And>u. all_or_nothing (f u)) \<Longrightarrow> all_or_nothing (with_user P f)"
  by (auto simp: all_or_nothing_def with_user_def split: sum.splits)

lemma clean_role [clean]: "(\<And>u. all_or_nothing (f u)) \<Longrightarrow> all_or_nothing (with_role P roles f)"
  unfolding with_role_def by (rule clean_user) (auto simp: all_or_nothing_def split: sum.splits)

lemma idempotent_Inl:
  assumes "idempotent R C ttl dump undump key produce s w = (Inl e, s', w')"
  shows "w' = w \<or> (\<exists>s1 s2. produce s1 w = (Inl e, s2, w'))"
  using assms by (auto simp: idempotent_def split: prod.splits sum.splits if_splits)

lemma clean_idempotent [clean]:
  assumes "all_or_nothing op"
  shows "all_or_nothing (idempotent_op P M key op)"
  unfolding all_or_nothing_def
proof (intro allI impI)
  fix v e v' assume v: "sv_idle v" and "idempotent_op P M key op v = (Inl e, v')"
  then obtain s w where run: "idempotent (ap_redis P) (ap_codec P) DEFAULT_TTL (fst M) (snd M) key
      (\<lambda>s w. case op (v\<lparr>sv_uow := w, sv_redis := s\<rparr>) of (r, v) \<Rightarrow> (r, sv_redis v, sv_uow v)) (sv_redis v) (sv_uow v) = (Inl e, s, w)"
    and v': "v' = v\<lparr>sv_uow := w, sv_redis := s\<rparr>"
    by (auto simp: idempotent_op_def split: prod.splits)
  have "committed (sv_uow v2) = sv_db v" if "op (v\<lparr>sv_redis := s'\<rparr>) = (Inl e, v2)" for s' v2
  proof -
    have "sv_idle (v\<lparr>sv_redis := s'\<rparr>)" using v by simp
    from all_or_nothingD [OF assms this that] show ?thesis by (simp add: sv_db_def)
  qed
  moreover have "w = sv_uow v \<or> (\<exists>s1 v2. op (v\<lparr>sv_redis := s1\<rparr>) = (Inl e, v2) \<and> w = sv_uow v2)"
    using idempotent_Inl [OF run] by (auto simp: case_prod_beta prod_eq_iff)
  ultimately have "committed w = sv_db v" by (auto simp: sv_db_def)
  then show "sv_db v' = sv_db v" by (simp add: v')
qed

text \<open>The services that write.\<close>

lemma clean_users [clean]:
  "all_or_nothing (create_user E Ch dump i ei now data)" "all_or_nothing (update_user E Ch now uid updata)"
  "all_or_nothing (delete_user E Ch sessions uid)" "all_or_nothing (upsert_profile E Ch i uid pdata)"
  unfolding create_user_def update_user_def delete_user_def upsert_profile_def
  by (rule clean_tx [OF atomic_ops(1)] clean_tx [OF atomic_update] clean_tx [OF atomic_ops(2)] clean_tx [OF atomic_ops(3)],
      simp add: Let_def)+

lemma clean_accounts [clean]:
  "all_or_nothing (create_category E i n)" "all_or_nothing (create_account E Ch i uid n)"
  "all_or_nothing (deposit E Ch i now aid m acq cids)" "all_or_nothing (withdraw E Ch i now aid m acq)"
  unfolding create_category_def create_account_def deposit_def withdraw_def
  by (rule clean_tx [OF atomic_account_ops(1)] clean_tx [OF atomic_account_ops(2)] clean_tx [OF atomic_account_ops(3)]
        clean_tx [OF atomic_account_ops(4)], simp add: sv_return_def split: prod.splits)+

lemma clean_register [clean]: "all_or_nothing (register A salt i now data)"
proof -
  have "atomic (register_tx E i now h data)" for E h
    unfolding register_tx_def by (rule keeps | rule uncommitted_atomic)+
  then show ?thesis unfolding register_def Let_def by (rule clean_tx) (simp add: sv_return_def)
qed

lemma clean_change_password [clean]: "all_or_nothing (change_password A salt now uid old new)"
proof -
  have u: "uncommitted (user_tx E sub)" for E sub unfolding user_tx_def by (rule keeps)+
  have "atomic (set_password_tx E now sub h)" for E sub h
    unfolding set_password_tx_def by (rule keeps u | rule uncommitted_atomic)+
  then have s: "all_or_nothing (in_tx (set_password_tx E now sub h) sv_return)" for E sub h
    by (rule clean_tx) (simp add: sv_return_def)
  show ?thesis unfolding change_password_def
    by (rule clean_read_tx [OF u]) (simp add: all_or_nothing_def Let_def all_or_nothingD [OF s])
qed

text \<open>
  A refused request, as its client sees it: the data is as it was; the body is the error envelope with
  the request's id; and for an exception that nobody raised on purpose the body is the same whatever
  the exception and the request were.
\<close>

definition refuses_cleanly :: "('s, 'v, 'j) api \<Rightarrow> ('s, 'b) svc_op \<Rightarrow> 's svc \<Rightarrow> bool" where
  "refuses_cleanly P route v \<longleftrightarrow> (\<forall>status h v'. respond P status route v = (Refused h, v') \<longrightarrow>
     sv_db v' = sv_db v \<and> \<not> sr_status (he_body h) \<and>
     (\<exists>e. fst (route v) = Inl e \<and> (if is_unforeseen e then h = unhandled_handler None
        else str_truthy (ap_request_id P) \<longrightarrow> sr_meta (he_body h) = Some (meta_of_request (ap_request_id P)))))"

lemma clean_refuses: "all_or_nothing route \<Longrightarrow> sv_idle v \<Longrightarrow> refuses_cleanly P route v"
  unfolding refuses_cleanly_def respond_def
  by (auto dest: all_or_nothingD simp: handle_envelope handle_request_id handle_unforeseen split: prod.splits sum.splits)


lemma demo_overdraw: "\<exists>v'. withdraw (\<lambda>_. None) Ch ''t1'' 6 ''a1'' 30 MEMORY (demo_bank\<lparr>sv_redis := s\<rparr>) =
    (Inl (ConflictError ''Insufficient funds''), v')"
  by (simp add: demo_bank_def demo2_db withdraw_def withdraw_defs exec_defs schema_defs demo_rows
      row_get_def row_put_def Let_def)


end
