(* ===== verification/Storage.thy ===== *)
theory Storage
  imports Validation Config "HOL-Library.Sublist"
begin

section \<open>Object storage\<close>

text \<open>
  \<^verbatim>\<open>app/storage\<close> (the interface \<^verbatim>\<open>AbstractStorage\<close>, the implementation \<^verbatim>\<open>S3Storage\<close>, the factory).
  The S3 service behind aioboto3 is a parameter: the record
  \<open>s3_client\<close> has the calls the code makes, and the locale \<open>s3_service\<close> states what S3 documents about
  them over \<open>s3_view\<close>, the body of each object of a bucket. A call may fail at any time; a
  \<^verbatim>\<open>ClientError\<close> is \<open>OtherError ''ClientError'' code\<close>. Bytes are strings.
\<close>

subsection \<open>The interface\<close>

record 'b storage =
  sg_healthcheck :: "'b \<Rightarrow> bool"
  sg_put :: "string \<Rightarrow> string \<Rightarrow> string option \<Rightarrow> 'b \<Rightarrow> (exn + unit) \<times> 'b"
  sg_get :: "string \<Rightarrow> 'b \<Rightarrow> exn + string"
  sg_stream :: "string \<Rightarrow> 'b \<Rightarrow> exn + string list"
  sg_delete :: "string \<Rightarrow> 'b \<Rightarrow> (exn + unit) \<times> 'b"
  sg_exists :: "string \<Rightarrow> 'b \<Rightarrow> exn + bool"
  sg_list :: "string \<Rightarrow> 'b \<Rightarrow> exn + string list"
  sg_presigned_url :: "string \<Rightarrow> int \<Rightarrow> string \<Rightarrow> exn + string"

definition missing_object :: "string \<Rightarrow> exn" where
  "missing_object key = ObjectNotFoundError key"

text \<open>
  The contract that the docstrings state: \<open>view\<close> is what is stored. Every call may also fail, and a
  failed one has changed nothing; \<open>put\<close> overwrites; the absence of a key is \<^verbatim>\<open>ObjectNotFoundError\<close> for
  a read and no error for \<open>delete\<close>.
\<close>

locale abstract_storage =
  fixes S :: "'b storage" and view :: "'b \<Rightarrow> string \<Rightarrow> string option"
  assumes put_stores: "sg_put S k x ct b = (Inr (), b') \<Longrightarrow> view b' = (view b)(k \<mapsto> x)"
    and put_failed: "sg_put S k x ct b = (Inl e, b') \<Longrightarrow> view b' = view b"
    and get_reads: "sg_get S k b = Inr x \<Longrightarrow> view b k = Some x"
    and get_missing: "sg_get S k b = Inl (missing_object k) \<Longrightarrow> view b k = None"
    and stream_reads: "sg_stream S k b = Inr xs \<Longrightarrow> view b k = Some (concat xs)"
    and delete_removes: "sg_delete S k b = (Inr (), b') \<Longrightarrow> view b' = (view b)(k := None)"
    and delete_failed: "sg_delete S k b = (Inl e, b') \<Longrightarrow> view b' = view b"
    and exists_tells: "sg_exists S k b = Inr found \<Longrightarrow> found = (view b k \<noteq> None)"
    and list_finds: "sg_list S pre b = Inr ks \<Longrightarrow> set ks = {k. startswith k pre \<and> view b k \<noteq> None}"
begin

lemma read_after_put: "sg_put S k x ct b = (Inr (), b') \<Longrightarrow> sg_get S k b' = Inr y \<Longrightarrow> y = x"
  using put_stores get_reads by fastforce

lemma stream_after_put: "sg_put S k x ct b = (Inr (), b') \<Longrightarrow> sg_stream S k b' = Inr xs \<Longrightarrow> concat xs = x"
  using put_stores stream_reads by fastforce

lemma gone_after_delete: "sg_delete S k b = (Inr (), b') \<Longrightarrow> sg_exists S k b' \<noteq> Inr True"
  using delete_removes exists_tells by fastforce

end

subsection \<open>S3\<close>

record 'b s3_client =
  s3_view :: "'b \<Rightarrow> string \<Rightarrow> string \<Rightarrow> string option"
  put_object :: "string \<Rightarrow> string \<Rightarrow> string \<Rightarrow> string option \<Rightarrow> 'b \<Rightarrow> (exn + unit) \<times> 'b"
  get_object :: "string \<Rightarrow> string \<Rightarrow> 'b \<Rightarrow> exn + string"
  head_object :: "string \<Rightarrow> string \<Rightarrow> 'b \<Rightarrow> exn + unit"
  head_bucket :: "string \<Rightarrow> 'b \<Rightarrow> exn + unit"
  delete_object :: "string \<Rightarrow> string \<Rightarrow> 'b \<Rightarrow> (exn + unit) \<times> 'b"
  list_objects :: "string \<Rightarrow> string \<Rightarrow> 'b \<Rightarrow> exn + string list list"
  generate_presigned_url :: "string \<Rightarrow> string \<Rightarrow> string \<Rightarrow> int \<Rightarrow> exn + string"
  iter_chunks :: "nat \<Rightarrow> string \<Rightarrow> string list"

text \<open>The attributes of \<^verbatim>\<open>S3Storage\<close>; \<open>st_connected\<close> is \<^verbatim>\<open>self._client is not None\<close>.\<close>

record s3_config =
  st_bucket :: string
  st_endpoint_url :: "string option"
  st_region :: string
  st_access_key :: string
  st_secret_key :: string
  st_use_ssl :: bool
  st_public_url :: string
  st_default_expire :: int
  st_connected :: bool

definition build_s3_storage :: "settings \<Rightarrow> s3_config" where
  "build_s3_storage c = \<lparr>st_bucket = s3_bucket c,
     st_endpoint_url = (if s3_endpoint_url c = [] then None else Some (s3_endpoint_url c)),
     st_region = s3_region c, st_access_key = s3_access_key_id c, st_secret_key = s3_secret_access_key c,
     st_use_ssl = s3_use_ssl c, st_public_url = rev (lstrip_of (\<lambda>ch. ch = CHR ''/'') (rev (s3_public_url c))),
     st_default_expire = storage_presign_expire c, st_connected = False\<rparr>"

definition storage_connect :: "s3_config \<Rightarrow> s3_config" where
  "storage_connect c = c\<lparr>st_connected := True\<rparr>"

definition storage_close :: "s3_config \<Rightarrow> s3_config" where
  "storage_close c = (if st_connected c then c\<lparr>st_connected := False\<rparr> else c)"

definition not_connected :: exn where
  "not_connected = OtherError ''RuntimeError'' ''S3Storage: connect() first''"

definition NOT_FOUND_CODES :: "string set" where
  "NOT_FOUND_CODES = {''NoSuchKey'', ''NoSuchBucket'', ''404''}"

fun is_not_found :: "exn \<Rightarrow> bool" where
  "is_not_found (OtherError cls code) \<longleftrightarrow> cls = ''ClientError'' \<and> code \<in> NOT_FOUND_CODES"
| "is_not_found _ = False"

definition s3_healthcheck :: "'b s3_client \<Rightarrow> s3_config \<Rightarrow> 'b \<Rightarrow> bool" where
  "s3_healthcheck X c b = (st_connected c \<and> (case head_bucket X (st_bucket c) b of Inl _ \<Rightarrow> False | Inr _ \<Rightarrow> True))"

definition s3_put :: "'b s3_client \<Rightarrow> s3_config \<Rightarrow> string \<Rightarrow> string \<Rightarrow> string option \<Rightarrow> 'b \<Rightarrow> (exn + unit) \<times> 'b" where
  "s3_put X c key data content_type b = (if \<not> st_connected c then (Inl not_connected, b)
     else put_object X (st_bucket c) key data (if str_truthy content_type then content_type else None) b)"

definition object_body :: "'b s3_client \<Rightarrow> s3_config \<Rightarrow> string \<Rightarrow> 'b \<Rightarrow> exn + string" where
  "object_body X c key b = (if \<not> st_connected c then Inl not_connected
     else (case get_object X (st_bucket c) key b of
         Inl e \<Rightarrow> Inl (if is_not_found e then missing_object key else e)
       | Inr body \<Rightarrow> Inr body))"

definition s3_get :: "'b s3_client \<Rightarrow> s3_config \<Rightarrow> string \<Rightarrow> 'b \<Rightarrow> exn + string" where
  "s3_get X c key b = object_body X c key b"

definition s3_stream :: "'b s3_client \<Rightarrow> s3_config \<Rightarrow> nat \<Rightarrow> string \<Rightarrow> 'b \<Rightarrow> exn + string list" where
  "s3_stream X c chunk_size key b = (case object_body X c key b of
     Inl e \<Rightarrow> Inl e | Inr body \<Rightarrow> Inr (iter_chunks X chunk_size body))"

definition s3_delete :: "'b s3_client \<Rightarrow> s3_config \<Rightarrow> string \<Rightarrow> 'b \<Rightarrow> (exn + unit) \<times> 'b" where
  "s3_delete X c key b = (if \<not> st_connected c then (Inl not_connected, b) else delete_object X (st_bucket c) key b)"

definition s3_exists :: "'b s3_client \<Rightarrow> s3_config \<Rightarrow> string \<Rightarrow> 'b \<Rightarrow> exn + bool" where
  "s3_exists X c key b = (if \<not> st_connected c then Inl not_connected
     else (case head_object X (st_bucket c) key b of
         Inl e \<Rightarrow> if is_not_found e then Inr False else Inl e
       | Inr _ \<Rightarrow> Inr True))"

definition s3_list :: "'b s3_client \<Rightarrow> s3_config \<Rightarrow> string \<Rightarrow> 'b \<Rightarrow> exn + string list" where
  "s3_list X c pre b = (if \<not> st_connected c then Inl not_connected
     else (case list_objects X (st_bucket c) pre b of Inl e \<Rightarrow> Inl e | Inr pages \<Rightarrow> Inr (concat pages)))"

definition s3_presigned_url :: "'b s3_client \<Rightarrow> s3_config \<Rightarrow> string \<Rightarrow> int \<Rightarrow> string \<Rightarrow> exn + string" where
  "s3_presigned_url X c key expires verb =
     (if st_public_url c \<noteq> [] then Inr (st_public_url c @ ''/'' @ key)
      else if \<not> st_connected c then Inl not_connected
      else generate_presigned_url X (if upper verb = ''GET'' then ''get_object'' else ''put_object'')
        (st_bucket c) key (if expires \<noteq> 0 then expires else st_default_expire c))"

definition S3Storage :: "'b s3_client \<Rightarrow> s3_config \<Rightarrow> 'b storage" where
  "S3Storage X c = \<lparr>sg_healthcheck = s3_healthcheck X c, sg_put = s3_put X c, sg_get = s3_get X c,
     sg_stream = s3_stream X c (1024 * 1024), sg_delete = s3_delete X c, sg_exists = s3_exists X c,
     sg_list = s3_list X c, sg_presigned_url = s3_presigned_url X c\<rparr>"

lemmas s3_defs = S3Storage_def s3_put_def s3_get_def s3_stream_def s3_delete_def s3_exists_def s3_list_def object_body_def

text \<open>What S3 documents; not-found answers are given for objects that are not there.\<close>

locale s3_service =
  fixes X :: "'b s3_client"
  assumes put_object_law: "put_object X bucket k x ct b = (r, b') \<Longrightarrow>
      s3_view X b' bucket = (case r of Inl _ \<Rightarrow> s3_view X b bucket | Inr _ \<Rightarrow> (s3_view X b bucket)(k \<mapsto> x))"
    and get_object_law: "get_object X bucket k b = Inr x \<Longrightarrow> s3_view X b bucket k = Some x"
    and get_object_missing: "get_object X bucket k b = Inl e \<Longrightarrow> is_not_found e \<Longrightarrow> s3_view X b bucket k = None"
    and get_object_error: "get_object X bucket k b = Inl e \<Longrightarrow> e \<noteq> missing_object k"
    and head_object_law: "head_object X bucket k b = Inr () \<Longrightarrow> s3_view X b bucket k \<noteq> None"
    and head_object_missing: "head_object X bucket k b = Inl e \<Longrightarrow> is_not_found e \<Longrightarrow> s3_view X b bucket k = None"
    and delete_object_law: "delete_object X bucket k b = (r, b') \<Longrightarrow>
      s3_view X b' bucket = (case r of Inl _ \<Rightarrow> s3_view X b bucket | Inr _ \<Rightarrow> (s3_view X b bucket)(k := None))"
    and list_objects_law: "list_objects X bucket pre b = Inr pages \<Longrightarrow>
      set (concat pages) = {k. startswith k pre \<and> s3_view X b bucket k \<noteq> None}"
    and chunks_law: "0 < n \<Longrightarrow> concat (iter_chunks X n x) = x"
begin

lemma s3_storage: "abstract_storage (S3Storage X c) (\<lambda>b. s3_view X b (st_bucket c))"
proof (unfold_locales, goal_cases)
  case (1 k x ct b b')
  then show ?case using put_object_law [of "st_bucket c" k x] by (auto simp: s3_defs not_connected_def split: if_splits)
next
  case (2 k x ct b e b')
  then show ?case using put_object_law [of "st_bucket c" k x] by (auto simp: s3_defs split: if_splits)
next
  case (3 k b x)
  then show ?case using get_object_law by (auto simp: s3_defs split: if_splits sum.splits)
next
  case (4 k b)
  then show ?case
    by (auto simp: s3_defs not_connected_def missing_object_def split: if_splits sum.splits
        dest: get_object_error [unfolded missing_object_def] intro: get_object_missing)
next
  case (5 k b xs)
  then show ?case using get_object_law chunks_law by (auto simp: s3_defs split: if_splits sum.splits)
next
  case (6 k b b')
  then show ?case using delete_object_law [of "st_bucket c" k] by (auto simp: s3_defs split: if_splits)
next
  case (7 k b e b')
  then show ?case using delete_object_law [of "st_bucket c" k] by (auto simp: s3_defs split: if_splits)
next
  case (8 k b found)
  then show ?case using head_object_law head_object_missing by (auto simp: s3_defs split: if_splits sum.splits)
next
  case (9 pre b ks)
  then show ?case using list_objects_law [of "st_bucket c" pre b] by (auto simp: s3_defs split: if_splits sum.splits)
qed

end

text \<open>A bucket in memory.\<close>

function chunks_of :: "nat \<Rightarrow> string \<Rightarrow> string list" where
  "chunks_of n x = (if x = [] then [] else if n = 0 then [x] else take n x # chunks_of n (drop n x))"
  by pat_completeness auto
termination
  by (relation "measure (\<lambda>(_, x). length x)") auto

declare chunks_of.simps [simp del]

lemma concat_chunks [simp]: "concat (chunks_of n x) = x"
  by (induction n x rule: chunks_of.induct) (subst chunks_of.simps, auto)

definition mem_s3 :: "((string \<times> string) \<times> string) list s3_client" where
  "mem_s3 = \<lparr>s3_view = (\<lambda>b bucket k. map_of b (bucket, k)),
     put_object = (\<lambda>bucket k x ct b. (Inr (), assoc_set (bucket, k) x b)),
     get_object = (\<lambda>bucket k b. case map_of b (bucket, k) of
         None \<Rightarrow> Inl (OtherError ''ClientError'' ''NoSuchKey'') | Some x \<Rightarrow> Inr x),
     head_object = (\<lambda>bucket k b. if map_of b (bucket, k) = None then Inl (OtherError ''ClientError'' ''404'') else Inr ()),
     head_bucket = (\<lambda>bucket b. Inr ()),
     delete_object = (\<lambda>bucket k b. (Inr (), filter (\<lambda>(i, _). i \<noteq> (bucket, k)) b)),
     list_objects = (\<lambda>bucket pre b. Inr [map (snd \<circ> fst) (filter (\<lambda>((bu, k), _). bu = bucket \<and> startswith k pre) b)]),
     generate_presigned_url = (\<lambda>op bucket k t. Inr (''https://s3/'' @ bucket @ ''/'' @ k)),
     iter_chunks = chunks_of\<rparr>"

lemma map_of_drop: "map_of (filter (\<lambda>(i, _). i \<noteq> k) b) = (map_of b)(k := None)"
  by (induction b) (auto simp: fun_eq_iff)

lemma map_of_found: "(\<exists>y. map_of b k = Some y) \<longleftrightarrow> k \<in> fst ` set b"
  by (metis map_of_eq_None_iff not_Some_eq)

lemma mem_s3_service: "s3_service mem_s3"
proof (unfold_locales, goal_cases)
  case (8 bucket pre b pages)
  then show ?case by (auto simp: mem_s3_def map_of_found image_iff) force+
qed (auto simp: mem_s3_def missing_object_def map_of_drop fun_eq_iff split: option.splits if_splits)

interpretation mem_s3: s3_service mem_s3
  by (rule mem_s3_service)

interpretation mem_storage: abstract_storage "S3Storage mem_s3 c" "\<lambda>b. s3_view mem_s3 b (st_bucket c)" for c
  by (rule mem_s3.s3_storage)

end
