(* ===== verification/Files.thy ===== *)
theory Files
  imports Storage
begin

section \<open>The routes of the object storage (app/api/v1/files.py)\<close>

text \<open>
  Upload, link, download and deletion over any \<^verbatim>\<open>AbstractStorage\<close>. The name of the object is made from a
  fresh \<^verbatim>\<open>uuid4().hex\<close> (an argument) and the suffix of the client's file name; \<open>guess\<close> is
  \<^verbatim>\<open>mimetypes.guess_type\<close>. A download is the media type and the stream that the answer will send.
\<close>

text \<open>\<^verbatim>\<open>PurePosixPath(s).name\<close> and \<^verbatim>\<open>.suffix\<close> (Python 3.13).\<close>

definition path_name :: "string \<Rightarrow> string" where
  "path_name s = (let parts = filter (\<lambda>p. p \<noteq> [] \<and> p \<noteq> ''.'') (split_on CHR ''/'' s)
     in if parts = [] then [] else last parts)"

definition path_suffix :: "string \<Rightarrow> string" where
  "path_suffix s = (let name = path_name s;
         after = length (takeWhile (\<lambda>ch. ch \<noteq> CHR ''.'') (rev name));
         i = length name - after - 1
     in if after < length name \<and> 0 < i \<and> i < length name - 1 then drop i name else [])"

record file_uploaded =
  fu_key :: string
  fu_url :: string
  fu_size :: nat
  fu_content_type :: "string option"

definition upload_file ::
  "string option \<Rightarrow> 'b storage \<Rightarrow> string \<Rightarrow> string option \<Rightarrow> string option \<Rightarrow> string \<Rightarrow> 'b \<Rightarrow>
   (exn + file_uploaded server_response) \<times> 'b" where
  "upload_file rid S hex filename content_type data b =
     (let suffix = path_suffix (str_or filename []); key = ''uploads/'' @ hex @ suffix
      in case sg_put S key data content_type b of
           (Inl e, b) \<Rightarrow> (Inl e, b)
         | (Inr _, b) \<Rightarrow> (case sg_presigned_url S key 3600 ''GET'' of
               Inl e \<Rightarrow> (Inl e, b)
             | Inr url \<Rightarrow> (Inr (success rid \<lparr>fu_key = key, fu_url = url, fu_size = length data,
                 fu_content_type = content_type\<rparr> None), b)))"

definition file_url :: "string option \<Rightarrow> 'b storage \<Rightarrow> string \<Rightarrow> 'b \<Rightarrow> exn + json server_response" where
  "file_url rid S key b = (case sg_exists S key b of
     Inl e \<Rightarrow> Inl e
   | Inr found \<Rightarrow> if \<not> found then Inl (NotFoundError ''File not found'')
       else (case sg_presigned_url S key 3600 ''GET'' of
           Inl e \<Rightarrow> Inl e | Inr url \<Rightarrow> Inr (success rid (JObj [(''url'', JStr url)]) None)))"

definition download_file ::
  "'b storage \<Rightarrow> (string \<Rightarrow> string option) \<Rightarrow> string \<Rightarrow> 'b \<Rightarrow> exn + string \<times> (exn + string list)" where
  "download_file S guess key b = (case sg_exists S key b of
     Inl e \<Rightarrow> Inl e
   | Inr found \<Rightarrow> if \<not> found then Inl (NotFoundError ''File not found'')
       else Inr (str_or (guess key) ''application/octet-stream'', sg_stream S key b))"

definition delete_file :: "string option \<Rightarrow> 'b storage \<Rightarrow> string \<Rightarrow> 'b \<Rightarrow> (exn + empty_response) \<times> 'b" where
  "delete_file rid S key b = (case sg_delete S key b of
     (Inl (ObjectNotFoundError _), b) \<Rightarrow> (Inl (NotFoundError ''File not found''), b)
   | (Inl e, b) \<Rightarrow> (Inl e, b)
   | (Inr _, b) \<Rightarrow> (Inr (empty_resp rid), b))"

lemma delete_file_Inr: "delete_file rid S key b = (Inr r, b') \<Longrightarrow> sg_delete S key b = (Inr (), b')"
  by (auto simp: delete_file_def split: prod.splits sum.splits exn.splits)

lemma download_file_Inr: "download_file S guess key b = Inr (mt, body) \<Longrightarrow> body = sg_stream S key b"
  by (auto simp: download_file_def split: sum.splits if_splits)

text \<open>The suffix names no directory.\<close>

lemma path_suffix_no_slash: "CHR ''/'' \<notin> set (path_suffix s)"
proof -
  have "CHR ''/'' \<notin> set (path_name s)"
  proof (cases "filter (\<lambda>p. p \<noteq> [] \<and> p \<noteq> ''.'') (split_on CHR ''/'' s) = []")
    case False
    then have "path_name s = last (filter (\<lambda>p. p \<noteq> [] \<and> p \<noteq> ''.'') (split_on CHR ''/'' s))"
      by (simp add: path_name_def Let_def)
    with last_in_set [OF False] have "path_name s \<in> set (filter (\<lambda>p. p \<noteq> [] \<and> p \<noteq> ''.'') (split_on CHR ''/'' s))"
      by simp
    then show ?thesis by (auto dest: split_on_no_sep)
  qed (simp add: path_name_def)
  then show ?thesis by (auto simp: path_suffix_def Let_def dest: in_set_dropD)
qed



text \<open>
  \<^verbatim>\<open>STORAGE_PRESIGN_EXPIRE\<close> has no effect on the links that the routes give: they ask for the default of
  \<^verbatim>\<open>presigned_url\<close>, 3600 seconds, whatever the setting says.
\<close>

lemma presign_expire_unused:
  "upload_file rid (S3Storage X (c\<lparr>st_default_expire := n\<rparr>)) hex f ct data b = upload_file rid (S3Storage X c) hex f ct data b \<and>
   file_url rid (S3Storage X (c\<lparr>st_default_expire := n\<rparr>)) key b = file_url rid (S3Storage X c) key b"
proof -
  let ?S = "S3Storage X (c\<lparr>st_default_expire := n\<rparr>)"
  have "sg_put ?S = sg_put (S3Storage X c)" "sg_exists ?S = sg_exists (S3Storage X c)"
    "sg_presigned_url ?S k 3600 v = sg_presigned_url (S3Storage X c) k 3600 v" for k v
    by (auto simp: s3_defs s3_presigned_url_def fun_eq_iff)
  then show ?thesis unfolding upload_file_def file_url_def Let_def by (simp only: simp_thms)
qed

end
