(* ===== verification/Health.thy ===== *)
theory Health
  imports Errors Config
begin

section \<open>Health checks (app/api/v1/health.py)\<close>

text \<open>
  Liveness and readiness. What a component answers to its probe is a parameter: \<^verbatim>\<open>SELECT 1\<close>, \<^verbatim>\<open>PING\<close>
  and the \<^verbatim>\<open>healthcheck()\<close> of the broker and of the storage, each of which may raise.
\<close>

record probes =
  pb_postgres :: "exn + unit"
  pb_redis :: "exn + unit"
  pb_broker :: "exn + bool"
  pb_storage :: "exn + bool"

definition liveness :: "string option \<Rightarrow> json server_response" where
  "liveness rid = success rid (JObj [(''status'', JStr ''alive'')]) None"

definition active_config :: "settings \<Rightarrow> json" where
  "active_config c = JObj
     [(''environment'', JStr (environment_value (environment c))),
      (''auth'', JObj [(''jwt'', JBool (auth_jwt_enabled c)), (''global_api_key'', JBool (global_api_key_enabled c)),
         (''token_transport'', JStr (auth_transport_value (auth_token_transport c))),
         (''validate_session'', JBool (auth_validate_session c))]),
      (''broker'', JObj [(''enabled'', JBool (broker_enabled c))]),
      (''storage'', JObj [(''enabled'', JBool (storage_enabled c))]),
      (''outbox'', JObj [(''enabled'', JBool (outbox_enabled c))]),
      (''rate_limit'', JBool (rate_limit_enabled c)),
      (''sentry'', JBool (sentry_dsn c \<noteq> [])),
      (''docs'', JBool (docs_enabled c))]"

definition probe_unit :: "exn + unit \<Rightarrow> string" where
  "probe_unit r = (case r of Inl _ \<Rightarrow> ''down'' | Inr _ \<Rightarrow> ''ok'')"

definition probe_bool :: "exn + bool \<Rightarrow> string" where
  "probe_bool r = (case r of Inl _ \<Rightarrow> ''down'' | Inr up \<Rightarrow> if up then ''ok'' else ''down'')"

definition health_checks :: "settings \<Rightarrow> probes \<Rightarrow> (string \<times> string) list" where
  "health_checks c pb = [(''postgres'', probe_unit (pb_postgres pb)), (''redis'', probe_unit (pb_redis pb))] @
     (if broker_enabled c then [(''broker'', probe_bool (pb_broker pb))] else []) @
     (if storage_enabled c then [(''storage'', probe_bool (pb_storage pb))] else [])"

text \<open>The status code and the envelope.\<close>

definition readiness :: "settings \<Rightarrow> string option \<Rightarrow> probes \<Rightarrow> int \<times> json server_response" where
  "readiness c rid pb =
     (let checks = health_checks c pb;
          healthy = list_all (\<lambda>(_, v). v = ''ok'') checks;
          data = [(''status'', JStr (if healthy then ''ok'' else ''degraded'')),
                  (''checks'', JObj (map (\<lambda>(k, v). (k, JStr v)) checks))];
          data = (if \<not> is_prod c \<or> health_expose_config c then data @ [(''config'', active_config c)] else data)
      in (if healthy then 200 else 503, success rid (JObj data) None))"

text \<open>\<^verbatim>\<open>c'\<close> differs from \<^verbatim>\<open>c\<close> in nothing but secrets and addresses.\<close>

definition same_but_secrets :: "settings \<Rightarrow> settings \<Rightarrow> bool" where
  "same_but_secrets c c' \<longleftrightarrow> (\<exists>jwt key pg_user pg rd s3a s3s msg yk_shop yk docs_user docs bk dsn.
     (dsn = [] \<longleftrightarrow> sentry_dsn c = []) \<and>
     c' = c\<lparr>jwt_secret_key := jwt, global_api_key := key, postgres_user := pg_user, postgres_password := pg,
       redis_password := rd, s3_access_key_id := s3a, s3_secret_access_key := s3s, messages_api_key := msg,
       yookassa_shop_id := yk_shop, yookassa_secret_key := yk, docs_basic_auth_user := docs_user,
       docs_basic_auth_password := docs, broker_url := bk, sentry_dsn := dsn\<rparr>)"

lemma probe_ok [simp]: "probe_unit r = ''ok'' \<longleftrightarrow> r = Inr ()" "probe_bool q = ''ok'' \<longleftrightarrow> q = Inr True"
  by (auto simp: probe_unit_def probe_bool_def split: sum.splits)

lemma healthy_iff: "list_all (\<lambda>(_, v). v = ''ok'') (health_checks c pb) \<longleftrightarrow>
    pb_postgres pb = Inr () \<and> pb_redis pb = Inr () \<and> (broker_enabled c \<longrightarrow> pb_broker pb = Inr True) \<and>
    (storage_enabled c \<longrightarrow> pb_storage pb = Inr True)"
  by (simp add: health_checks_def)

lemma active_config_secret: "same_but_secrets c c' \<Longrightarrow> active_config c' = active_config c"
  by (auto simp: same_but_secrets_def active_config_def)

lemma readiness_secret:
  assumes "same_but_secrets c c'"
  shows "readiness c' rid pb = readiness c rid pb"
proof -
  have "health_checks c' pb = health_checks c pb" "is_prod c' = is_prod c" "health_expose_config c' = health_expose_config c"
    using assms by (auto simp: same_but_secrets_def health_checks_def is_prod_def)
  then show ?thesis unfolding readiness_def active_config_secret [OF assms] by simp
qed

lemma readiness_data:
  "\<exists>d. sr_data (snd (readiness c rid pb)) = JObj d \<and>
      (map_of d ''status'' = Some (JStr ''ok'') \<longleftrightarrow> fst (readiness c rid pb) = 200) \<and>
      (is_prod c \<and> \<not> health_expose_config c \<longrightarrow> map_of d ''config'' = None)"
  by (simp add: readiness_def Let_def)

text \<open>
  C19: Readiness: the answer is 200 exactly when Postgres and Redis and every switched-on component
  answer their probe well, and 503 otherwise; in production the snapshot of the configuration is in the answer only with \<^verbatim>\<open>HEALTH_EXPOSE_CONFIG\<close>; and
  the answer never depends on a secret.
\<close>

theorem readiness_truthful:
  "(fst (readiness c rid pb) = 200 \<longleftrightarrow> pb_postgres pb = Inr () \<and> pb_redis pb = Inr () \<and>
      (broker_enabled c \<longrightarrow> pb_broker pb = Inr True) \<and> (storage_enabled c \<longrightarrow> pb_storage pb = Inr True)) \<and>
   (fst (readiness c rid pb) \<noteq> 200 \<longrightarrow> fst (readiness c rid pb) = 503) \<and>
   (\<exists>d. sr_data (snd (readiness c rid pb)) = JObj d \<and>
      (map_of d ''status'' = Some (JStr ''ok'') \<longleftrightarrow> fst (readiness c rid pb) = 200) \<and>
      (is_prod c \<and> \<not> health_expose_config c \<longrightarrow> map_of d ''config'' = None)) \<and>
   (same_but_secrets c c' \<longrightarrow> readiness c' rid pb = readiness c rid pb)"
proof (intro conjI impI)
  have "fst (readiness c rid pb) = (if list_all (\<lambda>(_, v). v = ''ok'') (health_checks c pb) then 200 else 503)"
    by (simp add: readiness_def Let_def)
  then show "fst (readiness c rid pb) = 200 \<longleftrightarrow> pb_postgres pb = Inr () \<and> pb_redis pb = Inr () \<and>
      (broker_enabled c \<longrightarrow> pb_broker pb = Inr True) \<and> (storage_enabled c \<longrightarrow> pb_storage pb = Inr True)"
    and "fst (readiness c rid pb) \<noteq> 200 \<Longrightarrow> fst (readiness c rid pb) = 503"
    unfolding healthy_iff by (simp_all split: if_splits)
qed (rule readiness_data, rule readiness_secret)

theorem readiness_truthful_witness:
  "fst (readiness (default_settings\<lparr>broker_enabled := True\<rparr>) None
     \<lparr>pb_postgres = Inr (), pb_redis = Inr (), pb_broker = Inr False, pb_storage = Inl IntegrityError\<rparr>) = 503"
  using readiness_truthful [of "default_settings\<lparr>broker_enabled := True\<rparr>" None
      "\<lparr>pb_postgres = Inr (), pb_redis = Inr (), pb_broker = Inr False, pb_storage = Inl IntegrityError\<rparr>"]
  by simp

end
