(* ===== verification/Openapi.thy ===== *)
theory Openapi
  imports Middleware
begin

section \<open>The published schema and the documentation pages (app/core/openapi.py)\<close>

text \<open>
  The schema that FastAPI's \<^verbatim>\<open>get_openapi\<close> makes is a parameter, of the shape OpenAPI prescribes: security
  schemes, and per path its items, which are operations or other values (\<^verbatim>\<open>parameters\<close>). The key gate is a
  middleware and unknown to FastAPI, so the code adds it to the schema; at the end the two are compared.
\<close>

type_synonym requirement = "(string \<times> string list) list"

record operation =
  op_security :: "requirement list option"
  op_rest :: json

datatype path_item = Operation operation | Other json

record openapi_schema =
  oa_security_schemes :: "(string \<times> json) list"
  oa_paths :: "(string \<times> (string \<times> path_item) list) list"
  oa_tags :: "string list"

subsection \<open>Tags\<close>

definition build_tags :: "settings \<Rightarrow> string list" where
  "build_tags c = [''health''] @ (if auth_jwt_enabled c then [''auth''] else []) @ [''users'', ''accounts''] @
     (if broker_enabled c then [''notifications''] else []) @ (if storage_enabled c then [''files''] else [])"

subsection \<open>The description\<close>

text \<open>
  The texts are Russian Markdown and stay parameters; which of them appear, and in which order, is the
  code's. The newline that starts the last two is part of the text.
\<close>

record description_texts =
  dt_head :: string
  dt_tail :: string
  dt_title :: string
  dt_jwt :: string
  dt_key :: string
  dt_both :: string
  dt_service :: string

definition auth_lines :: "settings \<Rightarrow> description_texts \<Rightarrow> string list" where
  "auth_lines c T = [dt_title T] @ (if auth_jwt_enabled c then [dt_jwt T] else []) @
     (if global_api_key_enabled c then [dt_key T] else []) @
     (if auth_jwt_enabled c \<and> global_api_key_enabled c then [dt_both T]
      else if \<not> auth_jwt_enabled c then [dt_service T] else [])"

definition auth_description :: "settings \<Rightarrow> description_texts \<Rightarrow> string" where
  "auth_description c T = (case auth_lines c T of [] \<Rightarrow> []
     | l # ls \<Rightarrow> l @ concat (map (\<lambda>x. CHR 0x0A # x) ls))"

definition build_description :: "settings \<Rightarrow> description_texts \<Rightarrow> string" where
  "build_description c T = dt_head T @ [CHR 0x0A] @ auth_description c T @ [CHR 0x0A] @ dt_tail T"

text \<open>
  A configuration that was accepted describes at least one way in: without JWT the key is required, and
  both are described.
\<close>

lemma description_names_a_way_in:
  "get_settings c = Inr c \<Longrightarrow> auth_lines c T = dt_title T #
     (if \<not> auth_jwt_enabled c then [dt_key T, dt_service T]
      else if global_api_key_enabled c then [dt_jwt T, dt_key T, dt_both T] else [dt_jwt T])"
  by (auto simp: auth_lines_def get_settings_Inr)

subsection \<open>Security of the operations\<close>

definition map_operations :: "(string \<Rightarrow> string \<Rightarrow> operation \<Rightarrow> operation) \<Rightarrow> openapi_schema \<Rightarrow> openapi_schema" where
  "map_operations f schema = schema\<lparr>oa_paths := map (\<lambda>(path, items). (path, map (\<lambda>(verb, item).
     (verb, case item of Operation op \<Rightarrow> Operation (f path verb op) | Other j \<Rightarrow> Other j)) items)) (oa_paths schema)\<rparr>"

definition strip_jwt_operation :: "operation \<Rightarrow> operation" where
  "strip_jwt_operation op = (case op_security op of
     None \<Rightarrow> op
   | Some sec \<Rightarrow> if sec = [] then op
       else (let cleaned = map (filter (\<lambda>(k, _). k \<noteq> ''HTTPBearer'')) sec; cleaned = filter (\<lambda>req. req \<noteq> []) cleaned
         in op\<lparr>op_security := (if cleaned \<noteq> [] then Some cleaned else None)\<rparr>))"

definition strip_jwt :: "openapi_schema \<Rightarrow> openapi_schema" where
  "strip_jwt schema = map_operations (\<lambda>_ _. strip_jwt_operation)
     (schema\<lparr>oa_security_schemes := filter (\<lambda>(k, _). k \<noteq> ''HTTPBearer'') (oa_security_schemes schema)\<rparr>)"

definition http_verbs :: "string list" where
  "http_verbs = [''get'', ''post'', ''put'', ''patch'', ''delete'']"

definition require_key :: "operation \<Rightarrow> operation" where
  "require_key op = op\<lparr>op_security := Some (case op_security op of
     None \<Rightarrow> [[(''ApiKeyAuth'', [])]]
   | Some existing \<Rightarrow> if existing \<noteq> [] then map (assoc_set ''ApiKeyAuth'' []) existing else [[(''ApiKeyAuth'', [])]])\<rparr>"

text \<open>\<open>description\<close> is the text of the scheme.\<close>

definition apply_api_key_gate :: "settings \<Rightarrow> string \<Rightarrow> openapi_schema \<Rightarrow> openapi_schema" where
  "apply_api_key_gate c description schema = map_operations (\<lambda>path verb op.
       if startswith path (api_v1_prefix c @ ''/health'') then op
       else if lower verb \<notin> set http_verbs then op else require_key op)
     (schema\<lparr>oa_security_schemes := assoc_set ''ApiKeyAuth'' (JObj [(''type'', JStr ''apiKey''), (''in'', JStr ''header''),
        (''name'', JStr ''X-API-Key''), (''description'', JStr description)]) (oa_security_schemes schema)\<rparr>)"

text \<open>\<open>cache\<close> is \<^verbatim>\<open>app.openapi_schema\<close>, which the first call fills.\<close>

definition custom_openapi ::
  "settings \<Rightarrow> string \<Rightarrow> openapi_schema \<Rightarrow> openapi_schema option \<Rightarrow> openapi_schema \<times> openapi_schema option" where
  "custom_openapi c description get_openapi cache = (case cache of
     Some schema \<Rightarrow> (schema, cache)
   | None \<Rightarrow>
       (let schema = get_openapi;
            schema = (if \<not> auth_jwt_enabled c then strip_jwt schema else schema);
            schema = (if global_api_key_enabled c then apply_api_key_gate c description schema else schema)
        in (schema, Some schema)))"

definition operation_at :: "openapi_schema \<Rightarrow> string \<Rightarrow> string \<Rightarrow> operation \<Rightarrow> bool" where
  "operation_at schema path verb op \<longleftrightarrow> (\<exists>items. (path, items) \<in> set (oa_paths schema) \<and> (verb, Operation op) \<in> set items)"

lemma operation_at_map:
  "operation_at (map_operations f schema) path verb op \<longleftrightarrow> (\<exists>op'. operation_at schema path verb op' \<and> op = f path verb op')"
  unfolding operation_at_def map_operations_def by (force split: path_item.splits)

lemma operation_at_upd [simp]: "operation_at (schema\<lparr>oa_security_schemes := s\<rparr>) path verb op = operation_at schema path verb op"
  by (simp add: operation_at_def)

text \<open>Every way to call the operation carries the key; an operation without requirements needs none.\<close>

definition needs_key :: "operation \<Rightarrow> bool" where
  "needs_key op \<longleftrightarrow> (\<exists>reqs. op_security op = Some reqs \<and> reqs \<noteq> [] \<and> (\<forall>req \<in> set reqs. ''ApiKeyAuth'' \<in> fst ` set req))"

definition mentions :: "string \<Rightarrow> operation \<Rightarrow> bool" where
  "mentions scheme op \<longleftrightarrow> (\<exists>reqs. op_security op = Some reqs \<and> (\<exists>req \<in> set reqs. scheme \<in> fst ` set req))"

lemma fst_assoc_set_mem: "k \<in> fst ` set (assoc_set a v xs) \<longleftrightarrow> k = a \<or> k \<in> fst ` set xs"
  by (metis domIff dom_map_of_conv_image_fst fun_upd_apply map_of_assoc_set option.distinct(1))

lemma require_key_needs: "needs_key (require_key op)"
  by (auto simp: needs_key_def require_key_def fst_assoc_set_mem split: option.splits)

lemma require_key_mentions: "s \<noteq> ''ApiKeyAuth'' \<Longrightarrow> mentions s (require_key op) = mentions s op"
  by (auto simp: mentions_def require_key_def fst_assoc_set_mem split: option.splits)

lemma strip_jwt_mentions: "\<not> mentions ''HTTPBearer'' (strip_jwt_operation op)"
  by (auto simp: mentions_def strip_jwt_operation_def Let_def split: option.splits if_splits)

lemma strip_jwt_mentions_less: "mentions s (strip_jwt_operation op) \<Longrightarrow> mentions s op"
  by (force simp: mentions_def strip_jwt_operation_def Let_def split: option.splits if_splits)

subsection \<open>Documentation pages\<close>

definition docs_has_basic_auth :: "settings \<Rightarrow> bool" where
  "docs_has_basic_auth c \<longleftrightarrow> docs_basic_auth_user c \<noteq> [] \<and> docs_basic_auth_password c \<noteq> []"

definition docs_visible :: "settings \<Rightarrow> bool" where
  "docs_visible c \<longleftrightarrow> docs_enabled c \<and> \<not> (is_prod c \<and> \<not> docs_has_basic_auth c)"

text \<open>\<open>given\<close> are the credentials of the request; without any, \<^verbatim>\<open>HTTPBasic\<close> itself answers 401.\<close>

definition docs_auth :: "settings \<Rightarrow> (string \<times> string) option \<Rightarrow> exn + unit" where
  "docs_auth c given = (if \<not> docs_has_basic_auth c then Inr ()
     else (case given of
         None \<Rightarrow> Inl (HTTPError 401 ''Not authenticated'' (Some [(''WWW-Authenticate'', ''Basic'')]))
       | Some (username, password) \<Rightarrow>
           (let user_ok = (username = docs_basic_auth_user c); pass_ok = (password = docs_basic_auth_password c)
            in if \<not> (user_ok \<and> pass_ok)
               then Inl (HTTPError 401 ''Invalid documentation credentials'' (Some [(''WWW-Authenticate'', ''Basic'')]))
               else Inr ())))"

definition docs_paths :: "string list" where
  "docs_paths = [''/openapi.json'', ''/docs'', ''/redoc'']"

definition register_docs :: "settings \<Rightarrow> (string \<times> ((string \<times> string) option \<Rightarrow> exn + unit)) list" where
  "register_docs c = (if \<not> docs_visible c then [] else map (\<lambda>path. (path, docs_auth c)) docs_paths)"

lemma prod_docs_need_password:
  "is_prod c \<Longrightarrow> (path, dep) \<in> set (register_docs c) \<Longrightarrow>
   (\<exists>e. dep given = Inl e \<and> he_status (handle_exception rid e) = 401) \<or>
   given = Some (docs_basic_auth_user c, docs_basic_auth_password c) \<and> docs_basic_auth_password c \<noteq> []"
  by (auto simp: register_docs_def docs_visible_def docs_auth_def docs_has_basic_auth_def Let_def http_exception_handler_def
      render_def split: option.splits if_splits)

subsection \<open>The schema and the gate agree\<close>

lemma served_operation:
  assumes "operation_at (fst (custom_openapi c descr schema None)) path verb op"
  obtains op0 where "operation_at schema path verb op0"
    "op = (let op1 = (if auth_jwt_enabled c then op0 else strip_jwt_operation op0)
           in if global_api_key_enabled c \<and> \<not> startswith path (api_v1_prefix c @ ''/health'') \<and> lower verb \<in> set http_verbs
              then require_key op1 else op1)"
proof -
  have "\<exists>op0. operation_at schema path verb op0 \<and>
      op = (let op1 = (if auth_jwt_enabled c then op0 else strip_jwt_operation op0)
           in if global_api_key_enabled c \<and> \<not> startswith path (api_v1_prefix c @ ''/health'') \<and> lower verb \<in> set http_verbs
              then require_key op1 else op1)"
    using assms
    by (auto simp: custom_openapi_def strip_jwt_def apply_api_key_gate_def operation_at_map Let_def split: if_splits)
  then show ?thesis using that by blast
qed

text \<open>
  C17: The schema says what the gate does: if FastAPI's schema does not know the key and the path is not
  one of the documentation pages, then a published operation demands the key in every alternative
  exactly when the middleware refuses a request to its path that carries no key (the configured key being ASCII); the Bearer demands of
  the routes are all still there with tokens switched on, and none is left with tokens switched off.
\<close>

theorem schema_matches_gate:
  assumes "operation_at (fst (custom_openapi c descr schema None)) path verb op"
    and "\<And>op0. operation_at schema path verb op0 \<Longrightarrow> \<not> mentions ''ApiKeyAuth'' op0" "lower verb \<in> set http_verbs"
    and "\<not> startswith path ''/docs'' \<and> \<not> startswith path ''/redoc'' \<and> \<not> startswith path ''/openapi.json''"
    and "hs_type sc = ''http''" "hs_path sc = path" "last_header sc ''x-api-key'' = []" "is_ascii (global_api_key c)"
  shows "(needs_key op \<longleftrightarrow> (\<forall>app :: ('r, 'w, unit) asgi. ApiKeyMiddleware c app sc rid s = (Inr (reject_key rid), s))) \<and>
    (mentions ''HTTPBearer'' op \<longrightarrow> auth_jwt_enabled c) \<and>
    (auth_jwt_enabled c \<longrightarrow> (\<exists>op0. operation_at schema path verb op0 \<and> mentions ''HTTPBearer'' op = mentions ''HTTPBearer'' op0))"
proof -
  obtain op0 where op0: "operation_at schema path verb op0"
    "op = (let op1 = (if auth_jwt_enabled c then op0 else strip_jwt_operation op0)
           in if global_api_key_enabled c \<and> \<not> startswith path (api_v1_prefix c @ ''/health'') \<and> lower verb \<in> set http_verbs
              then require_key op1 else op1)"
    using served_operation [OF assms(1)] .
  define op1 where "op1 = (if auth_jwt_enabled c then op0 else strip_jwt_operation op0)"
  let ?gated = "global_api_key_enabled c \<and> \<not> startswith path (api_v1_prefix c @ ''/health'')"
  have op: "op = (if ?gated then require_key op1 else op1)" using op0(2) assms(3) by (simp add: op1_def Let_def)
  have "\<not> mentions ''ApiKeyAuth'' op1"
    using assms(2) [OF op0(1)] strip_jwt_mentions_less by (auto simp: op1_def)
  then have "\<not> needs_key op1" by (auto simp: needs_key_def mentions_def neq_Nil_conv)
  then have needs: "needs_key op \<longleftrightarrow> ?gated" by (simp add: op require_key_needs)
  have exempt: "is_exempt c sc \<longleftrightarrow> startswith path (api_v1_prefix c @ ''/health'')"
    using assms(4,6) by (auto simp: is_exempt_def exempt_prefixes_def)
  have refused: "(\<forall>app :: ('r, 'w, unit) asgi. ApiKeyMiddleware c app sc rid s = (Inr (reject_key rid), s)) \<longleftrightarrow> ?gated"
  proof
    assume "\<forall>app :: ('r, 'w, unit) asgi. ApiKeyMiddleware c app sc rid s = (Inr (reject_key rid), s)"
    from spec [OF this, of "\<lambda>_ _ s. (Inr \<lparr>hr_status = 200, hr_headers = [], hr_body = Body ()\<rparr>, s)"]
    show ?gated using assms(5) exempt by (auto simp: ApiKeyMiddleware_def reject_key_def split: if_splits)
  next
    assume ?gated
    then show "\<forall>app :: ('r, 'w, unit) asgi. ApiKeyMiddleware c app sc rid s = (Inr (reject_key rid), s)"
      using assms(5,7,8) exempt by (auto simp: ApiKeyMiddleware_def decoded_def is_valid_key_def is_ascii_def Let_def)
  qed
  have bearer: "mentions ''HTTPBearer'' op = mentions ''HTTPBearer'' op1" by (simp add: op require_key_mentions)
  show ?thesis using needs refused bearer op0(1) strip_jwt_mentions by (auto simp: op1_def)
qed

definition demo_schema :: openapi_schema where
  "demo_schema = \<lparr>oa_security_schemes = [(''HTTPBearer'', JNull)],
     oa_paths = [(''/api/v1/users/{user_id}'', [(''get'', Operation \<lparr>op_security = Some [[(''HTTPBearer'', [])]], op_rest = JNull\<rparr>)])],
     oa_tags = []\<rparr>"

theorem schema_matches_gate_witness:
  "let c = default_settings\<lparr>global_api_key_enabled := True, global_api_key := ''k''\<rparr>;
       op = \<lparr>op_security = Some [[(''HTTPBearer'', []), (''ApiKeyAuth'', [])]], op_rest = JNull\<rparr>
   in operation_at (fst (custom_openapi c [] demo_schema None)) ''/api/v1/users/{user_id}'' ''get'' op \<and>
     (\<forall>app :: (mem, unit, unit) asgi. ApiKeyMiddleware c app (demo_scope\<lparr>hs_path := ''/api/v1/users/{user_id}''\<rparr>) None (Map.empty, ()) =
       (Inr (reject_key None), Map.empty, ()))"
proof -
  let ?c = "default_settings\<lparr>global_api_key_enabled := True, global_api_key := ''k''\<rparr>"
  let ?op = "\<lparr>op_security = Some [[(''HTTPBearer'', []), (''ApiKeyAuth'', [])]], op_rest = JNull\<rparr>"
  let ?path = "''/api/v1/users/{user_id}''"
  have at0: "operation_at demo_schema ?path ''get'' op0 \<longleftrightarrow> op0 = \<lparr>op_security = Some [[(''HTTPBearer'', [])]], op_rest = JNull\<rparr>" for op0
    by (auto simp: operation_at_def demo_schema_def)
  have c: "auth_jwt_enabled ?c" "api_v1_prefix ?c = ''/api/v1''" by (simp_all add: default_settings_def)
  have verb: "lower ''get'' \<in> set http_verbs" by code_simp
  have op: "operation_at (fst (custom_openapi ?c [] demo_schema None)) ?path ''get'' ?op"
    using verb by (simp add: custom_openapi_def Let_def apply_api_key_gate_def operation_at_map at0 c startswith_def require_key_def)
  have "?path = hs_path (demo_scope\<lparr>hs_path := ?path\<rparr>)" by simp
  have "needs_key ?op" by (simp add: needs_key_def)
  moreover have "needs_key ?op \<longleftrightarrow> (\<forall>app :: (mem, unit, unit) asgi. ApiKeyMiddleware ?c app (demo_scope\<lparr>hs_path := ?path\<rparr>) None (Map.empty, ()) =
       (Inr (reject_key None), Map.empty, ()))"
    by (rule conjunct1 [OF schema_matches_gate [OF op _ verb]])
      (auto simp: at0 mentions_def startswith_def demo_scope_def last_header_def is_ascii_def byte_def)
  ultimately show ?thesis using op by (simp add: Let_def)
qed

end
