(* ===== verification/Migrations.thy ===== *)
theory Migrations
  imports Prelude
begin

section \<open>The database schema: migrations and models\<close>

text \<open>
  \<^verbatim>\<open>migrations/versions\<close> (the six Alembic revisions), the helpers of \<^verbatim>\<open>app/db/ddl.py\<close>, and the schema
  that the models declare (\<^verbatim>\<open>app/models\<close>, with the naming convention of \<^verbatim>\<open>app/models/base.py\<close>). A schema
  maps the tables to their columns, constraints and indexes. An operation that PostgreSQL refuses (a
  table that is not there, a column without a default that may not be null in a table with rows) fails,
  and with it the migration, which runs in a transaction. \<open>populated\<close> are the tables with rows.
\<close>

subsection \<open>Schemas\<close>

datatype sql_type = UuidT | StringT nat | BooleanT | IntegerT | BigIntegerT | DateTimeT | JsonT

text \<open>A server default, by the value it denotes.\<close>

datatype server_default = GenRandomUuid | Now | BoolDefault bool | IntDefault int | StrDefault string

record column =
  cl_type :: sql_type
  cl_default :: "server_default option"
  cl_nullable :: bool

datatype constraint =
    PrimaryKey string "string list"
  | Unique string "string list"
  | ForeignKeyCascade string string string

record db_index =
  ix_name :: string
  ix_columns :: "string list"
  ix_unique :: bool
  ix_where :: "string option"
  ix_gin :: bool

record table_schema =
  ts_columns :: "string \<rightharpoonup> column"
  ts_constraints :: "constraint set"
  ts_indexes :: "db_index set"

record db_schema =
  sc_tables :: "string \<rightharpoonup> table_schema"
  sc_extensions :: "string set"

definition empty_schema :: db_schema where
  "empty_schema = \<lparr>sc_tables = Map.empty, sc_extensions = {}\<rparr>"

fun constraint_name :: "constraint \<Rightarrow> string" where
  "constraint_name (PrimaryKey n _) = n"
| "constraint_name (Unique n _) = n"
| "constraint_name (ForeignKeyCascade n _ _) = n"

text \<open>Every foreign key here is on one column, to the \<^verbatim>\<open>id\<close> of a table, with \<^verbatim>\<open>ON DELETE CASCADE\<close>.\<close>

abbreviation col :: "sql_type \<Rightarrow> column" where
  "col t \<equiv> \<lparr>cl_type = t, cl_default = None, cl_nullable = False\<rparr>"

abbreviation nullable :: "sql_type \<Rightarrow> column" where
  "nullable t \<equiv> \<lparr>cl_type = t, cl_default = None, cl_nullable = True\<rparr>"

abbreviation defaulting :: "sql_type \<Rightarrow> server_default \<Rightarrow> column" where
  "defaulting t d \<equiv> \<lparr>cl_type = t, cl_default = Some d, cl_nullable = False\<rparr>"

abbreviation plain_index :: "string \<Rightarrow> string list \<Rightarrow> db_index" where
  "plain_index n cs \<equiv> \<lparr>ix_name = n, ix_columns = cs, ix_unique = False, ix_where = None, ix_gin = False\<rparr>"

subsection \<open>Operations of a migration\<close>

datatype ddl =
    CreateTable string "(string \<times> column) list" "constraint list"
  | DropTable string
  | AddColumn string string column
  | DropColumn string string
  | AlterDefault string string "server_default option"
  | CreateIndex string db_index bool
  | DropIndex string string bool
  | AddConstraint string constraint
  | DropConstraint string string
  | CreateExtension string

definition on_table :: "string \<Rightarrow> (table_schema \<Rightarrow> table_schema option) \<Rightarrow> db_schema \<Rightarrow> db_schema option" where
  "on_table t f s = (case sc_tables s t of None \<Rightarrow> None
     | Some ts \<Rightarrow> (case f ts of None \<Rightarrow> None | Some ts' \<Rightarrow> Some (s\<lparr>sc_tables := (sc_tables s)(t \<mapsto> ts')\<rparr>)))"

text \<open>A foreign key needs its table; that a dropped table is still referred to is not checked.\<close>

fun refers :: "db_schema \<Rightarrow> constraint \<Rightarrow> bool" where
  "refers s (ForeignKeyCascade _ _ t) \<longleftrightarrow> sc_tables s t \<noteq> None"
| "refers s _ = True"

text \<open>The flag of the index operations is \<^verbatim>\<open>if_not_exists\<close> and \<^verbatim>\<open>if_exists\<close>.\<close>

fun exec_ddl :: "string set \<Rightarrow> ddl \<Rightarrow> db_schema \<Rightarrow> db_schema option" where
  "exec_ddl populated (CreateTable t cols cons) s = (if sc_tables s t \<noteq> None \<or> \<not> list_all (refers s) cons then None
     else Some (s\<lparr>sc_tables := (sc_tables s)(t \<mapsto> \<lparr>ts_columns = map_of cols, ts_constraints = set cons, ts_indexes = {}\<rparr>)\<rparr>))"
| "exec_ddl populated (DropTable t) s = (if sc_tables s t = None then None
     else Some (s\<lparr>sc_tables := (sc_tables s)(t := None)\<rparr>))"
| "exec_ddl populated (AddColumn t c d) s = on_table t (\<lambda>ts.
     if ts_columns ts c \<noteq> None \<or> (t \<in> populated \<and> \<not> cl_nullable d \<and> cl_default d = None) then None
     else Some (ts\<lparr>ts_columns := (ts_columns ts)(c \<mapsto> d)\<rparr>)) s"
| "exec_ddl populated (DropColumn t c) s = on_table t (\<lambda>ts.
     if ts_columns ts c = None then None else Some (ts\<lparr>ts_columns := (ts_columns ts)(c := None)\<rparr>)) s"
| "exec_ddl populated (AlterDefault t c d) s = on_table t (\<lambda>ts.
     case ts_columns ts c of None \<Rightarrow> None
     | Some old \<Rightarrow> Some (ts\<lparr>ts_columns := (ts_columns ts)(c \<mapsto> old\<lparr>cl_default := d\<rparr>)\<rparr>)) s"
| "exec_ddl populated (CreateIndex t ix quiet) s = on_table t (\<lambda>ts.
     if \<exists>i \<in> ts_indexes ts. ix_name i = ix_name ix then (if quiet then Some ts else None)
     else Some (ts\<lparr>ts_indexes := insert ix (ts_indexes ts)\<rparr>)) s"
| "exec_ddl populated (DropIndex t name quiet) s = on_table t (\<lambda>ts.
     if \<exists>i \<in> ts_indexes ts. ix_name i = name then Some (ts\<lparr>ts_indexes := {i \<in> ts_indexes ts. ix_name i \<noteq> name}\<rparr>)
     else (if quiet then Some ts else None)) s"
| "exec_ddl populated (AddConstraint t c) s = on_table t (\<lambda>ts.
     if \<exists>i \<in> ts_constraints ts. constraint_name i = constraint_name c then None
     else Some (ts\<lparr>ts_constraints := insert c (ts_constraints ts)\<rparr>)) s"
| "exec_ddl populated (DropConstraint t name) s = on_table t (\<lambda>ts.
     if \<exists>i \<in> ts_constraints ts. constraint_name i = name
     then Some (ts\<lparr>ts_constraints := {i \<in> ts_constraints ts. constraint_name i \<noteq> name}\<rparr>) else None) s"
| "exec_ddl populated (CreateExtension e) s = Some (s\<lparr>sc_extensions := insert e (sc_extensions s)\<rparr>)"

fun exec_all :: "string set \<Rightarrow> ddl list \<Rightarrow> db_schema \<Rightarrow> db_schema option" where
  "exec_all populated [] s = Some s"
| "exec_all populated (d # ds) s = (case exec_ddl populated d s of None \<Rightarrow> None | Some s' \<Rightarrow> exec_all populated ds s')"

subsection \<open>Helpers (app/db/ddl.py)\<close>

definition ensure_pg_trgm :: "string \<Rightarrow> ddl list" where
  "ensure_pg_trgm dialect = (if dialect = ''postgresql'' then [CreateExtension ''pg_trgm''] else [])"

definition create_trgm_index :: "string \<Rightarrow> string \<Rightarrow> string \<Rightarrow> string list \<Rightarrow> ddl list" where
  "create_trgm_index dialect name t columns = (if dialect \<noteq> ''postgresql'' then []
     else [CreateIndex t \<lparr>ix_name = name, ix_columns = columns, ix_unique = False, ix_where = None, ix_gin = True\<rparr> True])"

definition drop_trgm_index :: "string \<Rightarrow> string \<Rightarrow> string \<Rightarrow> ddl list" where
  "drop_trgm_index dialect name t = (if dialect = ''postgresql'' then [DropIndex t name True] else [])"

subsection \<open>The revisions\<close>

definition id_column :: "string \<times> column" where
  "id_column = (''id'', defaulting UuidT GenRandomUuid)"

definition stamp :: "string \<Rightarrow> string \<times> column" where
  "stamp name = (name, defaulting DateTimeT Now)"

definition upgrade_0001 :: "ddl list" where
  "upgrade_0001 =
     [CreateTable ''users''
        [id_column, (''email'', col (StringT 320)), (''full_name'', col (StringT 255)),
         (''is_active'', defaulting BooleanT (BoolDefault True)), (''hashed_password'', nullable (StringT 255)),
         (''role'', defaulting (StringT 32) (StrDefault ''user'')), stamp ''created_at'', stamp ''updated_at'']
        [PrimaryKey ''pk_users'' [''id''], Unique ''uq_users_email'' [''email'']],
      CreateIndex ''users'' ((plain_index ''ix_users_email'' [''email''])\<lparr>ix_unique := True\<rparr>) False]"

definition downgrade_0001 :: "ddl list" where
  "downgrade_0001 = [DropIndex ''users'' ''ix_users_email'' False, DropTable ''users'']"

definition upgrade_0002 :: "ddl list" where
  "upgrade_0002 =
     [CreateTable ''outbox_messages''
        [id_column, (''topic'', col (StringT 255)), (''payload'', col JsonT), (''key'', nullable (StringT 255)),
         stamp ''created_at'', (''published_at'', nullable DateTimeT), (''attempts'', defaulting IntegerT (IntDefault 0))]
        [PrimaryKey ''pk_outbox_messages'' [''id'']],
      CreateIndex ''outbox_messages'' ((plain_index ''ix_outbox_unpublished'' [''created_at''])\<lparr>ix_where :=
        Some ''published_at IS NULL''\<rparr>) False]"

definition downgrade_0002 :: "ddl list" where
  "downgrade_0002 = [DropIndex ''outbox_messages'' ''ix_outbox_unpublished'' False, DropTable ''outbox_messages'']"

definition upgrade_0003 :: "ddl list" where
  "upgrade_0003 = [AddColumn ''users'' ''version_id'' (defaulting IntegerT (IntDefault 1))]"

definition downgrade_0003 :: "ddl list" where
  "downgrade_0003 = [DropColumn ''users'' ''version_id'']"

definition upgrade_0004 :: "ddl list" where
  "upgrade_0004 =
     [CreateTable ''profiles''
        [id_column, (''user_id'', col UuidT), (''bio'', nullable (StringT 500)), (''avatar_url'', nullable (StringT 500)),
         stamp ''created_at'', stamp ''updated_at'']
        [ForeignKeyCascade ''fk_profiles_user_id_users'' ''user_id'' ''users'', PrimaryKey ''pk_profiles'' [''id''],
         Unique ''uq_profiles_user_id'' [''user_id'']],
      CreateTable ''accounts''
        [id_column, (''user_id'', col UuidT), (''name'', col (StringT 255)),
         (''balance'', defaulting BigIntegerT (IntDefault 0)), stamp ''created_at'', stamp ''updated_at'']
        [ForeignKeyCascade ''fk_accounts_user_id_users'' ''user_id'' ''users'', PrimaryKey ''pk_accounts'' [''id'']],
      CreateIndex ''accounts'' (plain_index ''ix_accounts_user_id'' [''user_id'']) False,
      CreateTable ''transactions''
        [id_column, (''account_id'', col UuidT), (''amount'', col BigIntegerT), (''kind'', col (StringT 20)), stamp ''created_at'']
        [ForeignKeyCascade ''fk_transactions_account_id_accounts'' ''account_id'' ''accounts'', PrimaryKey ''pk_transactions'' [''id'']],
      CreateIndex ''transactions'' (plain_index ''ix_transactions_account_id'' [''account_id'']) False,
      CreateTable ''categories'' [id_column, (''name'', col (StringT 100))]
        [PrimaryKey ''pk_categories'' [''id''], Unique ''uq_categories_name'' [''name'']],
      CreateTable ''transaction_categories'' [(''transaction_id'', col UuidT), (''category_id'', col UuidT)]
        [ForeignKeyCascade ''fk_transaction_categories_transaction_id_transactions'' ''transaction_id'' ''transactions'',
         ForeignKeyCascade ''fk_transaction_categories_category_id_categories'' ''category_id'' ''categories'',
         PrimaryKey ''pk_transaction_categories'' [''transaction_id'', ''category_id'']]]"

definition downgrade_0004 :: "ddl list" where
  "downgrade_0004 = [DropTable ''transaction_categories'', DropTable ''categories'',
     DropIndex ''transactions'' ''ix_transactions_account_id'' False, DropTable ''transactions'',
     DropIndex ''accounts'' ''ix_accounts_user_id'' False, DropTable ''accounts'', DropTable ''profiles'']"

definition upgrade_0005 :: "string \<Rightarrow> ddl list" where
  "upgrade_0005 dialect = ensure_pg_trgm dialect @
     create_trgm_index dialect ''ix_users_full_name_trgm'' ''users'' [''full_name''] @
     create_trgm_index dialect ''ix_users_email_trgm'' ''users'' [''email'']"

definition downgrade_0005 :: "string \<Rightarrow> ddl list" where
  "downgrade_0005 dialect = drop_trgm_index dialect ''ix_users_email_trgm'' ''users'' @
     drop_trgm_index dialect ''ix_users_full_name_trgm'' ''users''"

definition upgrade_0006 :: "ddl list" where
  "upgrade_0006 = [AddColumn ''transactions'' ''acquirer'' (col (StringT 20)),
     AlterDefault ''users'' ''is_active'' None, AlterDefault ''users'' ''role'' None,
     AlterDefault ''users'' ''version_id'' None, DropConstraint ''users'' ''uq_users_email'']"

definition downgrade_0006 :: "ddl list" where
  "downgrade_0006 = [AddConstraint ''users'' (Unique ''uq_users_email'' [''email'']),
     AlterDefault ''users'' ''version_id'' (Some (IntDefault 1)),
     AlterDefault ''users'' ''role'' (Some (StrDefault ''user'')),
     AlterDefault ''users'' ''is_active'' (Some (BoolDefault True)), DropColumn ''transactions'' ''acquirer'']"

text \<open>Each module: its revision, the one before it, upgrade and downgrade (on PostgreSQL).\<close>

definition revisions :: "(string \<times> string option \<times> ddl list \<times> ddl list) list" where
  "revisions = [(''0001_initial'', None, upgrade_0001, downgrade_0001),
     (''0002_outbox'', Some ''0001_initial'', upgrade_0002, downgrade_0002),
     (''0003_user_version'', Some ''0002_outbox'', upgrade_0003, downgrade_0003),
     (''0004_accounts'', Some ''0003_user_version'', upgrade_0004, downgrade_0004),
     (''0005_pg_trgm'', Some ''0004_accounts'', upgrade_0005 ''postgresql'', downgrade_0005 ''postgresql''),
     (''0006_add_acquirer'', Some ''0005_pg_trgm'', upgrade_0006, downgrade_0006)]"

lemma one_head: "map (\<lambda>(_, down, _). down) revisions = None # map (\<lambda>(r, _). Some r) (butlast revisions)"
  by (simp add: revisions_def)

subsection \<open>The models (app/models)\<close>

text \<open>
  What \<^verbatim>\<open>Base.metadata\<close> holds: the columns of the mixins and of each class, keys and foreign keys named by
  the convention; \<^verbatim>\<open>unique=True, index=True\<close> together are one unique index.
\<close>

definition NAMING_pk :: "string \<Rightarrow> string" where
  "NAMING_pk t = ''pk_'' @ t"

definition NAMING_uq :: "string \<Rightarrow> string \<Rightarrow> string" where
  "NAMING_uq t c = ''uq_'' @ t @ ''_'' @ c"

definition NAMING_fk :: "string \<Rightarrow> string \<Rightarrow> string \<Rightarrow> string" where
  "NAMING_fk t c r = ''fk_'' @ t @ ''_'' @ c @ ''_'' @ r"

definition NAMING_ix :: "string \<Rightarrow> string \<Rightarrow> string" where
  "NAMING_ix t c = ''ix_'' @ t @ ''_'' @ c"

definition trgm_index :: "string \<Rightarrow> string list \<Rightarrow> db_index" where
  "trgm_index name columns = (plain_index name columns)\<lparr>ix_gin := True\<rparr>"

definition UUIDPrimaryKeyMixin :: "(string \<times> column) list" where
  "UUIDPrimaryKeyMixin = [(''id'', defaulting UuidT GenRandomUuid)]"

definition TimestampCreatedMixin :: "(string \<times> column) list" where
  "TimestampCreatedMixin = [(''created_at'', defaulting DateTimeT Now)]"

definition TimestampMixin :: "(string \<times> column) list" where
  "TimestampMixin = [(''created_at'', defaulting DateTimeT Now), (''updated_at'', defaulting DateTimeT Now)]"

definition VersionedMixin :: "(string \<times> column) list" where
  "VersionedMixin = [(''version_id'', col IntegerT)]"

definition pk_id :: "string \<Rightarrow> constraint" where
  "pk_id t = PrimaryKey (NAMING_pk t) [''id'']"

definition fk :: "string \<Rightarrow> string \<Rightarrow> string \<Rightarrow> constraint" where
  "fk t c r = ForeignKeyCascade (NAMING_fk t c r) c r"

definition users_model :: table_schema where
  "users_model = \<lparr>ts_columns = map_of (UUIDPrimaryKeyMixin @ TimestampMixin @ VersionedMixin @
       [(''email'', col (StringT 320)), (''full_name'', col (StringT 255)), (''is_active'', col BooleanT),
        (''hashed_password'', nullable (StringT 255)), (''role'', col (StringT 32))]),
     ts_constraints = {pk_id ''users''},
     ts_indexes = {trgm_index ''ix_users_full_name_trgm'' [''full_name''], trgm_index ''ix_users_email_trgm'' [''email''],
       (plain_index (NAMING_ix ''users'' ''email'') [''email''])\<lparr>ix_unique := True\<rparr>}\<rparr>"

definition profiles_model :: table_schema where
  "profiles_model = \<lparr>ts_columns = map_of (UUIDPrimaryKeyMixin @ TimestampMixin @
       [(''user_id'', col UuidT), (''bio'', nullable (StringT 500)), (''avatar_url'', nullable (StringT 500))]),
     ts_constraints = {pk_id ''profiles'', fk ''profiles'' ''user_id'' ''users'', Unique (NAMING_uq ''profiles'' ''user_id'') [''user_id'']},
     ts_indexes = {}\<rparr>"

definition accounts_model :: table_schema where
  "accounts_model = \<lparr>ts_columns = map_of (UUIDPrimaryKeyMixin @ TimestampMixin @
       [(''user_id'', col UuidT), (''name'', col (StringT 255)), (''balance'', defaulting BigIntegerT (IntDefault 0))]),
     ts_constraints = {pk_id ''accounts'', fk ''accounts'' ''user_id'' ''users''},
     ts_indexes = {plain_index (NAMING_ix ''accounts'' ''user_id'') [''user_id'']}\<rparr>"

definition transactions_model :: table_schema where
  "transactions_model = \<lparr>ts_columns = map_of (UUIDPrimaryKeyMixin @ TimestampCreatedMixin @
       [(''account_id'', col UuidT), (''amount'', col BigIntegerT), (''kind'', col (StringT 20)), (''acquirer'', col (StringT 20))]),
     ts_constraints = {pk_id ''transactions'', fk ''transactions'' ''account_id'' ''accounts''},
     ts_indexes = {plain_index (NAMING_ix ''transactions'' ''account_id'') [''account_id'']}\<rparr>"

definition categories_model :: table_schema where
  "categories_model = \<lparr>ts_columns = map_of (UUIDPrimaryKeyMixin @ [(''name'', col (StringT 100))]),
     ts_constraints = {pk_id ''categories'', Unique (NAMING_uq ''categories'' ''name'') [''name'']}, ts_indexes = {}\<rparr>"

definition transaction_categories_model :: table_schema where
  "transaction_categories_model = \<lparr>ts_columns = map_of [(''transaction_id'', col UuidT), (''category_id'', col UuidT)],
     ts_constraints = {fk ''transaction_categories'' ''transaction_id'' ''transactions'',
       fk ''transaction_categories'' ''category_id'' ''categories'',
       PrimaryKey (NAMING_pk ''transaction_categories'') [''transaction_id'', ''category_id'']}, ts_indexes = {}\<rparr>"

definition outbox_messages_model :: table_schema where
  "outbox_messages_model = \<lparr>ts_columns = map_of (UUIDPrimaryKeyMixin @
       [(''topic'', col (StringT 255)), (''payload'', col JsonT), (''key'', nullable (StringT 255)),
        (''created_at'', defaulting DateTimeT Now), (''published_at'', nullable DateTimeT),
        (''attempts'', defaulting IntegerT (IntDefault 0))]),
     ts_constraints = {pk_id ''outbox_messages''},
     ts_indexes = {(plain_index ''ix_outbox_unpublished'' [''created_at''])\<lparr>ix_where := Some ''published_at IS NULL''\<rparr>}\<rparr>"

definition metadata :: db_schema where
  "metadata = \<lparr>sc_tables = [''users'' \<mapsto> users_model, ''profiles'' \<mapsto> profiles_model, ''accounts'' \<mapsto> accounts_model,
     ''transactions'' \<mapsto> transactions_model, ''categories'' \<mapsto> categories_model,
     ''transaction_categories'' \<mapsto> transaction_categories_model, ''outbox_messages'' \<mapsto> outbox_messages_model],
     sc_extensions = {''pg_trgm''}\<rparr>"

subsection \<open>Running the chain\<close>

definition users_at_1 :: table_schema where
  "users_at_1 = \<lparr>ts_columns = map_of [id_column, (''email'', col (StringT 320)), (''full_name'', col (StringT 255)),
     (''is_active'', defaulting BooleanT (BoolDefault True)), (''hashed_password'', nullable (StringT 255)),
     (''role'', defaulting (StringT 32) (StrDefault ''user'')), stamp ''created_at'', stamp ''updated_at''],
     ts_constraints = {PrimaryKey ''pk_users'' [''id''], Unique ''uq_users_email'' [''email'']},
     ts_indexes = {(plain_index ''ix_users_email'' [''email''])\<lparr>ix_unique := True\<rparr>}\<rparr>"

definition users_at_3 :: table_schema where
  "users_at_3 = users_at_1\<lparr>ts_columns := (ts_columns users_at_1)(''version_id'' \<mapsto> defaulting IntegerT (IntDefault 1))\<rparr>"

definition users_at_5 :: table_schema where
  "users_at_5 = users_at_3\<lparr>ts_indexes := {trgm_index ''ix_users_email_trgm'' [''email''],
     trgm_index ''ix_users_full_name_trgm'' [''full_name''], (plain_index ''ix_users_email'' [''email''])\<lparr>ix_unique := True\<rparr>}\<rparr>"

definition transactions_at_4 :: table_schema where
  "transactions_at_4 = transactions_model\<lparr>ts_columns := (ts_columns transactions_model)(''acquirer'' := None)\<rparr>"

definition tables_at_1 :: "string \<rightharpoonup> table_schema" where
  "tables_at_1 = [''users'' \<mapsto> users_at_1]"

definition tables_at_2 :: "string \<rightharpoonup> table_schema" where
  "tables_at_2 = tables_at_1(''outbox_messages'' \<mapsto> outbox_messages_model)"

definition tables_at_3 :: "string \<rightharpoonup> table_schema" where
  "tables_at_3 = tables_at_2(''users'' \<mapsto> users_at_3)"

definition tables_at_4 :: "string \<rightharpoonup> table_schema" where
  "tables_at_4 = tables_at_3(''profiles'' \<mapsto> profiles_model, ''accounts'' \<mapsto> accounts_model,
     ''transactions'' \<mapsto> transactions_at_4, ''categories'' \<mapsto> categories_model,
     ''transaction_categories'' \<mapsto> transaction_categories_model)"

definition tables_at_5 :: "string \<rightharpoonup> table_schema" where
  "tables_at_5 = tables_at_4(''users'' \<mapsto> users_at_5)"

lemmas at_defs = tables_at_1_def tables_at_2_def tables_at_3_def tables_at_4_def tables_at_5_def

lemmas column_defs = id_column_def stamp_def UUIDPrimaryKeyMixin_def TimestampCreatedMixin_def TimestampMixin_def
  VersionedMixin_def pk_id_def fk_def NAMING_pk_def NAMING_uq_def NAMING_fk_def NAMING_ix_def trgm_index_def

lemma up_1: "exec_all pop upgrade_0001 empty_schema = Some \<lparr>sc_tables = tables_at_1, sc_extensions = {}\<rparr>"
  by (simp add: upgrade_0001_def on_table_def empty_schema_def at_defs users_at_1_def)

lemma up_2: "exec_all pop upgrade_0002 \<lparr>sc_tables = tables_at_1, sc_extensions = X\<rparr> = Some \<lparr>sc_tables = tables_at_2, sc_extensions = X\<rparr>"
  by (simp add: upgrade_0002_def on_table_def at_defs outbox_messages_model_def column_defs)

lemma up_3: "exec_all pop upgrade_0003 \<lparr>sc_tables = tables_at_2, sc_extensions = X\<rparr> = Some \<lparr>sc_tables = tables_at_3, sc_extensions = X\<rparr>"
  by (simp add: upgrade_0003_def on_table_def at_defs users_at_3_def, simp add: users_at_1_def id_column_def stamp_def)

lemma map_of_permuted: "distinct (map fst xs) \<Longrightarrow> distinct (map fst ys) \<Longrightarrow> set xs = set ys \<Longrightarrow> map_of xs = map_of ys"
  by (rule map_of_inject_set [THEN iffD2])

lemma created_profiles: "profiles_model = \<lparr>ts_columns = map_of
    [id_column, (''user_id'', col UuidT), (''bio'', nullable (StringT 500)), (''avatar_url'', nullable (StringT 500)),
     stamp ''created_at'', stamp ''updated_at''],
    ts_constraints = {ForeignKeyCascade ''fk_profiles_user_id_users'' ''user_id'' ''users'', PrimaryKey ''pk_profiles'' [''id''],
      Unique ''uq_profiles_user_id'' [''user_id'']}, ts_indexes = {}\<rparr>"
proof -
  have "ts_columns profiles_model = map_of
    [id_column, (''user_id'', col UuidT), (''bio'', nullable (StringT 500)), (''avatar_url'', nullable (StringT 500)),
     stamp ''created_at'', stamp ''updated_at'']"
    unfolding profiles_model_def table_schema.simps by (rule map_of_permuted) (auto simp: column_defs)
  then show ?thesis by (simp add: profiles_model_def column_defs insert_commute)
qed

lemma created_accounts: "accounts_model = \<lparr>ts_columns = map_of
    [id_column, (''user_id'', col UuidT), (''name'', col (StringT 255)),
     (''balance'', defaulting BigIntegerT (IntDefault 0)), stamp ''created_at'', stamp ''updated_at''],
    ts_constraints = {ForeignKeyCascade ''fk_accounts_user_id_users'' ''user_id'' ''users'', PrimaryKey ''pk_accounts'' [''id'']}, ts_indexes = {plain_index ''ix_accounts_user_id'' [''user_id'']}\<rparr>"
proof -
  have "ts_columns accounts_model = map_of
    [id_column, (''user_id'', col UuidT), (''name'', col (StringT 255)),
     (''balance'', defaulting BigIntegerT (IntDefault 0)), stamp ''created_at'', stamp ''updated_at'']"
    unfolding accounts_model_def table_schema.simps by (rule map_of_permuted) (auto simp: column_defs)
  then show ?thesis by (simp add: accounts_model_def column_defs insert_commute)
qed

lemma created_transactions: "transactions_at_4 = \<lparr>ts_columns = map_of
    [id_column, (''account_id'', col UuidT), (''amount'', col BigIntegerT), (''kind'', col (StringT 20)), stamp ''created_at''],
    ts_constraints = {ForeignKeyCascade ''fk_transactions_account_id_accounts'' ''account_id'' ''accounts'', PrimaryKey ''pk_transactions'' [''id'']},
    ts_indexes = {plain_index ''ix_transactions_account_id'' [''account_id'']}\<rparr>"
proof -
  have "ts_columns transactions_at_4 = map_of
    [id_column, (''account_id'', col UuidT), (''amount'', col BigIntegerT), (''kind'', col (StringT 20)), stamp ''created_at'']"
    by (auto simp: transactions_at_4_def transactions_model_def column_defs fun_eq_iff)
  then show ?thesis by (simp add: transactions_at_4_def transactions_model_def column_defs insert_commute)
qed

lemma created_categories: "categories_model = \<lparr>ts_columns = map_of
    [id_column, (''name'', col (StringT 100))],
    ts_constraints = {PrimaryKey ''pk_categories'' [''id''], Unique ''uq_categories_name'' [''name'']}, ts_indexes = {}\<rparr>"
proof -
  have "ts_columns categories_model = map_of
    [id_column, (''name'', col (StringT 100))]"
    unfolding categories_model_def table_schema.simps by (rule map_of_permuted) (auto simp: column_defs)
  then show ?thesis by (simp add: categories_model_def column_defs insert_commute)
qed

lemma created_transaction_categories: "transaction_categories_model = \<lparr>ts_columns = map_of
    [(''transaction_id'', col UuidT), (''category_id'', col UuidT)],
    ts_constraints = {ForeignKeyCascade ''fk_transaction_categories_transaction_id_transactions'' ''transaction_id'' ''transactions'',
      ForeignKeyCascade ''fk_transaction_categories_category_id_categories'' ''category_id'' ''categories'',
      PrimaryKey ''pk_transaction_categories'' [''transaction_id'', ''category_id'']}, ts_indexes = {}\<rparr>"
  by (simp add: transaction_categories_model_def column_defs)

lemmas created = created_profiles created_accounts created_transactions created_categories created_transaction_categories

lemma up_4: "exec_all pop upgrade_0004 \<lparr>sc_tables = tables_at_3, sc_extensions = X\<rparr> = Some \<lparr>sc_tables = tables_at_4, sc_extensions = X\<rparr>"
  by (simp add: upgrade_0004_def on_table_def at_defs created)

lemma up_5: "exec_all pop (upgrade_0005 ''postgresql'') \<lparr>sc_tables = tables_at_4, sc_extensions = X\<rparr> =
    Some \<lparr>sc_tables = tables_at_5, sc_extensions = insert ''pg_trgm'' X\<rparr>"
  by (simp add: upgrade_0005_def ensure_pg_trgm_def create_trgm_index_def on_table_def at_defs users_at_5_def
      trgm_index_def, simp add: users_at_3_def users_at_1_def)

lemma users_at_5_sel:
  "ts_columns users_at_5 ''is_active'' = Some (defaulting BooleanT (BoolDefault True))"
  "ts_columns users_at_5 ''role'' = Some (defaulting (StringT 32) (StrDefault ''user''))"
  "ts_columns users_at_5 ''version_id'' = Some (defaulting IntegerT (IntDefault 1))"
  "\<exists>i \<in> ts_constraints users_at_5. constraint_name i = ''uq_users_email''"
  "{i \<in> ts_constraints users_at_5. constraint_name i \<noteq> ''uq_users_email''} = {pk_id ''users''}"
  by (auto simp: users_at_5_def users_at_3_def users_at_1_def column_defs)

lemma users_at_6: "users_at_5\<lparr>ts_columns := (ts_columns users_at_5)(''is_active'' \<mapsto> col BooleanT,
    ''role'' \<mapsto> col (StringT 32), ''version_id'' \<mapsto> col IntegerT), ts_constraints := {pk_id ''users''}\<rparr> = users_model"
  by (auto simp: users_model_def users_at_5_def users_at_3_def users_at_1_def column_defs fun_eq_iff)

lemma transactions_at_6: "ts_columns transactions_at_4 ''acquirer'' = None"
  "transactions_at_4\<lparr>ts_columns := (ts_columns transactions_at_4)(''acquirer'' \<mapsto> col (StringT 20))\<rparr> = transactions_model"
  by (simp_all add: transactions_at_4_def transactions_model_def column_defs fun_eq_iff)

lemma tables_at_6: "tables_at_5(''transactions'' \<mapsto> transactions_model, ''users'' \<mapsto> users_model) = sc_tables metadata"
  by (auto simp: metadata_def at_defs fun_eq_iff)

lemma up_6:
  assumes "''transactions'' \<notin> pop"
  shows "exec_all pop upgrade_0006 \<lparr>sc_tables = tables_at_5, sc_extensions = X\<rparr> =
    Some \<lparr>sc_tables = sc_tables metadata, sc_extensions = X\<rparr>"
proof -
  have t: "tables_at_5 ''transactions'' = Some transactions_at_4" "tables_at_5 ''users'' = Some users_at_5"
    by (simp_all add: at_defs)
  have "exec_all pop upgrade_0006 \<lparr>sc_tables = tables_at_5, sc_extensions = X\<rparr> =
    Some \<lparr>sc_tables = tables_at_5(''transactions'' \<mapsto> transactions_model, ''users'' \<mapsto>
      users_at_5\<lparr>ts_columns := (ts_columns users_at_5)(''is_active'' \<mapsto> col BooleanT,
        ''role'' \<mapsto> col (StringT 32), ''version_id'' \<mapsto> col IntegerT), ts_constraints := {pk_id ''users''}\<rparr>), sc_extensions = X\<rparr>"
    using assms by (simp add: upgrade_0006_def on_table_def t transactions_at_6 users_at_5_sel)
  then show ?thesis by (simp add: users_at_6 tables_at_6)
qed

lemma up_6_data: "''transactions'' \<in> pop \<Longrightarrow> exec_all pop upgrade_0006 \<lparr>sc_tables = tables_at_5, sc_extensions = X\<rparr> = None"
  by (simp add: upgrade_0006_def on_table_def at_defs created id_column_def stamp_def)

text \<open>Back again.\<close>

lemma down_1: "exec_all pop downgrade_0001 \<lparr>sc_tables = tables_at_1, sc_extensions = X\<rparr> = Some \<lparr>sc_tables = Map.empty, sc_extensions = X\<rparr>"
  by (simp add: downgrade_0001_def on_table_def at_defs users_at_1_def)

lemma down_2: "exec_all pop downgrade_0002 \<lparr>sc_tables = tables_at_2, sc_extensions = X\<rparr> = Some \<lparr>sc_tables = tables_at_1, sc_extensions = X\<rparr>"
  by (simp add: downgrade_0002_def on_table_def at_defs outbox_messages_model_def)

lemma down_3: "exec_all pop downgrade_0003 \<lparr>sc_tables = tables_at_3, sc_extensions = X\<rparr> = Some \<lparr>sc_tables = tables_at_2, sc_extensions = X\<rparr>"
proof -
  have "users_at_3\<lparr>ts_columns := (ts_columns users_at_3)(''version_id'' := None)\<rparr> = users_at_1" "ts_columns users_at_3 ''version_id'' \<noteq> None"
    by (simp_all add: users_at_3_def users_at_1_def id_column_def stamp_def fun_eq_iff)
  moreover have "tables_at_3(''users'' \<mapsto> users_at_1) = tables_at_2" by (simp add: at_defs fun_eq_iff)
  ultimately show ?thesis by (simp add: downgrade_0003_def on_table_def) (simp add: at_defs)
qed

lemma down_4: "exec_all pop downgrade_0004 \<lparr>sc_tables = tables_at_4, sc_extensions = X\<rparr> = Some \<lparr>sc_tables = tables_at_3, sc_extensions = X\<rparr>"
  by (simp add: downgrade_0004_def on_table_def at_defs created fun_eq_iff)

lemma down_5: "exec_all pop (downgrade_0005 ''postgresql'') \<lparr>sc_tables = tables_at_5, sc_extensions = X\<rparr> =
    Some \<lparr>sc_tables = tables_at_4, sc_extensions = X\<rparr>"
proof -
  let ?e = "''ix_users_email_trgm''" and ?f = "''ix_users_full_name_trgm''"
  define b where "b = plain_index ''ix_users_email'' [''email'']\<lparr>ix_unique := True\<rparr>"
  have x: "ts_indexes users_at_5 = {trgm_index ?e [''email''], trgm_index ?f [''full_name''], b}" "ts_indexes users_at_3 = {b}"
    by (simp_all add: users_at_5_def users_at_3_def users_at_1_def b_def)
  have names: "ix_name (trgm_index ?e [''email'']) = ?e" "ix_name (trgm_index ?f [''full_name'']) = ?f" "ix_name b = ''ix_users_email''"
    by (simp_all add: trgm_index_def b_def)
  have i: "{i \<in> ts_indexes users_at_5. ix_name i \<noteq> ?e \<and> ix_name i \<noteq> ?f} = ts_indexes users_at_3"
    "\<exists>i \<in> ts_indexes users_at_5. ix_name i = ?e" "\<exists>i. i \<in> ts_indexes users_at_5 \<and> ix_name i \<noteq> ?e \<and> ix_name i = ?f"
    unfolding x by (auto simp: names)
  have u: "users_at_5\<lparr>ts_indexes := ts_indexes users_at_3\<rparr> = users_at_3" by (simp add: users_at_5_def)
  have t: "tables_at_5 ''users'' = Some users_at_5" "tables_at_5(''users'' \<mapsto> users_at_3) = tables_at_4"
    by (simp_all add: at_defs fun_eq_iff)
  show ?thesis
    using i by (simp add: downgrade_0005_def drop_trgm_index_def on_table_def t u)
qed

lemma down_6: "exec_all pop downgrade_0006 \<lparr>sc_tables = sc_tables metadata, sc_extensions = X\<rparr> =
    Some \<lparr>sc_tables = tables_at_5, sc_extensions = X\<rparr>"
proof -
  have m: "sc_tables metadata ''transactions'' = Some transactions_model" "sc_tables metadata ''users'' = Some users_model"
    by (simp_all add: metadata_def)
  have c: "\<not> (\<exists>i \<in> ts_constraints users_model. constraint_name i = ''uq_users_email'')"
    "ts_columns transactions_model ''acquirer'' \<noteq> None"
    "ts_columns users_model ''is_active'' = Some (col BooleanT)" "ts_columns users_model ''role'' = Some (col (StringT 32))"
    "ts_columns users_model ''version_id'' = Some (col IntegerT)"
    by (simp_all add: users_model_def transactions_model_def column_defs)
  have u: "users_model\<lparr>ts_constraints := insert (Unique ''uq_users_email'' [''email'']) (ts_constraints users_model),
      ts_columns := (ts_columns users_model)(''version_id'' \<mapsto> defaulting IntegerT (IntDefault 1),
      ''role'' \<mapsto> defaulting (StringT 32) (StrDefault ''user''), ''is_active'' \<mapsto> defaulting BooleanT (BoolDefault True))\<rparr> = users_at_5"
    by (auto simp: users_model_def users_at_5_def users_at_3_def users_at_1_def column_defs fun_eq_iff)
  have t: "(sc_tables metadata)(''users'' \<mapsto> users_at_5, ''transactions'' \<mapsto> transactions_at_4) = tables_at_5"
    by (simp add: metadata_def at_defs fun_eq_iff)
  have x: "transactions_model\<lparr>ts_columns := (ts_columns transactions_model)(''acquirer'' := None)\<rparr> = transactions_at_4"
    by (simp add: transactions_at_4_def)
  have "exec_all pop downgrade_0006 \<lparr>sc_tables = sc_tables metadata, sc_extensions = X\<rparr> =
    Some \<lparr>sc_tables = (sc_tables metadata)(''users'' \<mapsto> users_model\<lparr>ts_constraints := insert (Unique ''uq_users_email'' [''email'']) (ts_constraints users_model),
      ts_columns := (ts_columns users_model)(''version_id'' \<mapsto> defaulting IntegerT (IntDefault 1),
      ''role'' \<mapsto> defaulting (StringT 32) (StrDefault ''user''), ''is_active'' \<mapsto> defaulting BooleanT (BoolDefault True))\<rparr>,
      ''transactions'' \<mapsto> transactions_at_4), sc_extensions = X\<rparr>"
    using c by (simp add: downgrade_0006_def on_table_def m x)
  then show ?thesis by (simp only: u t)
qed

lemma exec_all_append: "exec_all pop (xs @ ys) s = (case exec_all pop xs s of None \<Rightarrow> None | Some t \<Rightarrow> exec_all pop ys t)"
  by (induction xs arbitrary: s) (auto split: option.splits)

fun upgrades :: "(string \<times> string option \<times> ddl list \<times> ddl list) list \<Rightarrow> ddl list" where
  "upgrades rs = concat (map (\<lambda>(_, _, up, _). up) rs)"

fun downgrades :: "(string \<times> string option \<times> ddl list \<times> ddl list) list \<Rightarrow> ddl list" where
  "downgrades rs = concat (map (\<lambda>(_, _, _, down). down) (rev rs))"

definition tables_after :: "nat \<Rightarrow> string \<rightharpoonup> table_schema" where
  "tables_after k = [Map.empty, tables_at_1, tables_at_2, tables_at_3, tables_at_4, tables_at_5, sc_tables metadata] ! k"

lemma upgrade_chain:
  assumes "''transactions'' \<notin> pop" "k \<le> 6"
  shows "exec_all pop (upgrades (take k revisions)) empty_schema =
    Some \<lparr>sc_tables = tables_after k, sc_extensions = (if k < 5 then {} else {''pg_trgm''})\<rparr>"
proof -
  have "k = 0 \<or> k = 1 \<or> k = 2 \<or> k = 3 \<or> k = 4 \<or> k = 5 \<or> k = 6" using assms(2) by linarith
  then show ?thesis
    by (elim disjE) (simp_all add: revisions_def tables_after_def exec_all_append up_1 up_2 up_3 up_4 up_5 up_6 assms(1),
        simp add: empty_schema_def)
qed

lemma downgrade_chain:
  assumes "k \<le> 6"
  shows "exec_all pop (downgrades (drop k revisions)) \<lparr>sc_tables = sc_tables metadata, sc_extensions = X\<rparr> =
    Some \<lparr>sc_tables = tables_after k, sc_extensions = X\<rparr>"
proof -
  have "k = 0 \<or> k = 1 \<or> k = 2 \<or> k = 3 \<or> k = 4 \<or> k = 5 \<or> k = 6" using assms by linarith
  then show ?thesis
    by (elim disjE) (simp_all add: revisions_def tables_after_def exec_all_append down_1 down_2 down_3 down_4 down_5 down_6)
qed

text \<open>
  C16: the migration chain is a straight line and leads to the models. Running every upgrade on an empty
  database gives exactly the schema of \<^verbatim>\<open>Base.metadata\<close>, and downgrading from the head to any earlier
  revision gives the schema that upgrading to that revision built, but for the extension, which stays.
  The hypothesis is that the transactions table holds no row when revision 0006 runs: that revision adds
  a NOT NULL column without a default.
\<close>

theorem migrations_reach_models:
  assumes "''transactions'' \<notin> pop" "k \<le> 6"
  shows "exec_all pop (upgrades revisions) empty_schema = Some metadata
    \<and> (\<exists>s. exec_all pop (upgrades (take k revisions)) empty_schema = Some s
        \<and> exec_all pop (downgrades (drop k revisions)) metadata = Some (s\<lparr>sc_extensions := {''pg_trgm''}\<rparr>))"
proof -
  have six: "take 6 revisions = revisions" by (simp add: revisions_def)
  have m: "metadata = \<lparr>sc_tables = sc_tables metadata, sc_extensions = {''pg_trgm''}\<rparr>" by (simp add: metadata_def)
  have "exec_all pop (upgrades revisions) empty_schema = Some metadata"
    using upgrade_chain [OF assms(1), of 6] m by (simp add: six tables_after_def del: upgrades.simps)
  moreover have "exec_all pop (downgrades (drop k revisions)) metadata =
      Some \<lparr>sc_tables = tables_after k, sc_extensions = {''pg_trgm''}\<rparr>"
    using downgrade_chain [OF assms(2), of pop "{''pg_trgm''}"] m by simp
  ultimately show ?thesis using upgrade_chain [OF assms] by simp
qed

theorem migrations_reach_models_witness:
  "(''transactions'' \<notin> {''users''} \<and> (3::nat) \<le> 6)
    \<and> exec_all {''users''} (upgrades revisions) empty_schema = Some metadata"
  using migrations_reach_models [of "{''users''}" 3] by simp

lemma add_acquirer_fails_on_data:
  assumes "''transactions'' \<in> pop"
  shows "exec_all pop upgrade_0006 \<lparr>sc_tables = tables_after 5, sc_extensions = X\<rparr> = None"
  using up_6_data [OF assms] by (simp add: tables_after_def)

end
