(* ===== verification/Lifecycle.thy ===== *)
theory Lifecycle
  imports Scheduler Storage
begin

section \<open>The process: singletons, start-up, shutdown\<close>

text \<open>
  The objects a process has once (\<^verbatim>\<open>app/db/session.py\<close>, \<^verbatim>\<open>app/cache/redis_cache.py\<close>,
  \<^verbatim>\<open>app/clients/messages.py\<close>, \<^verbatim>\<open>app/broker/factory.py\<close>, \<^verbatim>\<open>app/storage/factory.py\<close>), the life cycle of the
  web process (\<^verbatim>\<open>app/core/lifespan.py\<close>) and of the worker (\<^verbatim>\<open>app/worker.py\<close>), and the parameters that
  the servers get (\<^verbatim>\<open>gunicorn.conf.py\<close>, \<^verbatim>\<open>app/cli.py\<close>, \<^verbatim>\<open>app/core/observability.py\<close>). A call that leaves
  the process can raise: \<open>F\<close> says with which exception, and the process remembers the calls it made.
\<close>

subsection \<open>The objects\<close>

datatype broker_impl = KafkaBroker string | RabbitMQBroker string | MemoryBroker

definition build_broker :: "settings \<Rightarrow> broker_impl" where
  "build_broker c = (case broker_type c of
     KAFKA \<Rightarrow> KafkaBroker (broker_url c) | RABBITMQ \<Rightarrow> RabbitMQBroker (broker_url c) | MEMORY_BROKER \<Rightarrow> MemoryBroker)"

record engine_args =
  ea_url :: string
  ea_echo :: bool
  ea_pool_size :: int
  ea_max_overflow :: int
  ea_pool_timeout :: int
  ea_pool_recycle :: int
  ea_pool_pre_ping :: bool
  ea_connect_args :: "(string \<times> json) list"

definition create_engine :: "settings \<Rightarrow> engine_args" where
  "create_engine c =
     (let connect_args = [(''command_timeout'', JNum 10)];
          connect_args = (if db_pgbouncer c
            then connect_args @ [(''statement_cache_size'', JNum 0), (''prepared_statement_cache_size'', JNum 0)]
            else connect_args @ [(''server_settings'', JObj [(''jit'', JStr ''off''), (''application_name'', JStr (app_name c))])])
      in \<lparr>ea_url = database_url c, ea_echo = db_echo c, ea_pool_size = db_pool_size c,
          ea_max_overflow = db_max_overflow c, ea_pool_timeout = db_pool_timeout c,
          ea_pool_recycle = db_pool_recycle c, ea_pool_pre_ping = True, ea_connect_args = connect_args\<rparr>)"

datatype ext_call =
    PingRedis | ConnectBroker | RegisterConsumers | ConnectStorage
  | DisconnectBroker | CloseStorage | CloseMessages | CloseRedis | DisconnectPool | DisposeEngine nat

text \<open>
  The module variables. An engine is named by its number; \<open>pr_engines\<close> counts those made so far. The
  session maker keeps the engine that it was made with.
\<close>

record process =
  pr_redis :: "string option"
  pr_pool :: "string option"
  pr_messages :: "(string \<times> string) option"
  pr_broker :: "broker_impl option"
  pr_broker_up :: bool
  pr_storage :: "s3_config option"
  pr_engine :: "nat option"
  pr_sessionmaker :: "nat option"
  pr_engines :: nat
  pr_calls :: "ext_call list"

definition fresh_process :: process where
  "fresh_process = \<lparr>pr_redis = None, pr_pool = None, pr_messages = None, pr_broker = None, pr_broker_up = False,
     pr_storage = None, pr_engine = None, pr_sessionmaker = None, pr_engines = 0, pr_calls = []\<rparr>"

definition get_redis :: "settings \<Rightarrow> process \<Rightarrow> process" where
  "get_redis c p = (case pr_redis p of
     Some _ \<Rightarrow> p | None \<Rightarrow> p\<lparr>pr_pool := Some (redis_url c), pr_redis := Some (redis_url c)\<rparr>)"

definition get_messages_client :: "settings \<Rightarrow> process \<Rightarrow> process" where
  "get_messages_client c p = (case pr_messages p of
     Some _ \<Rightarrow> p | None \<Rightarrow> p\<lparr>pr_messages := Some (messages_api_base_url c, messages_api_key c)\<rparr>)"

definition get_broker :: "settings \<Rightarrow> process \<Rightarrow> process" where
  "get_broker c p = (case pr_broker p of Some _ \<Rightarrow> p | None \<Rightarrow> p\<lparr>pr_broker := Some (build_broker c)\<rparr>)"

definition reset_broker :: "process \<Rightarrow> process" where
  "reset_broker p = p\<lparr>pr_broker := None\<rparr>"

definition get_storage :: "settings \<Rightarrow> process \<Rightarrow> process" where
  "get_storage c p = (case pr_storage p of Some _ \<Rightarrow> p | None \<Rightarrow> p\<lparr>pr_storage := Some (build_s3_storage c)\<rparr>)"

definition reset_storage :: "process \<Rightarrow> process" where
  "reset_storage p = p\<lparr>pr_storage := None\<rparr>"

definition get_engine :: "process \<Rightarrow> process" where
  "get_engine p = (case pr_engine p of
     Some _ \<Rightarrow> p | None \<Rightarrow> p\<lparr>pr_engine := Some (pr_engines p), pr_engines := pr_engines p + 1\<rparr>)"

definition get_sessionmaker :: "process \<Rightarrow> process" where
  "get_sessionmaker p = (case pr_sessionmaker p of
     Some _ \<Rightarrow> p | None \<Rightarrow> (let p = get_engine p in p\<lparr>pr_sessionmaker := pr_engine p\<rparr>))"

subsection \<open>Steps that may raise\<close>

type_synonym step = "process \<Rightarrow> exn option \<times> process"

definition external :: "(ext_call \<Rightarrow> exn option) \<Rightarrow> ext_call \<Rightarrow> step" where
  "external F k p = (F k, p\<lparr>pr_calls := pr_calls p @ [k]\<rparr>)"

definition pure_step :: "(process \<Rightarrow> process) \<Rightarrow> step" where
  "pure_step f p = (None, f p)"

fun in_order :: "step list \<Rightarrow> step" where
  "in_order [] p = (None, p)"
| "in_order (s # ss) p = (case s p of (Some e, p) \<Rightarrow> (Some e, p) | (None, p) \<Rightarrow> in_order ss p)"

definition if_some :: "'a option \<Rightarrow> step list \<Rightarrow> step" where
  "if_some x ss = (case x of None \<Rightarrow> pure_step id | Some _ \<Rightarrow> in_order ss)"

definition close_redis :: "(ext_call \<Rightarrow> exn option) \<Rightarrow> step" where
  "close_redis F p = in_order
     [if_some (pr_redis p) [external F CloseRedis, pure_step (\<lambda>p. p\<lparr>pr_redis := None\<rparr>)],
      if_some (pr_pool p) [external F DisconnectPool, pure_step (\<lambda>p. p\<lparr>pr_pool := None\<rparr>)]] p"

definition close_messages_client :: "(ext_call \<Rightarrow> exn option) \<Rightarrow> step" where
  "close_messages_client F p =
     if_some (pr_messages p) [external F CloseMessages, pure_step (\<lambda>p. p\<lparr>pr_messages := None\<rparr>)] p"

definition dispose_engine :: "(ext_call \<Rightarrow> exn option) \<Rightarrow> step" where
  "dispose_engine F p = (case pr_engine p of None \<Rightarrow> (None, p)
     | Some i \<Rightarrow> in_order [external F (DisposeEngine i), pure_step (\<lambda>p. p\<lparr>pr_engine := None\<rparr>)] p)"

definition connect_broker :: "(ext_call \<Rightarrow> exn option) \<Rightarrow> step" where
  "connect_broker F = in_order [external F ConnectBroker, pure_step (\<lambda>p. p\<lparr>pr_broker_up := True\<rparr>)]"

definition disconnect_broker :: "(ext_call \<Rightarrow> exn option) \<Rightarrow> step" where
  "disconnect_broker F = in_order [external F DisconnectBroker, pure_step (\<lambda>p. p\<lparr>pr_broker_up := False\<rparr>)]"

definition connect_storage :: "(ext_call \<Rightarrow> exn option) \<Rightarrow> step" where
  "connect_storage F = in_order [external F ConnectStorage,
     pure_step (\<lambda>p. p\<lparr>pr_storage := map_option storage_connect (pr_storage p)\<rparr>)]"

definition close_storage :: "(ext_call \<Rightarrow> exn option) \<Rightarrow> step" where
  "close_storage F = in_order [external F CloseStorage,
     pure_step (\<lambda>p. p\<lparr>pr_storage := map_option storage_close (pr_storage p)\<rparr>)]"

subsection \<open>The web process\<close>

text \<open>
  Everything before the \<^verbatim>\<open>yield\<close>. The local variables \<^verbatim>\<open>broker\<close> and \<^verbatim>\<open>storage\<close> are not \<^verbatim>\<open>None\<close> exactly when
  the component is switched on.
\<close>

definition startup :: "(ext_call \<Rightarrow> exn option) \<Rightarrow> settings \<Rightarrow> step" where
  "startup F c = in_order
     ([pure_step (get_redis c), external F PingRedis] @
      (if broker_enabled c then [pure_step (get_broker c), connect_broker F, external F RegisterConsumers] else []) @
      (if storage_enabled c then [pure_step (get_storage c), connect_storage F] else []))"

definition shutdown :: "(ext_call \<Rightarrow> exn option) \<Rightarrow> settings \<Rightarrow> step" where
  "shutdown F c = in_order
     ((if broker_enabled c then [disconnect_broker F, pure_step reset_broker] else []) @
      (if storage_enabled c then [close_storage F, pure_step reset_storage] else []) @
      [close_messages_client F, close_redis F, dispose_engine F])"

text \<open>\<open>serve\<close> is what the requests do to the process; what it raises is raised again after the shutdown.\<close>

definition lifespan :: "(ext_call \<Rightarrow> exn option) \<Rightarrow> settings \<Rightarrow> step \<Rightarrow> step" where
  "lifespan F c serve p = (case startup F c p of
     (Some e, p) \<Rightarrow> (Some e, p)
   | (None, p) \<Rightarrow> (case serve p of (r, p) \<Rightarrow> (case shutdown F c p of
         (Some e, p) \<Rightarrow> (Some e, p) | (None, p) \<Rightarrow> (r, p))))"

subsection \<open>The worker\<close>

text \<open>\<open>work\<close> is what the loops of the jobs do to the process until the scheduler is stopped.\<close>

definition scheduler_run :: "'s job list \<Rightarrow> step \<Rightarrow> step" where
  "scheduler_run jobs work p = (if jobs = [] then (None, p) else work p)"

text \<open>
  The steps of \<^verbatim>\<open>_main\<close>; \<open>jobs\<close> is what \<^verbatim>\<open>register_jobs\<close> answers.
\<close>

definition worker_main :: "(ext_call \<Rightarrow> exn option) \<Rightarrow> settings \<Rightarrow> exn + 's job list \<Rightarrow> step \<Rightarrow> step" where
  "worker_main F c jobs work p =
     (case in_order
        ([pure_step (get_redis c), external F PingRedis] @
         (if broker_enabled c then [pure_step (get_broker c), connect_broker F] else []) @
         (if storage_enabled c then [pure_step (get_storage c), connect_storage F] else [])) p of
       (Some e, p) \<Rightarrow> (Some e, p)
     | (None, p) \<Rightarrow> (case jobs of
         Inl e \<Rightarrow> (Some e, p)
       | Inr js \<Rightarrow> (case scheduler_run js work p of (r, p) \<Rightarrow> (case in_order
           ((if broker_enabled c then [disconnect_broker F, pure_step reset_broker] else []) @
            (if storage_enabled c then [close_storage F, pure_step reset_storage] else []) @
            [close_messages_client F, close_redis F, dispose_engine F]) p of
             (Some e, p) \<Rightarrow> (Some e, p) | (None, p) \<Rightarrow> (r, p)))))"

text \<open>There are always jobs, so the worker runs until it is stopped.\<close>

lemma jobs_never_empty: "register_jobs c is_valid hb relay clean jobs = Inr js \<Longrightarrow> js \<noteq> []"
  by (auto simp: register_jobs_def scheduler_add_def scheduler_add_cron_def Let_def split: if_splits)

subsection \<open>What a life cycle leaves\<close>

text \<open>
  Requests and jobs create the objects on first use; the broker and the storage they use only where they
  are switched on.
\<close>

inductive touches :: "settings \<Rightarrow> process \<Rightarrow> process \<Rightarrow> bool" for c where
  Nothing: "touches c p p"
| Redis: "touches c p q \<Longrightarrow> touches c p (get_redis c q)"
| Messages: "touches c p q \<Longrightarrow> touches c p (get_messages_client c q)"
| Session: "touches c p q \<Longrightarrow> touches c p (get_sessionmaker q)"
| Broker: "touches c p q \<Longrightarrow> broker_enabled c \<Longrightarrow> touches c p (get_broker c q)"
| Storage: "touches c p q \<Longrightarrow> storage_enabled c \<Longrightarrow> touches c p (get_storage c q)"

definition released :: "process \<Rightarrow> bool" where
  "released p \<longleftrightarrow> pr_redis p = None \<and> pr_pool p = None \<and> pr_messages p = None \<and> pr_broker p = None \<and>
     \<not> pr_broker_up p \<and> pr_storage p = None \<and> pr_engine p = None"

definition closing :: "ext_call set" where
  "closing = {DisconnectBroker, CloseStorage, CloseMessages, CloseRedis, DisconnectPool} \<union> range DisposeEngine"

definition opening_calls :: "settings \<Rightarrow> ext_call list" where
  "opening_calls c = [PingRedis] @ (if broker_enabled c then [ConnectBroker, RegisterConsumers] else []) @
     (if storage_enabled c then [ConnectStorage] else [])"

definition closing_calls :: "settings \<Rightarrow> process \<Rightarrow> ext_call list" where
  "closing_calls c p = (if broker_enabled c then [DisconnectBroker] else []) @ (if storage_enabled c then [CloseStorage] else []) @
     (if pr_messages p \<noteq> None then [CloseMessages] else []) @ (if pr_redis p \<noteq> None then [CloseRedis] else []) @
     (if pr_pool p \<noteq> None then [DisconnectPool] else []) @ (case pr_engine p of None \<Rightarrow> [] | Some i \<Rightarrow> [DisposeEngine i])"

lemmas step_defs = external_def pure_step_def if_some_def close_redis_def close_messages_client_def dispose_engine_def
  connect_broker_def disconnect_broker_def connect_storage_def close_storage_def reset_broker_def reset_storage_def

lemma in_order_append: "in_order (xs @ ys) p = (case in_order xs p of (Some e, p) \<Rightarrow> (Some e, p) | (None, p) \<Rightarrow> in_order ys p)"
  by (induction xs arbitrary: p) (auto split: prod.splits option.splits)

lemma startup_calls:
  assumes "startup F c p = (None, p')"
  shows "pr_calls p' = pr_calls p @ opening_calls c"
proof -
  have "pr_calls (get_redis c p) = pr_calls p" "pr_calls (get_broker c p) = pr_calls p" "pr_calls (get_storage c p) = pr_calls p" for p
    by (simp_all add: get_redis_def get_broker_def get_storage_def split: option.split)
  then show ?thesis using assms unfolding startup_def opening_calls_def
    by (cases "broker_enabled c"; cases "storage_enabled c") (auto simp: step_defs split: option.splits)
qed

text \<open>The closing steps when nothing fails.\<close>

lemma closing_steps:
  assumes "\<And>k. k \<in> closing \<Longrightarrow> F k = None"
  shows "close_redis F p = (None, p\<lparr>pr_redis := None, pr_pool := None, pr_calls := pr_calls p @
      (if pr_redis p \<noteq> None then [CloseRedis] else []) @ (if pr_pool p \<noteq> None then [DisconnectPool] else [])\<rparr>)"
    "close_messages_client F p = (None, p\<lparr>pr_messages := None, pr_calls := pr_calls p @
      (if pr_messages p \<noteq> None then [CloseMessages] else [])\<rparr>)"
    "dispose_engine F p = (None, p\<lparr>pr_engine := None, pr_calls := pr_calls p @
      (case pr_engine p of None \<Rightarrow> [] | Some i \<Rightarrow> [DisposeEngine i])\<rparr>)"
    "disconnect_broker F p = (None, p\<lparr>pr_broker_up := False, pr_calls := pr_calls p @ [DisconnectBroker]\<rparr>)"
    "close_storage F p = (None, p\<lparr>pr_storage := map_option storage_close (pr_storage p), pr_calls := pr_calls p @ [CloseStorage]\<rparr>)"
  using assms
  apply (cases "pr_redis p"; cases "pr_pool p"; simp add: step_defs closing_def)
  using assms apply (cases "pr_messages p"; simp add: step_defs closing_def)
  using assms apply (cases "pr_engine p"; simp add: step_defs closing_def)
  using assms apply (simp_all add: step_defs closing_def)
  done

lemma shutdown_done:
  assumes "\<And>k. k \<in> closing \<Longrightarrow> F k = None"
  shows "\<exists>q. shutdown F c p = (None, q) \<and> pr_calls q = pr_calls p @ closing_calls c p \<and>
    pr_broker q = (if broker_enabled c then None else pr_broker p) \<and> (pr_broker_up q \<longleftrightarrow> \<not> broker_enabled c \<and> pr_broker_up p) \<and>
    pr_storage q = (if storage_enabled c then None else pr_storage p) \<and>
    pr_redis q = None \<and> pr_pool q = None \<and> pr_messages q = None \<and> pr_engine q = None"
  unfolding shutdown_def closing_calls_def
  by (cases "broker_enabled c"; cases "storage_enabled c") (simp_all add: closing_steps [OF assms] pure_step_def reset_broker_def reset_storage_def)

lemma touches_keeps:
  "touches c p q \<Longrightarrow> pr_calls q = pr_calls p \<and> pr_broker_up q = pr_broker_up p \<and>
     (\<not> broker_enabled c \<longrightarrow> pr_broker q = pr_broker p) \<and> (\<not> storage_enabled c \<longrightarrow> pr_storage q = pr_storage p)"
  by (induction rule: touches.induct)
    (auto simp: get_redis_def get_messages_client_def get_sessionmaker_def get_engine_def get_broker_def get_storage_def Let_def
      split: option.splits)

lemma startup_off:
  assumes "startup F c p = (r, q)"
  shows "\<not> broker_enabled c \<Longrightarrow> pr_broker q = pr_broker p \<and> pr_broker_up q = pr_broker_up p"
    "\<not> storage_enabled c \<Longrightarrow> pr_storage q = pr_storage p"
proof -
  have r: "pr_broker (get_redis c p) = pr_broker p" "pr_broker_up (get_redis c p) = pr_broker_up p" "pr_storage (get_redis c p) = pr_storage p"
    "pr_broker (get_storage c p) = pr_broker p" "pr_broker_up (get_storage c p) = pr_broker_up p" "pr_storage (get_broker c p) = pr_storage p" for p
    by (simp_all add: get_redis_def get_broker_def get_storage_def split: option.split)
  show "\<not> broker_enabled c \<Longrightarrow> pr_broker q = pr_broker p \<and> pr_broker_up q = pr_broker_up p"
    using assms r unfolding startup_def by (cases "storage_enabled c") (auto simp: step_defs split: option.splits)
  show "\<not> storage_enabled c \<Longrightarrow> pr_storage q = pr_storage p"
    using assms r unfolding startup_def by (cases "broker_enabled c") (auto simp: step_defs split: option.splits)
qed



text \<open>A session maker outlives its engine: after the disposal it is still bound to the old one.\<close>

lemma sessionmaker_keeps_disposed_engine:
  assumes "pr_sessionmaker p = Some i" "pr_engine p = Some i" "F (DisposeEngine i) = None"
  shows "\<exists>q. dispose_engine F p = (None, q) \<and> pr_engine q = None \<and> pr_sessionmaker (get_sessionmaker q) = Some i \<and>
    pr_engine (get_sessionmaker q) = None"
  using assms by (auto simp: dispose_engine_def step_defs get_sessionmaker_def)

text \<open>A start-up that fails half-way, and a shutdown whose first call fails, leave the rest open.\<close>

lemma failed_startup_leaks:
  assumes "broker_enabled c" "storage_enabled c" "F PingRedis = None" "F ConnectBroker = None" "F RegisterConsumers = None"
    "F ConnectStorage = Some e"
  shows "\<exists>q. lifespan F c serve fresh_process = (Some e, q) \<and> pr_broker_up q \<and> pr_redis q \<noteq> None"
  using assms by (auto simp: lifespan_def startup_def step_defs get_redis_def get_broker_def get_storage_def fresh_process_def)

lemma failed_disconnect_leaks:
  assumes "broker_enabled c" "F DisconnectBroker = Some e"
  shows "\<exists>q. shutdown F c p = (Some e, q) \<and> pr_redis q = pr_redis p \<and> pr_engine q = pr_engine p \<and> pr_storage q = pr_storage p"
  using assms by (auto simp: shutdown_def step_defs)

subsection \<open>Parameters of the servers\<close>

text \<open>\<^verbatim>\<open>init_sentry\<close>: the arguments of \<^verbatim>\<open>sentry_sdk.init\<close>, or nothing without a DSN.\<close>

record sentry_args =
  sy_dsn :: string
  sy_environment :: string
  sy_release :: "string option"
  sy_traces_sample_rate :: rat
  sy_send_default_pii :: bool

definition init_sentry :: "settings \<Rightarrow> sentry_args option" where
  "init_sentry c = (if sentry_dsn c = [] then None
     else Some \<lparr>sy_dsn = sentry_dsn c, sy_environment = environment_value (environment c),
       sy_release = (if sentry_release c = [] then None else Some (sentry_release c)),
       sy_traces_sample_rate = sentry_traces_sample_rate c, sy_send_default_pii = False\<rparr>)"

definition cli_dev :: "settings \<Rightarrow> string list" where
  "cli_dev c = [''uvicorn'', ''app.main:app'', ''--host'', host c, ''--port'', str_of_int (port c), ''--reload'',
     ''--log-level'', lower (log_level c)]"

definition cli_main :: "string list" where
  "cli_main = [''gunicorn'', ''app.main:app'', ''-c'', ''gunicorn.conf.py'']"

record gunicorn =
  gu_bind :: string
  gu_workers :: int
  gu_worker_class :: string
  gu_worker_connections :: int
  gu_timeout :: int
  gu_graceful_timeout :: int
  gu_keepalive :: int
  gu_max_requests :: int
  gu_max_requests_jitter :: int
  gu_preload_app :: bool
  gu_accesslog :: "string option"
  gu_errorlog :: string
  gu_loglevel :: string

definition gunicorn_conf :: "int \<Rightarrow> settings \<Rightarrow> gunicorn" where
  "gunicorn_conf cpu_count c = \<lparr>gu_bind = host c @ '':'' @ str_of_int (port c), gu_workers = workers cpu_count c,
     gu_worker_class = ''uvicorn.workers.UvicornWorker'', gu_worker_connections = 1000,
     gu_timeout = gunicorn_timeout c, gu_graceful_timeout = gunicorn_graceful_timeout c, gu_keepalive = gunicorn_keepalive c,
     gu_max_requests = 10000, gu_max_requests_jitter = 1000, gu_preload_app = False,
     gu_accesslog = (if debug c then Some ''-'' else None), gu_errorlog = ''-'', gu_loglevel = lower (log_level c)\<rparr>"

text \<open>
  The formula of the comments: the connections that all processes can open together. Each worker process
  has its own pool (\<^verbatim>\<open>preload_app = False\<close>).
\<close>

definition max_connections_used :: "int \<Rightarrow> int \<Rightarrow> settings \<Rightarrow> int" where
  "max_connections_used replicas cpu_count c =
     (let e = create_engine c in replicas * gu_workers (gunicorn_conf cpu_count c) * (ea_pool_size e + ea_max_overflow e))"

lemma default_capacity: "web_concurrency c = 3 \<Longrightarrow> db_pool_size c = 20 \<Longrightarrow> db_max_overflow c = 10 \<Longrightarrow>
    max_connections_used 3 cpu c = 270"
  by (simp add: max_connections_used_def gunicorn_conf_def create_engine_def workers_def Let_def)

end
