(* ===== verification/Network_Brokers.thy ===== *)
theory Network_Brokers
  imports Broker Config
begin

section \<open>RabbitMQ and Kafka\<close>

text \<open>
  \<^verbatim>\<open>app/broker/rabbitmq.py\<close> and \<^verbatim>\<open>app/broker/kafka.py\<close>. The servers are parameters: the record \<open>amqp\<close> has
  the operations of aio-pika's channel and a view of the server, with the laws that AMQP documents for
  durable fanout exchanges in the locale \<open>amqp_server\<close>; Kafka's topic is its log. \<open>dumps\<close> and \<open>loads\<close> are
  orjson's. Connections that break and are made again are left to the client libraries.
\<close>

definition assertion_error :: "string \<Rightarrow> exn" where
  "assertion_error msg = OtherError ''AssertionError'' msg"

subsection \<open>RabbitMQ\<close>

text \<open>
  \<open>aq_bound\<close> are the pairs of an exchange and a queue bound to it, \<open>aq_queue\<close> the bodies in a queue
  (none for a queue that is not declared).
\<close>

record 'm amqp =
  aq_bound :: "'m \<Rightarrow> (string \<times> string) set"
  aq_queue :: "'m \<Rightarrow> string \<Rightarrow> string list"
  declare_exchange :: "string \<Rightarrow> 'm \<Rightarrow> (exn + unit) \<times> 'm"
  declare_queue :: "string \<Rightarrow> 'm \<Rightarrow> (exn + unit) \<times> 'm"
  bind_queue :: "string \<Rightarrow> string \<Rightarrow> 'm \<Rightarrow> (exn + unit) \<times> 'm"
  exchange_publish :: "string \<Rightarrow> string \<Rightarrow> 'm \<Rightarrow> (exn + unit) \<times> 'm"

locale amqp_server =
  fixes X :: "'m amqp"
  assumes exchange_declared: "declare_exchange X e m = (Inr (), m') \<Longrightarrow> aq_bound X m' = aq_bound X m \<and> aq_queue X m' = aq_queue X m"
    and queue_declared: "declare_queue X q m = (Inr (), m') \<Longrightarrow> aq_bound X m' = aq_bound X m \<and> aq_queue X m' = aq_queue X m"
    and queue_bound: "bind_queue X q e m = (Inr (), m') \<Longrightarrow>
      aq_bound X m' = insert (e, q) (aq_bound X m) \<and> aq_queue X m' = aq_queue X m"
    and exchange_published: "exchange_publish X e body m = (Inr (), m') \<Longrightarrow> aq_bound X m' = aq_bound X m \<and>
      aq_queue X m' = (\<lambda>q. aq_queue X m q @ (if (e, q) \<in> aq_bound X m then [body] else []))"

text \<open>
  The attributes of \<^verbatim>\<open>RabbitMQBroker\<close>: \<open>rb_channel\<close> is \<^verbatim>\<open>self._channel is not None\<close>, \<open>rb_consumers\<close> are the
  callbacks given to \<^verbatim>\<open>queue.consume\<close>, each with its queue and the topic it closes over.
\<close>

record ('m, 'h) rabbit =
  rb_connected :: bool
  rb_closed :: bool
  rb_channel :: bool
  rb_consumers :: "(string \<times> string \<times> 'h) list"
  rb_server :: 'm

text \<open>The answers of \<^verbatim>\<open>connect_robust\<close>, \<^verbatim>\<open>channel\<close> and \<^verbatim>\<open>set_qos\<close>; each attribute is set as soon as its value is there.\<close>

definition rabbit_connect ::
  "exn + unit \<Rightarrow> exn + unit \<Rightarrow> exn + unit \<Rightarrow> ('m, 'h) rabbit \<Rightarrow> (exn + unit) \<times> ('m, 'h) rabbit" where
  "rabbit_connect opened channel qos b = (case opened of
     Inl e \<Rightarrow> (Inl e, b)
   | Inr _ \<Rightarrow> (let b = b\<lparr>rb_connected := True, rb_closed := False\<rparr> in case channel of
       Inl e \<Rightarrow> (Inl e, b)
     | Inr _ \<Rightarrow> (qos, b\<lparr>rb_channel := True\<rparr>)))"

definition rabbit_disconnect :: "('m, 'h) rabbit \<Rightarrow> ('m, 'h) rabbit" where
  "rabbit_disconnect b = (if rb_connected b then b\<lparr>rb_closed := True\<rparr> else b)"

definition rabbit_healthcheck :: "('m, 'h) rabbit \<Rightarrow> bool" where
  "rabbit_healthcheck b \<longleftrightarrow> rb_connected b \<and> \<not> rb_closed b"

definition rabbit_publish ::
  "'m amqp \<Rightarrow> (json \<Rightarrow> string) \<Rightarrow> message \<Rightarrow> ('m, 'h) rabbit \<Rightarrow> (exn + unit) \<times> ('m, 'h) rabbit" where
  "rabbit_publish X dumps msg b =
     (if \<not> rb_channel b then (Inl (assertion_error ''Broker not connected''), b)
      else (case declare_exchange X (m_topic msg) (rb_server b) of
          (Inl e, m) \<Rightarrow> (Inl e, b\<lparr>rb_server := m\<rparr>)
        | (Inr _, m) \<Rightarrow> (case exchange_publish X (m_topic msg) (dumps (m_payload msg)) m of
            (r, m) \<Rightarrow> (r, b\<lparr>rb_server := m\<rparr>))))"

definition rabbit_queue :: "string \<Rightarrow> string \<Rightarrow> string" where
  "rabbit_queue topic grp = topic @ ''.'' @ grp"

definition rabbit_subscribe ::
  "'m amqp \<Rightarrow> string \<Rightarrow> 'h \<Rightarrow> string \<Rightarrow> ('m, 'h) rabbit \<Rightarrow> (exn + unit) \<times> ('m, 'h) rabbit" where
  "rabbit_subscribe X topic handler grp b =
     (if \<not> rb_channel b then (Inl (assertion_error ''Broker not connected''), b)
      else (case declare_exchange X topic (rb_server b) of
          (Inl e, m) \<Rightarrow> (Inl e, b\<lparr>rb_server := m\<rparr>)
        | (Inr _, m) \<Rightarrow> (case declare_queue X (rabbit_queue topic grp) m of
            (Inl e, m) \<Rightarrow> (Inl e, b\<lparr>rb_server := m\<rparr>)
          | (Inr _, m) \<Rightarrow> (case bind_queue X (rabbit_queue topic grp) topic m of
              (Inl e, m) \<Rightarrow> (Inl e, b\<lparr>rb_server := m\<rparr>)
            | (Inr _, m) \<Rightarrow> (Inr (), b\<lparr>rb_server := m,
                rb_consumers := rb_consumers b @ [(rabbit_queue topic grp, topic, handler)]\<rparr>)))))"

text \<open>
  \<^verbatim>\<open>_on_message\<close> for one body: what the handler raises is logged, a body that is no JSON rejects the
  message. The result tells whether the message was acknowledged.
\<close>

definition on_message ::
  "(string \<Rightarrow> exn + json) \<Rightarrow> ('h \<Rightarrow> message \<Rightarrow> 's \<Rightarrow> (exn + unit) \<times> 's) \<Rightarrow> string \<Rightarrow> 'h \<Rightarrow> string \<Rightarrow> 's \<Rightarrow> bool \<times> 's" where
  "on_message loads run topic handler body s = (case loads body of
     Inl _ \<Rightarrow> (False, s)
   | Inr payload \<Rightarrow> (True, snd (run handler (message_of topic payload None) s)))"

subsection \<open>What a group receives\<close>

text \<open>A history of a process: it subscribes and publishes.\<close>

datatype 'h bus_op = Subscribe string 'h string | Publish message

fun rabbit_run :: "'m amqp \<Rightarrow> (json \<Rightarrow> string) \<Rightarrow> 'h bus_op list \<Rightarrow> ('m, 'h) rabbit \<Rightarrow> (exn + unit) \<times> ('m, 'h) rabbit" where
  "rabbit_run X dumps [] b = (Inr (), b)"
| "rabbit_run X dumps (Subscribe t h g # ops) b = (case rabbit_subscribe X t h g b of
     (Inl e, b) \<Rightarrow> (Inl e, b) | (Inr _, b) \<Rightarrow> rabbit_run X dumps ops b)"
| "rabbit_run X dumps (Publish m # ops) b = (case rabbit_publish X dumps m b of
     (Inl e, b) \<Rightarrow> (Inl e, b) | (Inr _, b) \<Rightarrow> rabbit_run X dumps ops b)"

text \<open>The contract: a group is due every message of its topic that is published after it has joined.\<close>

fun published :: "string \<Rightarrow> 'h bus_op list \<Rightarrow> message list" where
  "published t [] = []"
| "published t (Publish m # ops) = (if m_topic m = t then m # published t ops else published t ops)"
| "published t (Subscribe _ _ _ # ops) = published t ops"

fun due :: "string \<Rightarrow> string \<Rightarrow> 'h bus_op list \<Rightarrow> message list" where
  "due t g [] = []"
| "due t g (Subscribe t' _ g' # ops) = (if t' = t \<and> g' = g then published t ops else due t g ops)"
| "due t g (Publish _ # ops) = due t g ops"

fun joined :: "'h bus_op list \<Rightarrow> (string \<times> string) set" where
  "joined [] = {}"
| "joined (Subscribe t _ g # ops) = insert (t, g) (joined ops)"
| "joined (Publish _ # ops) = joined ops"

lemma due_joined: "(t, g) \<notin> joined ops \<Longrightarrow> due t g ops = []"
  by (induction t g ops rule: due.induct) auto

context amqp_server
begin

lemma publish_effect:
  assumes "rabbit_publish X dumps m b = (Inr (), b')"
  shows "aq_bound X (rb_server b') = aq_bound X (rb_server b)"
    "aq_queue X (rb_server b') q = aq_queue X (rb_server b) q @
       (if (m_topic m, q) \<in> aq_bound X (rb_server b) then [dumps (m_payload m)] else [])"
  using assms by (auto simp: rabbit_publish_def dest!: exchange_declared exchange_published split: if_splits prod.splits sum.splits)

lemma subscribe_effect:
  assumes "rabbit_subscribe X t h g b = (Inr (), b')"
  shows "aq_bound X (rb_server b') = insert (t, rabbit_queue t g) (aq_bound X (rb_server b))"
    "aq_queue X (rb_server b') = aq_queue X (rb_server b)"
  using assms by (auto simp: rabbit_subscribe_def dest!: exchange_declared queue_declared queue_bound split: if_splits prod.splits sum.splits)

text \<open>A queue that is bound already collects all that is published to its topic; one that is not, from its binding on.\<close>

lemma bound_collects:
  assumes "rabbit_run X dumps ops b = (Inr (), b')" "(t, q) \<in> aq_bound X (rb_server b)"
    "\<And>e. (e, q) \<in> aq_bound X (rb_server b) \<Longrightarrow> e = t"
    "\<And>t' g'. (t', g') \<in> joined ops \<Longrightarrow> rabbit_queue t' g' = q \<Longrightarrow> t' = t"
  shows "aq_queue X (rb_server b') q = aq_queue X (rb_server b) q @ map (\<lambda>m. dumps (m_payload m)) (published t ops)"
  using assms
proof (induction ops arbitrary: b)
  case Nil
  from Nil.prems(1) show ?case by simp
next
  case (Cons op ops)
  show ?case
  proof (cases op)
    case (Subscribe t' h g)
    then obtain b1 where s: "rabbit_subscribe X t' h g b = (Inr (), b1)" "rabbit_run X dumps ops b1 = (Inr (), b')"
      using Cons.prems(1) by (auto split: prod.splits sum.splits)
    note e = subscribe_effect [OF s(1)]
    have own: "rabbit_queue t' g = q \<Longrightarrow> t' = t" "\<And>t' g'. (t', g') \<in> joined ops \<Longrightarrow> rabbit_queue t' g' = q \<Longrightarrow> t' = t"
      using Cons.prems(4) by (auto simp: Subscribe)
    have "x = t" if "(x, q) \<in> aq_bound X (rb_server b1)" for x
      using that own(1) Cons.prems(3) unfolding e(1) by blast
    moreover have "(t, q) \<in> aq_bound X (rb_server b1)" using Cons.prems(2) unfolding e(1) by blast
    ultimately have "aq_queue X (rb_server b') q = aq_queue X (rb_server b1) q @ map (\<lambda>m. dumps (m_payload m)) (published t ops)"
      using own(2) by (intro Cons.IH [OF s(2)]) blast+
    then show ?thesis by (simp add: Subscribe e(2))
  next
    case (Publish m)
    then obtain b1 where s: "rabbit_publish X dumps m b = (Inr (), b1)" "rabbit_run X dumps ops b1 = (Inr (), b')"
      using Cons.prems(1) by (auto split: prod.splits sum.splits)
    note e = publish_effect [OF s(1)]
    have "aq_queue X (rb_server b') q = aq_queue X (rb_server b1) q @ map (\<lambda>m. dumps (m_payload m)) (published t ops)"
    proof (rule Cons.IH [OF s(2)])
      show "(t, q) \<in> aq_bound X (rb_server b1)" using Cons.prems(2) unfolding e(1) .
      show "x = t" if "(x, q) \<in> aq_bound X (rb_server b1)" for x using that unfolding e(1) by (rule Cons.prems(3))
      show "t' = t" if "(t', g') \<in> joined ops" "rabbit_queue t' g' = q" for t' g'
        by (rule Cons.prems(4) [OF _ that(2)]) (simp add: Publish that(1))
    qed
    moreover have "(m_topic m, q) \<in> aq_bound X (rb_server b) \<longleftrightarrow> m_topic m = t" using Cons.prems(2,3) by blast
    ultimately show ?thesis by (simp add: Publish e(2))
  qed
qed

lemma due_collected:
  assumes "rabbit_run X dumps ops b = (Inr (), b')" "\<And>e. (e, rabbit_queue t g) \<notin> aq_bound X (rb_server b)"
    "aq_queue X (rb_server b) (rabbit_queue t g) = []" "(t, g) \<in> joined ops"
    "inj_on (\<lambda>(t, g). rabbit_queue t g) (joined ops)"
  shows "aq_queue X (rb_server b') (rabbit_queue t g) = map (\<lambda>m. dumps (m_payload m)) (due t g ops)"
  using assms
proof (induction ops arbitrary: b)
  case Nil
  from Nil.prems(4) show ?case by simp
next
  case (Cons op ops)
  let ?q = "rabbit_queue t g"
  show ?case
  proof (cases op)
    case (Subscribe t' h g')
    then obtain b1 where s: "rabbit_subscribe X t' h g' b = (Inr (), b1)" "rabbit_run X dumps ops b1 = (Inr (), b')"
      using Cons.prems(1) by (auto split: prod.splits sum.splits)
    note e = subscribe_effect [OF s(1)]
    have same: "t' = t \<and> g' = g" if "rabbit_queue t' g' = ?q" "(t', g') \<in> joined (op # ops)" for t' g'
      using inj_onD [OF Cons.prems(5), of "(t', g')" "(t, g)"] Cons.prems(4) that by simp
    show ?thesis
    proof (cases "t' = t \<and> g' = g")
      case True
      then have b1: "(t, ?q) \<in> aq_bound X (rb_server b1)" "\<And>x. (x, ?q) \<in> aq_bound X (rb_server b1) \<Longrightarrow> x = t"
        using Cons.prems(2) unfolding e(1) by blast+
      have "t' = t" if "(t', g') \<in> joined ops" "rabbit_queue t' g' = ?q" for t' g'
        using same [OF that(2)] that(1) by (simp add: Subscribe)
      from bound_collects [OF s(2) b1 this]
      have "aq_queue X (rb_server b') ?q = aq_queue X (rb_server b1) ?q @ map (\<lambda>m. dumps (m_payload m)) (published t ops)" .
      then show ?thesis using True by (simp add: Subscribe e(2) Cons.prems(3))
    next
      case False
      then have other: "rabbit_queue t' g' \<noteq> ?q" using same [of t' g'] by (auto simp: Subscribe)
      have "(x, ?q) \<notin> aq_bound X (rb_server b1)" for x using Cons.prems(2) [of x] other [symmetric] by (simp add: e(1))
      moreover have "(t, g) \<in> joined ops" using Cons.prems(4) False by (auto simp: Subscribe)
      moreover have "inj_on (\<lambda>(t, g). rabbit_queue t g) (joined ops)"
        by (rule inj_on_subset [OF Cons.prems(5)]) (auto simp: Subscribe)
      ultimately have "aq_queue X (rb_server b') ?q = map (\<lambda>m. dumps (m_payload m)) (due t g ops)"
        using Cons.prems(3) by (intro Cons.IH [OF s(2)]) (simp_all add: e(2))
      with False show ?thesis by (auto simp: Subscribe)
    qed
  next
    case (Publish m)
    then obtain b1 where s: "rabbit_publish X dumps m b = (Inr (), b1)" "rabbit_run X dumps ops b1 = (Inr (), b')"
      using Cons.prems(1) by (auto split: prod.splits sum.splits)
    note e = publish_effect [OF s(1)]
    have "aq_queue X (rb_server b1) ?q = []" using Cons.prems(2,3) by (simp add: e(2))
    moreover have "(t, g) \<in> joined ops" "inj_on (\<lambda>(t, g). rabbit_queue t g) (joined ops)"
      using Cons.prems(4,5) by (simp_all add: Publish)
    ultimately have "aq_queue X (rb_server b') ?q = map (\<lambda>m. dumps (m_payload m)) (due t g ops)"
      using Cons.prems(2) by (intro Cons.IH [OF s(2)]) (simp_all add: e(1))
    then show ?thesis by (simp add: Publish)
  qed
qed

end

text \<open>What the handlers of a group are given for the bodies in its queue.\<close>

fun received :: "(string \<Rightarrow> exn + json) \<Rightarrow> string \<Rightarrow> string list \<Rightarrow> message list" where
  "received loads topic [] = []"
| "received loads topic (body # bodies) = (case loads body of
     Inl _ \<Rightarrow> received loads topic bodies
   | Inr payload \<Rightarrow> message_of topic payload None # received loads topic bodies)"

lemma received_dumped:
  "(\<And>m. m \<in> set ms \<Longrightarrow> loads (dumps (m_payload m)) = Inr (m_payload m)) \<Longrightarrow>
   received loads t (map (\<lambda>m. dumps (m_payload m)) ms) = map (\<lambda>m. message_of t (m_payload m) None) ms"
  by (induction ms) auto

lemma due_published: "set (due t g ops) \<subseteq> set (published t ops)"
  by (induction t g ops rule: due.induct) auto

subsection \<open>The same contract for the in-memory broker\<close>

text \<open>Here a handler is named by its topic and group.\<close>

fun memory_run :: "'h bus_op list \<Rightarrow> (string \<times> string) memory_broker \<Rightarrow> (string \<times> string) memory_broker" where
  "memory_run [] b = b"
| "memory_run (Subscribe t _ g # ops) b = memory_run ops (subscribe t (t, g) g b)"
| "memory_run (Publish m # ops) b = memory_run ops (snd (publish m b))"

definition handed :: "string \<Rightarrow> string \<Rightarrow> (string \<times> string) memory_broker \<Rightarrow> message list" where
  "handed t g b = map snd (filter (\<lambda>x. fst x = (t, g)) (mb_tasks b))"

definition tagged :: "(string \<times> string) memory_broker \<Rightarrow> bool" where
  "tagged b \<longleftrightarrow> broker_ok b \<and> (\<forall>t g hs. map_of (topic_groups b t) g = Some hs \<longrightarrow> hs \<noteq> [] \<and> set hs = {(t, g)})"

lemma chosen_tagged:
  assumes "distinct (map fst gs)" "\<And>g hs. (g, hs) \<in> set gs \<Longrightarrow> hs \<noteq> [] \<and> set hs = {(T, g)}"
  shows "filter (\<lambda>x. fst x = (t, g)) (chosen b m gs) = (if t = T \<and> map_of gs g \<noteq> None then [((t, g), m)] else [])"
  using assms
proof (induction gs)
  case (Cons x gs)
  obtain g' hs where x: "x = (g', hs)" by force
  then have hs: "hs \<noteq> []" "set hs = {(T, g')}" using Cons.prems(2) by auto
  then have "hs ! (rr_count b (m_topic m) g' mod length hs) = (T, g')" by (metis length_greater_0_conv mod_less_divisor nth_mem singletonD)
  then have "chosen b m (x # gs) = ((T, g'), m) # chosen b m gs" using hs by (simp add: chosen_def x)
  moreover have "filter (\<lambda>x. fst x = (t, g)) (chosen b m gs) = (if t = T \<and> map_of gs g \<noteq> None then [((t, g), m)] else [])"
    using Cons.prems by (intro Cons.IH) auto
  moreover have "map_of gs g' = None" using Cons.prems(1) by (simp add: x map_of_eq_None_iff)
  ultimately show ?case by (auto simp: x)
qed (simp add: chosen_def)

lemma tagged_ops:
  assumes "tagged b"
  shows "tagged (subscribe t (t, g) g b)" "tagged (snd (publish m b))"
    "handed t' g' (subscribe t (t, g) g b) = handed t' g' b"
    "handed t' g' (snd (publish m b)) = handed t' g' b @
       (if t' = m_topic m \<and> map_of (topic_groups b t') g' \<noteq> None then [m] else [])"
proof -
  have ok: "broker_ok b" and tags: "\<And>t g hs. map_of (topic_groups b t) g = Some hs \<Longrightarrow> hs \<noteq> [] \<and> set hs = {(t, g)}"
    using assms by (auto simp: tagged_def)
  show "tagged (subscribe t (t, g) g b)"
    using broker_ok_subscribe [OF ok] tags by (auto simp: tagged_def topic_groups_subscribe split: if_splits option.splits)
  have "topic_groups (snd (publish m b)) = topic_groups b" by (rule topic_groups_cong) (simp add: publish_def)
  then show "tagged (snd (publish m b))" using assms by (simp add: tagged_def broker_ok_def)
  show "handed t' g' (subscribe t (t, g) g b) = handed t' g' b" by (simp add: handed_def subscribe_def Let_def)
  have d: "distinct (map fst (topic_groups b (m_topic m)))" using ok by (simp add: broker_ok_def)
  have "filter (\<lambda>x. fst x = (t', g')) (chosen b m (topic_groups b (m_topic m))) =
      (if t' = m_topic m \<and> map_of (topic_groups b (m_topic m)) g' \<noteq> None then [((t', g'), m)] else [])"
  proof (rule chosen_tagged [OF d])
    show "hs \<noteq> [] \<and> set hs = {(m_topic m, g)}" if "(g, hs) \<in> set (topic_groups b (m_topic m))" for g hs
      using tags [OF map_of_is_SomeI [OF d that]] .
  qed
  then show "handed t' g' (snd (publish m b)) = handed t' g' b @
      (if t' = m_topic m \<and> map_of (topic_groups b t') g' \<noteq> None then [m] else [])"
    by (auto simp: handed_def publish_def publish_groups_tasks [OF d])
qed

lemma memory_due:
  "tagged b \<Longrightarrow> handed t g (memory_run ops b) = handed t g b @
     (if map_of (topic_groups b t) g \<noteq> None then published t ops else due t g ops)"
proof (induction ops b rule: memory_run.induct)
  case (2 t' h g' ops b)
  then show ?case by (auto simp: tagged_ops topic_groups_subscribe)
next
  case (3 m ops b)
  have "topic_groups (snd (publish m b)) = topic_groups b" by (rule topic_groups_cong) (simp add: publish_def)
  with 3 show ?case by (simp add: tagged_ops)
qed simp

lemma tagged_empty: "tagged InMemoryBroker"
  by (simp add: tagged_def broker_ok_def InMemoryBroker_def topic_groups_def)

subsection \<open>A server\<close>

text \<open>The laws hold of a server in memory: the bindings, and the queues by name.\<close>

definition mem_amqp :: "((string \<times> string) list \<times> (string \<times> string) list) amqp" where
  "mem_amqp = \<lparr>aq_bound = \<lambda>m. set (fst m), aq_queue = \<lambda>m q. map snd (filter (\<lambda>x. fst x = q) (snd m)),
     declare_exchange = \<lambda>_ m. (Inr (), m), declare_queue = \<lambda>_ m. (Inr (), m),
     bind_queue = \<lambda>q e m. (Inr (), (e, q) # fst m, snd m),
     exchange_publish = \<lambda>e body m. (Inr (), fst m, snd m @ map (\<lambda>q. (q, body)) (remdups (map snd (filter (\<lambda>x. fst x = e) (fst m)))))\<rparr>"

lemma filter_eq_distinct: "distinct xs \<Longrightarrow> filter (\<lambda>x. x = a) xs = (if a \<in> set xs then [a] else [])"
  by (induction xs) auto

interpretation mem_amqp: amqp_server mem_amqp
proof
  fix e body m m'
  assume "exchange_publish mem_amqp e body m = (Inr (), m')"
  then show "aq_bound mem_amqp m' = aq_bound mem_amqp m \<and> aq_queue mem_amqp m' =
      (\<lambda>q. aq_queue mem_amqp m q @ (if (e, q) \<in> aq_bound mem_amqp m then [body] else []))"
    by (auto simp: mem_amqp_def filter_map o_def filter_eq_distinct image_iff fun_eq_iff)
qed (auto simp: mem_amqp_def)

subsection \<open>Fan-out\<close>


definition demo_ops :: "unit bus_op list" where
  "demo_ops = [Subscribe ''users.created'' () ''users-audit'', Publish (message_of ''users.created'' JNull (Some ''k'')),
     Subscribe ''users.created'' () ''users-welcome'', Publish (message_of ''users.created'' JNull None)]"

definition demo_rabbit :: "((string \<times> string) list \<times> (string \<times> string) list, unit) rabbit" where
  "demo_rabbit = \<lparr>rb_connected = True, rb_closed = False, rb_channel = True, rb_consumers = [], rb_server = ([], [])\<rparr>"


text \<open>The names can clash: these two groups of different topics share a queue.\<close>

lemma queue_names_clash: "rabbit_queue ''users'' ''created.audit'' = rabbit_queue ''users.created'' ''audit''"
  by (simp add: rabbit_queue_def)

subsection \<open>Kafka\<close>

text \<open>
  \<open>kb_producer\<close> is \<^verbatim>\<open>self._producer is not None\<close>, \<open>kb_tasks\<close> are the running consumers with their topic,
  handler and group id. \<open>send\<close> is the producer's \<^verbatim>\<open>send_and_wait\<close>.
\<close>

record 'h kafka_broker =
  kb_servers :: string
  kb_producer :: bool
  kb_tasks :: "(string \<times> 'h \<times> string) list"

definition kafka_connect :: "exn + unit \<Rightarrow> 'h kafka_broker \<Rightarrow> (exn + unit) \<times> 'h kafka_broker" where
  "kafka_connect answer b = (answer, b\<lparr>kb_producer := True\<rparr>)"

definition kafka_disconnect :: "'h kafka_broker \<Rightarrow> 'h kafka_broker" where
  "kafka_disconnect b = b\<lparr>kb_tasks := []\<rparr>"

definition kafka_healthcheck :: "'h kafka_broker \<Rightarrow> bool" where
  "kafka_healthcheck b = kb_producer b"

definition kafka_publish ::
  "(string \<Rightarrow> string \<Rightarrow> string option \<Rightarrow> 'k \<Rightarrow> (exn + unit) \<times> 'k) \<Rightarrow> (json \<Rightarrow> string) \<Rightarrow> message \<Rightarrow> 'h kafka_broker \<Rightarrow> 'k \<Rightarrow>
   (exn + unit) \<times> 'k" where
  "kafka_publish send dumps msg b k =
     (if \<not> kb_producer b then (Inl (assertion_error ''Broker not connected''), k)
      else (let key = (if str_truthy (m_key msg) then m_key msg else None)
            in send (m_topic msg) (dumps (m_payload msg)) key k))"

definition kafka_subscribe :: "settings \<Rightarrow> string \<Rightarrow> 'h \<Rightarrow> string \<Rightarrow> 'h kafka_broker \<Rightarrow> 'h kafka_broker" where
  "kafka_subscribe c topic handler grp b = b\<lparr>kb_tasks := kb_tasks b @ [(topic, handler, app_name c @ ''.'' @ grp)]\<rparr>"

text \<open>
  The loop of \<^verbatim>\<open>_consume\<close> over the values of the records. What the handler raises is logged; a value that is no
  JSON is raised by the iteration itself, outside the \<^verbatim>\<open>try\<close>, and ends the consumer. The result tells
  whether it still runs.
\<close>

fun kafka_consume ::
  "(string \<Rightarrow> exn + json) \<Rightarrow> ('h \<Rightarrow> message \<Rightarrow> 's \<Rightarrow> (exn + unit) \<times> 's) \<Rightarrow> string \<Rightarrow> 'h \<Rightarrow> string list \<Rightarrow> 's \<Rightarrow> bool \<times> 's" where
  "kafka_consume loads run topic handler [] s = (True, s)"
| "kafka_consume loads run topic handler (value # values) s = (case loads value of
     Inl _ \<Rightarrow> (False, s)
   | Inr payload \<Rightarrow> kafka_consume loads run topic handler values (snd (run handler (message_of topic payload None) s)))"

text \<open>A record that is no JSON stops its group: nothing behind it is handled.\<close>

lemma kafka_poison:
  assumes "\<And>v. v \<in> set vs \<Longrightarrow> \<exists>p. loads v = Inr p" "loads poison = Inl e"
  shows "kafka_consume loads run topic h (vs @ poison # rest) s = (False, snd (kafka_consume loads run topic h vs s))"
  using assms(1) by (induction vs arbitrary: s) (use assms(2) in \<open>auto split: sum.splits\<close>)

text \<open>RabbitMQ's consumer rejects it and goes on.\<close>

lemma rabbit_skips_poison: "loads body = Inl e \<Longrightarrow> on_message loads run topic h body s = (False, s)"
  by (simp add: on_message_def)

text \<open>A broker that has been disconnected still reports that it is healthy.\<close>

lemma kafka_healthy_after_disconnect: "kafka_healthcheck (kafka_disconnect (snd (kafka_connect r b)))"
  by (simp add: kafka_healthcheck_def kafka_disconnect_def kafka_connect_def)

end
