(* ===== verification/Logging.thy ===== *)
theory Logging
  imports Config
begin

section \<open>Logging\<close>

text \<open>
  \<^verbatim>\<open>app/core/logging.py\<close>: the processors that the program puts into structlog's chain, the handlers and
  levels that \<^verbatim>\<open>setup_logging\<close> configures; and the decorator \<^verbatim>\<open>logged\<close> of \<^verbatim>\<open>app/decorators/logging.py\<close>.
  An event is a dict, here an association list; structlog's own processors are parameters. What a
  renderer prints is not modelled.
\<close>

type_synonym event = "(string \<times> json) list"

definition dict_pop :: "string \<Rightarrow> event \<Rightarrow> json option \<times> event" where
  "dict_pop k d = (map_of d k, filter (\<lambda>x. fst x \<noteq> k) d)"

definition dict_default :: "string \<Rightarrow> json \<Rightarrow> event \<Rightarrow> event" where
  "dict_default k v d = (if map_of d k = None then d @ [(k, v)] else d)"

lemma map_of_filter_neq: "map_of (filter (\<lambda>x. fst x \<noteq> k) d) k' = (if k' = k then None else map_of d k')"
  by (induction d) auto

subsection \<open>Processors\<close>

text \<open>
  \<open>relpath\<close> is \<^verbatim>\<open>os.path.relpath\<close> to the root of the project, nothing where it raises \<^verbatim>\<open>ValueError\<close>.
\<close>

definition basename :: "string \<Rightarrow> string" where
  "basename path = last (split_on CHR ''/'' path)"

definition caller_location :: "(string \<Rightarrow> string option) \<Rightarrow> string \<Rightarrow> int option \<Rightarrow> string" where
  "caller_location relpath pathname lineno =
     (let rel = (case relpath pathname of Some r \<Rightarrow> r | None \<Rightarrow> basename pathname)
      in case lineno of Some n \<Rightarrow> rel @ '':'' @ str_of_int n | None \<Rightarrow> rel)"

text \<open>
  \<^verbatim>\<open>_raised_at\<close> of app/exceptions/handlers.py: the innermost of the traceback's frames (file and line), if
  the exception has a traceback.
\<close>

definition raised_at :: "(string \<Rightarrow> string option) \<Rightarrow> (string \<times> int option) list option \<Rightarrow> string option" where
  "raised_at relpath tb = (case tb of None \<Rightarrow> None
     | Some frames \<Rightarrow> if frames = [] then None
         else Some (caller_location relpath (fst (last frames)) (snd (last frames))))"

text \<open>The callsite's fields are a text and a number.\<close>

definition number_of :: "json option \<Rightarrow> int option" where
  "number_of j = (case j of Some (JNum r) \<Rightarrow> Some \<lfloor>r\<rfloor> | _ \<Rightarrow> None)"

definition text_of :: "json option \<Rightarrow> string option" where
  "text_of j = (case j of Some (JStr s) \<Rightarrow> Some s | _ \<Rightarrow> None)"

definition format_caller :: "(string \<Rightarrow> string option) \<Rightarrow> event \<Rightarrow> event" where
  "format_caller relpath d =
     (let (pathname, d) = dict_pop ''pathname'' d; (lineno, d) = dict_pop ''lineno'' d
      in if map_of d ''caller'' \<noteq> None then d
         else (case text_of pathname of
             Some p \<Rightarrow> assoc_set ''caller'' (JStr (caller_location relpath p (number_of lineno))) d
           | None \<Rightarrow> d))"

definition inject_context :: "settings \<Rightarrow> string option \<Rightarrow> string option \<Rightarrow> event \<Rightarrow> event" where
  "inject_context c rid tid d =
     (let d = (if str_truthy rid then assoc_set ''request_id'' (JStr (the rid)) d else d);
          d = (if str_truthy tid then assoc_set ''trace_id'' (JStr (the tid)) d else d);
          d = dict_default ''service'' (JStr (app_name c)) d
      in dict_default ''environment'' (JStr (environment_value (environment c))) d)"

text \<open>The chain; the other processors are structlog's, in the places where the code has them.\<close>

definition shared_processors ::
  "(event \<Rightarrow> event) \<Rightarrow> (event \<Rightarrow> event) \<Rightarrow> (event \<Rightarrow> event) \<Rightarrow> (event \<Rightarrow> event) \<Rightarrow> (string \<Rightarrow> string option) \<Rightarrow>
   settings \<Rightarrow> string option \<Rightarrow> string option \<Rightarrow> (event \<Rightarrow> event) list" where
  "shared_processors merge_contextvars add_log_level callsite stack_info relpath c rid tid =
     [merge_contextvars, add_log_level, callsite, format_caller relpath, inject_context c rid tid, stack_info]"

definition processed :: "(event \<Rightarrow> event) list \<Rightarrow> event \<Rightarrow> event" where
  "processed ps d = fold (\<lambda>f d. f d) ps d"

lemma format_caller_drops:
  "map_of (format_caller relpath d) ''pathname'' = None" "map_of (format_caller relpath d) ''lineno'' = None"
  by (simp_all add: format_caller_def dict_pop_def Let_def map_of_filter_neq del: filter_filter split: option.split)

lemma format_caller_sel:
  "map_of d ''caller'' = Some j \<Longrightarrow> map_of (format_caller relpath d) ''caller'' = Some j"
  "map_of d ''caller'' = None \<Longrightarrow> map_of d ''pathname'' = Some (JStr p) \<Longrightarrow> map_of d ''lineno'' = Some (JNum (of_int n)) \<Longrightarrow>
   map_of (format_caller relpath d) ''caller'' = Some (JStr (caller_location relpath p (Some n)))"
  by (simp_all add: format_caller_def dict_pop_def Let_def map_of_filter_neq text_of_def number_of_def del: filter_filter
      split: option.split)

lemma inject_context_sel:
  "str_truthy rid \<Longrightarrow> map_of (inject_context c rid tid d) ''request_id'' = Some (JStr (the rid))"
  "map_of d ''service'' = Some j \<Longrightarrow> map_of (inject_context c rid tid d) ''service'' = Some j"
  "map_of d ''service'' = None \<Longrightarrow> map_of (inject_context c rid tid d) ''service'' = Some (JStr (app_name c))"
  "map_of (inject_context c rid tid d) ''caller'' = map_of d ''caller''"
  by (auto simp: inject_context_def dict_default_def Let_def map_add_def split: option.split)

subsection \<open>Set-up\<close>

datatype renderer = JsonRenderer | ConsoleRenderer

datatype log_handler =
    StdoutHandler renderer
  | RotatingFile string int int bool renderer

record logger_config =
  lc_handlers :: "log_handler list"
  lc_level :: "int option"
  lc_propagate :: bool

text \<open>\<^verbatim>\<open>logging.getLevelNamesMapping\<close>.\<close>

definition level_names :: "string \<Rightarrow> int option" where
  "level_names = map_of [(''CRITICAL'', 50), (''FATAL'', 50), (''ERROR'', 40), (''WARN'', 30), (''WARNING'', 30),
     (''INFO'', 20), (''DEBUG'', 10), (''NOTSET'', 0)]"

definition console_renderer :: "settings \<Rightarrow> renderer" where
  "console_renderer c = (if log_json c then JsonRenderer else ConsoleRenderer)"

definition file_renderer :: renderer where
  "file_renderer = JsonRenderer"

definition build_file_handler :: "settings \<Rightarrow> log_handler" where
  "build_file_handler c = RotatingFile (log_file_path c) (log_file_max_bytes c) (log_file_backup_count c) True file_renderer"

text \<open>The loggers by name, the root as the empty name; what is not there is as it was.\<close>

definition setup_logging :: "settings \<Rightarrow> (string \<Rightarrow> logger_config) \<Rightarrow> string \<Rightarrow> logger_config" where
  "setup_logging c old =
     (let level = (case level_names (upper (log_level c)) of Some n \<Rightarrow> n | None \<Rightarrow> 20);
          root = \<lparr>lc_handlers = [StdoutHandler (console_renderer c)] @ (if log_file_enabled c then [build_file_handler c] else []),
            lc_level = Some level, lc_propagate = lc_propagate (old [])\<rparr>
      in (\<lambda>name. if name = [] then root
           else if name = ''uvicorn.access'' then (old name)\<lparr>lc_handlers := [], lc_propagate := False\<rparr>
           else if name \<in> {''uvicorn'', ''uvicorn.error'', ''gunicorn.error''}
             then (old name)\<lparr>lc_handlers := [], lc_propagate := True\<rparr>
           else if name = ''sqlalchemy.engine'' then (old name)\<lparr>lc_propagate := False\<rparr>
           else old name))"

text \<open>Configuring twice is configuring once: a reload does not double the handlers.\<close>

lemma setup_logging_idempotent: "setup_logging c (setup_logging c old) = setup_logging c old"
  by (auto simp: setup_logging_def Let_def fun_eq_iff)

subsection \<open>The decorator\<close>

text \<open>
  A record is the level, the event's name and its fields. \<open>ms\<close> is the measured latency; \<open>log\<close> is where the
  records go.
\<close>

type_synonym log_record = "string \<times> string \<times> event"

definition logged ::
  "string \<Rightarrow> string \<Rightarrow> string \<Rightarrow> (exn \<Rightarrow> string) \<Rightarrow> rat \<Rightarrow> ('s \<Rightarrow> (exn + 'a) \<times> 's) \<Rightarrow> 's \<times> log_record list \<Rightarrow>
   (exn + 'a) \<times> 's \<times> log_record list" where
  "logged name level caller text ms func sl = (case func (fst sl) of
     (Inl e, s) \<Rightarrow> (Inl e, s, snd sl @ [(''error'', name, [(''status'', JStr ''error''), (''latency_ms'', JNum ms),
        (''error'', JStr (text e)), (''caller'', JStr caller)])])
   | (Inr x, s) \<Rightarrow> (Inr x, s, snd sl @ [(level, name, [(''status'', JStr ''ok''), (''latency_ms'', JNum ms),
        (''caller'', JStr caller)])]))"

text \<open>
  The decorator changes nothing but the log: this is why the services are modelled without it. It
  writes one record, which keeps its own \<^verbatim>\<open>caller\<close> in the chain.
\<close>

lemma logged_transparent:
  "\<exists>rec. logged name level caller text ms func (s, l) = (fst (func s), snd (func s), l @ [rec]) \<and>
     map_of (snd (snd rec)) ''status'' = Some (JStr (if isl (fst (func s)) then ''error'' else ''ok'')) \<and>
     map_of (inject_context c rid tid (format_caller relpath (snd (snd rec)))) ''caller'' = Some (JStr caller)"
  by (cases "func s"; cases "fst (func s)") (auto simp: logged_def inject_context_sel format_caller_sel)

end
