(* ===== verification/Clients.thy ===== *)
theory Clients
  imports Messages
begin

section \<open>Constructing clients, the shorthand verbs, the example clients\<close>

text \<open>
  The constructor of \<^verbatim>\<open>app/clients/base.py\<close> and its shorthands for one HTTP verb, the prepared classes of
  \<^verbatim>\<open>app/clients/auth.py\<close> and the four clients of \<^verbatim>\<open>app/clients/example.py\<close>. A parameter \<open>open_client\<close>
  stands for \<^verbatim>\<open>httpx.AsyncClient(...).request\<close>, \<open>loads\<close> for \<^verbatim>\<open>resp.json()\<close>.
\<close>

subsection \<open>Construction\<close>

record client_class =
  cc_base_url :: "string option"
  cc_service_name :: string
  cc_timeout :: rat
  cc_max_connections :: int
  cc_max_keepalive :: int

definition BaseHTTPClient :: client_class where
  "BaseHTTPClient = \<lparr>cc_base_url = None, cc_service_name = ''external'', cc_timeout = 10,
     cc_max_connections = 100, cc_max_keepalive = 20\<rparr>"

record httpx_args =
  hx_base_url :: string
  hx_timeout :: rat
  hx_headers :: "(string \<times> string) list"
  hx_max_connections :: int
  hx_max_keepalive :: int
  hx_auth :: "(string \<times> string) option"

type_synonym 's transport = "string \<Rightarrow> string \<Rightarrow> options \<Rightarrow> 's \<Rightarrow> (exn + response) \<times> 's"

text \<open>A zero \<^verbatim>\<open>timeout\<close> and an empty \<^verbatim>\<open>base_url\<close> fall back to the class, as Python's \<^verbatim>\<open>or\<close> has it.\<close>

definition httpx_args_of :: "client_class \<Rightarrow> string option \<Rightarrow> (string \<times> string) list option \<Rightarrow> rat option \<Rightarrow> httpx_args" where
  "httpx_args_of K base_url headers timeout =
     \<lparr>hx_base_url = str_or base_url (str_or (cc_base_url K) []),
      hx_timeout = (case timeout of Some t \<Rightarrow> if t = 0 then cc_timeout K else t | None \<Rightarrow> cc_timeout K),
      hx_headers = (case headers of Some h \<Rightarrow> h | None \<Rightarrow> []),
      hx_max_connections = cc_max_connections K, hx_max_keepalive = cc_max_keepalive K, hx_auth = None\<rparr>"

text \<open>\<^verbatim>\<open>BasicAuthMixin\<close>: the pair goes to \<^verbatim>\<open>httpx\<close>, unless the caller gave an authentication of its own.\<close>

definition BasicAuthMixin :: "string \<Rightarrow> string \<Rightarrow> httpx_args \<Rightarrow> httpx_args" where
  "BasicAuthMixin username password args =
     args\<lparr>hx_auth := (case hx_auth args of Some a \<Rightarrow> Some a | None \<Rightarrow> Some (username, password))\<rparr>"

definition client_init ::
  "client_class \<Rightarrow> (httpx_args \<Rightarrow> 's transport) \<Rightarrow> (string \<Rightarrow> exn + json) \<Rightarrow> string option \<Rightarrow>
   (string \<times> string) list option \<Rightarrow> rat option \<Rightarrow> retry_policy option \<Rightarrow> 's http_client" where
  "client_init K open_client loads base_url headers timeout policy =
     \<lparr>hc_service = cc_service_name K,
      hc_retry = (case policy of Some P \<Rightarrow> P | None \<Rightarrow> RetryPolicy),
      hc_default_headers = [], hc_prepare = (\<lambda>verb url opts w. (Inr opts, w)),
      hc_transport = open_client (httpx_args_of K base_url headers timeout), hc_loads = loads\<rparr>"

lemma client_init_sel [simp]:
  "hc_service (client_init K oc ld b h t r) = cc_service_name K"
  "hc_default_headers (client_init K oc ld b h t r) = []"
  "hc_prepare (client_init K oc ld b h t r) = (\<lambda>verb url opts w. (Inr opts, w))"
  "hc_retry (client_init K oc ld b h t None) = RetryPolicy"
  by (simp_all add: client_init_def)

subsection \<open>The shorthands\<close>

definition http_get :: "'s http_client \<Rightarrow> (json \<Rightarrow> 'm option) option \<Rightarrow> bool \<Rightarrow> retry_policy option \<Rightarrow> string \<Rightarrow> options \<Rightarrow>
  's world \<Rightarrow> (exn + 'm reply) \<times> 's world" where
  "http_get C model parse_json policy url opts w = request C model parse_json policy ''GET'' url opts w"

definition http_post :: "'s http_client \<Rightarrow> (json \<Rightarrow> 'm option) option \<Rightarrow> bool \<Rightarrow> retry_policy option \<Rightarrow> string \<Rightarrow> options \<Rightarrow>
  's world \<Rightarrow> (exn + 'm reply) \<times> 's world" where
  "http_post C model parse_json policy url opts w = request C model parse_json policy ''POST'' url opts w"

definition http_put :: "'s http_client \<Rightarrow> (json \<Rightarrow> 'm option) option \<Rightarrow> bool \<Rightarrow> retry_policy option \<Rightarrow> string \<Rightarrow> options \<Rightarrow>
  's world \<Rightarrow> (exn + 'm reply) \<times> 's world" where
  "http_put C model parse_json policy url opts w = request C model parse_json policy ''PUT'' url opts w"

definition http_patch :: "'s http_client \<Rightarrow> (json \<Rightarrow> 'm option) option \<Rightarrow> bool \<Rightarrow> retry_policy option \<Rightarrow> string \<Rightarrow> options \<Rightarrow>
  's world \<Rightarrow> (exn + 'm reply) \<times> 's world" where
  "http_patch C model parse_json policy url opts w = request C model parse_json policy ''PATCH'' url opts w"

definition http_delete :: "'s http_client \<Rightarrow> (json \<Rightarrow> 'm option) option \<Rightarrow> bool \<Rightarrow> retry_policy option \<Rightarrow> string \<Rightarrow> options \<Rightarrow>
  's world \<Rightarrow> (exn + 'm reply) \<times> 's world" where
  "http_delete C model parse_json policy url opts w = request C model parse_json policy ''DELETE'' url opts w"

text \<open>
  Under a policy with the default statuses and verbs, the two verbs that may change something at each
  repetition go out once, whatever the service answers, if the hook itself sends nothing.
\<close>

lemma unsafe_verbs_sent_once:
  assumes "verb = ''POST'' \<or> verb = ''PATCH''" "policy_of C policy = RetryPolicy"
    and "prepared C verb url opts w = (Inr opts', w1)" "w_sent w1 = w_sent w"
  shows "w_sent (snd (request C model pj policy verb url opts w)) = w_sent w @ [(verb, url, opts')]"
proof -
  have v: "upper verb = verb" "tries RetryPolicy verb 0 = 1"
    using assms(1) by (auto simp: upper_def upper_char_def tries_def RetryPolicy_def)
  have "0 \<le> rt_backoff_base RetryPolicy" "0 \<le> rt_backoff_max RetryPolicy" by (simp_all add: RetryPolicy_def)
  from request_loop_spec [OF this, of C model pj verb url opts' 0 w1]
  have "w_sent (snd (request_loop C RetryPolicy model pj verb url opts' 0 w1)) = w_sent w1 @ [(verb, url, opts')]"
    unfolding v(2) by auto
  with assms v(1) show ?thesis by (simp add: request_prepared)
qed

subsection \<open>The example clients\<close>

record entry =
  en_name :: string
  en_url :: string

record order =
  or_id :: string
  or_status :: string

text \<open>\<^verbatim>\<open>BaseModel\<close> of two strings: further fields of the document are ignored.\<close>

definition two_strings :: "string \<Rightarrow> string \<Rightarrow> json \<Rightarrow> (string \<times> string) option" where
  "two_strings f g j = (case j of
     JObj d \<Rightarrow> (case (map_of d f, map_of d g) of (Some (JStr a), Some (JStr b)) \<Rightarrow> Some (a, b) | _ \<Rightarrow> None)
   | _ \<Rightarrow> None)"

definition Entry :: "json \<Rightarrow> entry option" where
  "Entry j = map_option (\<lambda>(n, u). \<lparr>en_name = n, en_url = u\<rparr>) (two_strings ''name'' ''url'' j)"

definition Order :: "json \<Rightarrow> order option" where
  "Order j = map_option (\<lambda>(i, s). \<lparr>or_id = i, or_status = s\<rparr>) (two_strings ''id'' ''status'' j)"

text \<open>\<^verbatim>\<open>list[M]\<close> and \<^verbatim>\<open>dict[str, Any]\<close>.\<close>

fun list_model :: "(json \<Rightarrow> 'm option) \<Rightarrow> json \<Rightarrow> 'm list option" where
  "list_model M (JArr js) = those (map M js)"
| "list_model M _ = None"

definition PublicAPIClient :: client_class where
  "PublicAPIClient = BaseHTTPClient\<lparr>cc_base_url := Some ''https://api.publicapis.example'', cc_service_name := ''publicapi''\<rparr>"

definition get_entries :: "'s http_client \<Rightarrow> 's world \<Rightarrow> (exn + entry list reply api_response) \<times> 's world" where
  "get_entries C w = call C (Some (list_model Entry)) ''GET'' ''/entries'' no_options w"

definition WeatherAPIClient :: client_class where
  "WeatherAPIClient = BaseHTTPClient\<lparr>cc_base_url := Some ''https://api.weather.example'', cc_service_name := ''weather''\<rparr>"

definition weather_client :: "(httpx_args \<Rightarrow> 's transport) \<Rightarrow> (string \<Rightarrow> exn + json) \<Rightarrow> string \<Rightarrow> 's http_client" where
  "weather_client open_client loads api_key =
     ApiKeyQueryMixin ''appid'' api_key (client_init WeatherAPIClient open_client loads None None None None)"

definition forecast :: "'s http_client \<Rightarrow> string \<Rightarrow> 's world \<Rightarrow> (exn + (string \<times> json) list reply api_response) \<times> 's world" where
  "forecast C city w = call C (Some as_dict) ''GET'' ''/forecast'' (no_options\<lparr>op_params := Some [(''q'', city)]\<rparr>) w"

definition PartnerAPIClient :: client_class where
  "PartnerAPIClient = BaseHTTPClient\<lparr>cc_base_url := Some ''https://partner.example/api/v1'', cc_service_name := ''partner''\<rparr>"

definition partner_client :: "(httpx_args \<Rightarrow> 's transport) \<Rightarrow> (string \<Rightarrow> exn + json) \<Rightarrow> string \<Rightarrow> 's http_client" where
  "partner_client open_client loads token =
     BearerAuthMixin token (client_init PartnerAPIClient open_client loads None None None None)"

definition create_order :: "'s http_client \<Rightarrow> (string \<times> json) list \<Rightarrow> 's world \<Rightarrow> (exn + order reply api_response) \<times> 's world" where
  "create_order C payload w = call C (Some Order) ''POST'' ''/orders'' (no_options\<lparr>op_json := Some (JObj payload)\<rparr>) w"

definition BillingAPIClient :: client_class where
  "BillingAPIClient = BaseHTTPClient\<lparr>cc_base_url := Some ''https://billing.example/api'', cc_service_name := ''billing''\<rparr>"

text \<open>The login path is a class attribute; \<open>call\<close> goes through the \<open>request\<close> that the mixin overrides.\<close>

definition billing_login :: "string \<Rightarrow> string \<Rightarrow> login_config" where
  "billing_login username password = \<lparr>lc_path = ''/login'', lc_username = username, lc_password = password\<rparr>"

definition get_invoice ::
  "login_config \<Rightarrow> 's http_client \<Rightarrow> string \<Rightarrow> 's world \<Rightarrow> (exn + (string \<times> json) list reply api_response) \<times> 's world" where
  "get_invoice L C invoice_id w =
     enveloped (token_request L C (Some as_dict) True None ''GET'' (''/invoices/'' @ invoice_id) no_options w)"

lemma snd_call: "snd (call C model verb url opts w) = snd (request C model True None verb url opts w)"
  by (auto simp: call_def enveloped_def split: prod.split sum.split exn.split)

text \<open>An order goes out once, with the token.\<close>

lemma create_order_once:
  "w_sent (snd (create_order (partner_client oc ld token) payload w)) = w_sent w @
     [(''POST'', ''/orders'', \<lparr>op_headers = [(''Authorization'', ''Bearer '' @ token)], op_params = None, op_json = Some (JObj payload)\<rparr>)]"
  unfolding create_order_def snd_call
  by (rule unsafe_verbs_sent_once)
    (simp_all add: policy_of_def partner_client_def BearerAuthMixin_def client_init_def prepared_def
      authorize_def no_options_def assoc_merge_def)

text \<open>A forecast carries the city and the key in the query.\<close>

lemma forecast_params:
  "prepared (weather_client oc ld key) ''GET'' ''/forecast'' (no_options\<lparr>op_params := Some [(''q'', city)]\<rparr>) w =
     (Inr (no_options\<lparr>op_params := Some [(''q'', city), (''appid'', key)]\<rparr>), w)"
  by (simp add: prepared_def weather_client_def ApiKeyQueryMixin_def no_options_def assoc_merge_def)

text \<open>
  An invoice is asked for with the token of the client, or after a login if it has none; a login that
  fails with an error answer becomes the envelope of that error.
\<close>

lemma get_invoice_login_refused:
  assumes "hc_prepare C = (\<lambda>_ _ opts w. (Inr opts, w))" "w_token w = None" "w_token w1 = None"
    and "token_login L C w = (Inl (ExternalAPIError se st body u), w1)" "lc_path L = ''/login''"
  shows "\<exists>ae. get_invoice L C i w = (Inr \<lparr>ar_status = False, ar_data = None, ar_error = Some ae\<rparr>, w1) \<and>
    ae_message ae = se_message se \<and> ae_upstream_status ae = st"
  using assms
  by (simp add: get_invoice_def token_request_def request_prepared prepared_def token_client_def ensure_token_def
      str_truthy_def enveloped_def ApiError_def api_failure_def)

end
