(* ===== verification/Row_Locks.thy ===== *)
theory Row_Locks
  imports Ledger
begin

section \<open>Overlapping transactions\<close>

text \<open>
  \<^verbatim>\<open>AccountService.deposit\<close> and \<^verbatim>\<open>withdraw\<close> read the account with \<^verbatim>\<open>SELECT ... FOR UPDATE\<close> (\<^verbatim>\<open>for_update\<close>,
  app/repositories/base.py); \<^verbatim>\<open>UserService.update\<close> reads without a lock and lets the version of the row decide
  at the write (app/models/base.py). Here many such transactions overlap: each is two steps, the read and
  the rest, and anything may happen between them. Each statement sees the contents committed before it
  (\<^verbatim>\<open>READ COMMITTED\<close>, PostgreSQL's default). A locked row can be locked, changed or deleted by nobody else until the
  transaction ends.
\<close>

subsection \<open>Money under a row lock\<close>

datatype move =
    MoveIn uuid timestamp uuid int acquirer_name "uuid list"
  | MoveOut uuid timestamp uuid int acquirer_name

fun move_account :: "move \<Rightarrow> uuid" where
  "move_account (MoveIn i now aid amount acq cids) = aid"
| "move_account (MoveOut i now aid amount acq) = aid"

fun move_amount :: "move \<Rightarrow> int" where
  "move_amount (MoveIn i now aid amount acq cids) = amount"
| "move_amount (MoveOut i now aid amount acq) = amount"

fun move_delta :: "move \<Rightarrow> int" where
  "move_delta (MoveIn i now aid amount acq cids) = amount"
| "move_delta (MoveOut i now aid amount acq) = - amount"

fun move_tx :: "engine \<Rightarrow> move \<Rightarrow> (account_read \<times> uuid) tx" where
  "move_tx E (MoveIn i now aid amount acq cids) = deposit_tx E i now aid amount acq cids"
| "move_tx E (MoveOut i now aid amount acq) = withdraw_tx E i now aid amount acq"

fun move_with :: "engine \<Rightarrow> move \<Rightarrow> account_row \<Rightarrow> (account_read \<times> uuid) tx" where
  "move_with E (MoveIn i now aid amount acq cids) acc = deposit_with E i now amount acq cids acc"
| "move_with E (MoveOut i now aid amount acq) acc = withdraw_with E i now amount acq acc"

lemma move_tx_steps: "move_tx E mv = tx_bind (repo_get E Account (move_account mv)) (\<lambda>found. case found of
    None \<Rightarrow> tx_fail (NotFoundError ''Account not found'') | Some acc \<Rightarrow> move_with E mv acc)"
  by (cases mv; hypsubst) (simp_all add: deposit_tx_def withdraw_tx_def cong: option.case_cong)

lemma atomic_move_with: "atomic (move_with E mv acc)"
  by (cases mv; hypsubst)
    (unfold move_with.simps deposit_with_def withdraw_with_def link_categories_def Let_def, (rule keeps | rule uncommitted_atomic)+)

fun move_row :: "move \<Rightarrow> account_row \<Rightarrow> transaction_row" where
  "move_row (MoveIn i now aid amount acq cids) acc = \<lparr>t_id = i, t_account_id = a_id acc, t_amount = amount,
     t_kind = ''deposit'', t_acquirer = acq, t_created_at = now\<rparr>"
| "move_row (MoveOut i now aid amount acq) acc = \<lparr>t_id = i, t_account_id = a_id acc, t_amount = - amount,
     t_kind = ''withdrawal'', t_acquirer = acq, t_created_at = now\<rparr>"

lemma move_row_sel [simp]: "t_account_id (move_row mv acc) = a_id acc" "t_amount (move_row mv acc) = move_delta mv"
  by (cases mv; simp)+

text \<open>The rest of a transaction, from whatever row it has read: \<open>d\<close> are the contents it writes to.\<close>

lemma move_with_runs:
  assumes "move_with E mv acc u = (Inr (dto, uid), u')" "session u = Some d" "0 < move_amount mv"
  shows "\<exists>links. committed u' = moved_db (acc\<lparr>a_balance := a_balance acc + move_delta mv\<rparr>) (move_row mv acc) links d \<and>
    db_ok (committed u') \<and> (move_delta mv < 0 \<longrightarrow> 0 \<le> a_balance acc + move_delta mv)"
proof (cases mv)
  case (MoveIn i now aid amount acq cids)
  show ?thesis
  proof (cases "cids = []")
    case True
    with assms MoveIn show ?thesis
      by (intro exI [of _ "[]"]) (auto simp: deposit_with_def get_many_def link_categories_def runs table_defs ran_def Let_def moved_db_Nil)
  next
    case False
    with assms MoveIn show ?thesis
      by (auto simp: deposit_with_def get_many_def link_categories_def runs table_defs ran_def Let_def moved_db_def split: if_splits)
  qed
next
  case (MoveOut i now aid amount acq)
  with assms show ?thesis
    by (intro exI [of _ "[]"]) (auto simp: withdraw_with_def runs table_defs ran_def Let_def moved_db_Nil split: if_splits)
qed

text \<open>What succeeds with some fault of the database elsewhere succeeds without it.\<close>

lemma move_with_no_fault:
  assumes "move_with E mv acc u = (Inr x, u')"
  shows "move_with (\<lambda>_. None) mv acc u = (Inr x, u')"
proof (cases mv)
  case (MoveIn i now aid amount acq cids)
  with assms show ?thesis
    by (cases x; cases "cids = []")
      (auto simp: deposit_with_def get_many_def link_categories_def runs table_defs ran_def Let_def split: if_splits)
next
  case (MoveOut i now aid amount acq)
  with assms show ?thesis
    by (cases x) (auto simp: withdraw_with_def runs table_defs ran_def Let_def split: if_splits)
qed

text \<open>
  A client is between transactions or holds the row it has read. The steps: take the lock and read (only
  while nobody holds the row); the rest of the transaction, up to its commit or its error; a transaction
  given up; an account opened; a user deleted, whose accounts' rows nobody may hold; anything that touches neither accounts nor
  transactions. A read that finds no account or fails changes nothing.
\<close>

datatype move_phase = Ready | Holding move account_row

record move_sys =
  ms_db :: db
  ms_phase :: "nat \<Rightarrow> move_phase"

definition row_locked :: "move_sys \<Rightarrow> uuid \<Rightarrow> bool" where
  "row_locked s aid \<longleftrightarrow> (\<exists>i mv acc. ms_phase s i = Holding mv acc \<and> move_account mv = aid)"

inductive move_step :: "move_sys \<Rightarrow> move_sys \<Rightarrow> bool" where
  read_for_update: "ms_phase s i = Ready \<Longrightarrow> \<not> row_locked s (move_account mv) \<Longrightarrow> 0 < move_amount mv \<Longrightarrow>
    repo_get E Account (move_account mv) (opened (ms_db s)) = (Inr (Some acc), u) \<Longrightarrow>
    move_step s (s\<lparr>ms_phase := (ms_phase s)(i := Holding mv acc)\<rparr>)"
| finish: "ms_phase s i = Holding mv acc \<Longrightarrow> move_with E mv acc (used Account (opened (ms_db s))) = (r, u) \<Longrightarrow>
    move_step s (s\<lparr>ms_db := committed u, ms_phase := (ms_phase s)(i := Ready)\<rparr>)"
| give_up: "move_step s (s\<lparr>ms_phase := (ms_phase s)(i := Ready)\<rparr>)"
| open_account: "with_uow (create_account_tx E i uid name) (idle (ms_db s)) = (r, u) \<Longrightarrow>
    move_step s (s\<lparr>ms_db := committed u\<rparr>)"
| delete_user: "with_uow (delete_tx E uid) (idle (ms_db s)) = (r, u) \<Longrightarrow>
    \<forall>a \<in> set (accounts (ms_db s)). a_user_id a = uid \<longrightarrow> \<not> row_locked s (a_id a) \<Longrightarrow>
    move_step s (s\<lparr>ms_db := committed u\<rparr>)"
| elsewhere: "db_ok d \<Longrightarrow> accounts d = accounts (ms_db s) \<Longrightarrow> transactions d = transactions (ms_db s) \<Longrightarrow>
    move_step s (s\<lparr>ms_db := d\<rparr>)"

inductive move_reach :: "move_sys \<Rightarrow> bool" where
  start: "move_reach \<lparr>ms_db = empty_db, ms_phase = (\<lambda>_. Ready)\<rparr>"
| next_move: "move_reach s \<Longrightarrow> move_step s s' \<Longrightarrow> move_reach s'"

text \<open>The invariant: who holds a row has the row as it is, and nobody else holds it.\<close>

definition holds_current :: "db \<Rightarrow> move_phase \<Rightarrow> bool" where
  "holds_current d p = (case p of Ready \<Rightarrow> True
     | Holding mv acc \<Rightarrow> 0 < move_amount mv \<and> row_get a_id (accounts d) (move_account mv) = Some acc)"

definition move_inv :: "move_sys \<Rightarrow> bool" where
  "move_inv s \<longleftrightarrow> db_ok (ms_db s) \<and> ledger_ok (ms_db s) \<and> (\<forall>i. holds_current (ms_db s) (ms_phase s i)) \<and>
     (\<forall>i j mv acc mv' acc'. ms_phase s i = Holding mv acc \<longrightarrow> ms_phase s j = Holding mv' acc' \<longrightarrow> i \<noteq> j \<longrightarrow>
        move_account mv \<noteq> move_account mv')"

lemma holds_current_cong:
  "holds_current d p \<Longrightarrow> (\<And>mv acc. p = Holding mv acc \<Longrightarrow>
     row_get a_id (accounts d') (move_account mv) = row_get a_id (accounts d) (move_account mv)) \<Longrightarrow> holds_current d' p"
  by (auto simp: holds_current_def split: move_phase.splits)

lemma move_sign: "0 < move_amount mv \<Longrightarrow> \<not> move_delta mv < 0 \<Longrightarrow> 0 < move_delta mv"
  by (cases mv) auto

text \<open>The rest of a transaction whose row is current.\<close>

lemma move_with_current:
  assumes "db_ok d" "ledger_ok d" "row_get a_id (accounts d) (move_account mv) = Some acc" "0 < move_amount mv"
    and run: "move_with E mv acc (used Account (opened d)) = (r, u)"
  shows "db_ok (committed u)" "ledger_ok (committed u)"
    "aid \<noteq> move_account mv \<Longrightarrow> row_get a_id (accounts (committed u)) aid = row_get a_id (accounts d) aid"
    "case r of Inr x \<Rightarrow> with_uow (move_tx (\<lambda>_. None) mv) (idle d) = (Inr x, idle (committed u)) | Inl e \<Rightarrow> committed u = d"
proof -
  have "db_ok (committed u) \<and> ledger_ok (committed u) \<and>
    (aid \<noteq> move_account mv \<longrightarrow> row_get a_id (accounts (committed u)) aid = row_get a_id (accounts d) aid) \<and>
    (case r of Inr x \<Rightarrow> with_uow (move_tx (\<lambda>_. None) mv) (idle d) = (Inr x, idle (committed u)) | Inl e \<Rightarrow> committed u = d)"
  proof (cases r)
    case (Inl e)
    then have "committed u = d" using atomic_move_with run by (auto simp: atomic_def)
    with Inl assms(1,2) show ?thesis by simp
  next
    case (Inr x)
    obtain dto uid where x: "x = (dto, uid)" by force
    have s: "session (used Account (opened d)) = Some d" by simp
    obtain links where c: "committed u = moved_db (acc\<lparr>a_balance := a_balance acc + move_delta mv\<rparr>) (move_row mv acc) links d"
      "db_ok (committed u)" "move_delta mv < 0 \<longrightarrow> 0 \<le> a_balance acc + move_delta mv"
      using move_with_runs [OF run [unfolded Inr x] s assms(4)] by blast
    have acc: "acc \<in> set (accounts d)" "a_id acc = move_account mv" using row_get_Some [OF assms(3)] by auto
    have "0 \<le> a_balance acc" using assms(2) acc(1) by (auto simp: ledger_ok_def)
    then have p: "0 \<le> a_balance acc + move_delta mv" using c(3) move_sign [OF assms(4)] by fastforce
    have "ledger_ok (committed u)"
      using ledger_moved [OF assms(1-3), of "move_row mv acc" links] acc p by (simp add: c(1))
    moreover have "row_get a_id (accounts (committed u)) aid = row_get a_id (accounts d) aid" if "aid \<noteq> move_account mv"
      using that acc by (simp add: c(1) moved_db_def row_get_put)
    moreover have "move_tx (\<lambda>_. None) mv (opened d) = (Inr x, u)"
      using move_with_no_fault [OF run [unfolded Inr]] assms(1,3)
      by (auto simp: move_tx_steps runs_bind runs_repos table_defs split: option.split)
    ultimately show ?thesis using c(2) Inr by (simp add: with_uow_inactive)
  qed
  then show "db_ok (committed u)" "ledger_ok (committed u)"
    "aid \<noteq> move_account mv \<Longrightarrow> row_get a_id (accounts (committed u)) aid = row_get a_id (accounts d) aid"
    "case r of Inr x \<Rightarrow> with_uow (move_tx (\<lambda>_. None) mv) (idle d) = (Inr x, idle (committed u)) | Inl e \<Rightarrow> committed u = d"
    by blast+
qed

text \<open>A change of the contents by somebody else keeps the invariant when it keeps the rows that are held.\<close>

lemma move_inv_change:
  assumes "move_inv s" "db_ok d" "ledger_ok d"
    and "\<And>aid. row_locked s aid \<Longrightarrow> row_get a_id (accounts d) aid = row_get a_id (accounts (ms_db s)) aid"
  shows "move_inv (s\<lparr>ms_db := d\<rparr>)"
proof -
  have "holds_current d (ms_phase s i)" for i
  proof (rule holds_current_cong [of "ms_db s"])
    show "holds_current (ms_db s) (ms_phase s i)" using assms(1) by (simp add: move_inv_def)
  qed (use assms(4) in \<open>auto simp: row_locked_def\<close>)
  with assms show ?thesis by (simp add: move_inv_def)
qed

lemma row_get_accounts_deleted:
  assumes "row_get a_id (accounts d) aid = Some acc" "a_user_id acc \<noteq> uid" "db_ok d"
  shows "row_get a_id (accounts (deleted_db uid d)) aid = Some acc"
proof -
  have "accounts (deleted_db uid d) = filter (\<lambda>a. a_user_id a \<noteq> uid) (accounts d)" by (simp add: deleted_db_def drop_defs)
  moreover have "acc \<in> set (accounts d)" "a_id acc = aid" using row_get_Some [OF assms(1)] by auto
  moreover have "distinct (map a_id (accounts d))" using assms(3) by (simp add: db_ok_def db_constraints_def)
  ultimately show ?thesis
    using row_get_distinct [of a_id "filter (\<lambda>a. a_user_id a \<noteq> uid) (accounts d)" acc] assms(2)
    by (auto simp: distinct_map_filter)
qed

lemma move_inv_step:
  assumes "move_step s s'" "move_inv s"
  shows "move_inv s'"
  using assms
proof (cases rule: move_step.cases)
  case (read_for_update i mv E acc u)
  then have "row_get a_id (accounts (ms_db s)) (move_account mv) = Some acc"
    by (auto simp: runs_repos table_defs)
  moreover have free: "move_account mv' \<noteq> move_account mv" if "ms_phase s j = Holding mv' acc'" for j mv' acc'
    using read_for_update(3) that by (auto simp: row_locked_def)
  have "move_account m \<noteq> move_account m'"
    if "((ms_phase s)(i := Holding mv acc)) j = Holding m a" "((ms_phase s)(i := Holding mv acc)) k = Holding m' a'" "j \<noteq> k"
    for j k m a m' a'
  proof -
    consider "j = i" | "k = i" | "j \<noteq> i" "k \<noteq> i" by blast
    then show ?thesis
      using that free assms(2) unfolding move_inv_def by cases (fastforce split: if_splits)+
  qed
  ultimately show ?thesis using assms(2) read_for_update(1,4)
    by (simp add: move_inv_def holds_current_def)
next
  case (finish i mv acc E r u)
  have h: "db_ok (ms_db s)" "ledger_ok (ms_db s)" "row_get a_id (accounts (ms_db s)) (move_account mv) = Some acc" "0 < move_amount mv"
    using assms(2) finish(2) by (auto simp: move_inv_def holds_current_def split: move_phase.splits dest: spec [of _ i])
  note m = move_with_current [OF h finish(3)]
  have "holds_current (committed u) (ms_phase s j)" if "j \<noteq> i" for j
  proof (rule holds_current_cong [of "ms_db s"])
    show "holds_current (ms_db s) (ms_phase s j)" using assms(2) by (simp add: move_inv_def)
    fix mv' acc'
    assume "ms_phase s j = Holding mv' acc'"
    then have "move_account mv' \<noteq> move_account mv" using assms(2) finish(2) that unfolding move_inv_def by metis
    then show "row_get a_id (accounts (committed u)) (move_account mv') = row_get a_id (accounts (ms_db s)) (move_account mv')"
      by (rule m(3))
  qed
  then show ?thesis using assms(2) m(1,2) by (auto simp: finish(1) move_inv_def holds_current_def)
next
  case (give_up i)
  then show ?thesis using assms(2) by (auto simp: move_inv_def holds_current_def)
next
  case (open_account E i uid name r u)
  have inv: "db_ok (ms_db s)" "ledger_ok (ms_db s)" using assms(2) by (simp_all add: move_inv_def)
  have at: "atomic (create_account_tx E i uid name)" by (rule keeps)
  show ?thesis unfolding open_account(1)
  proof (rule alone_cases [OF open_account(2) at])
    fix x w
    assume "create_account_tx E i uid name (opened (ms_db s)) = (Inr x, w)" and c: "committed u = committed w"
    note r = create_account_tx_runs [OF this(1)]
    then have "i \<notin> a_id ` set (accounts (ms_db s))" by (auto simp: db_ok_def db_constraints_def)
    then have "ledger_ok (committed u)" using ledger_new_account [OF inv] r by (simp add: c)
    moreover have "row_get a_id (accounts (committed u)) aid = row_get a_id (accounts (ms_db s)) aid" if "row_locked s aid" for aid
    proof -
      have "row_get a_id (accounts (ms_db s)) aid \<noteq> None"
        using that assms(2) by (auto simp: row_locked_def move_inv_def holds_current_def split: move_phase.splits)
      then show ?thesis using r by (auto simp: c row_get_append)
    qed
    moreover have "db_ok (committed u)" using r unfolding c by blast
    ultimately show "move_inv (s\<lparr>ms_db := committed u\<rparr>)" using assms(2) by (intro move_inv_change)
  qed (use assms(2) in simp)
next
  case (delete_user E uid r u)
  have inv: "db_ok (ms_db s)" "ledger_ok (ms_db s)" using assms(2) by (simp_all add: move_inv_def)
  have at: "atomic (delete_tx E uid)" by (rule keeps)
  show ?thesis unfolding delete_user(1)
  proof (rule alone_cases [OF delete_user(2) at])
    fix x w
    assume "delete_tx E uid (opened (ms_db s)) = (Inr x, w)" and c: "committed u = committed w"
    then have r: "committed u = deleted_db uid (ms_db s)" "db_ok (committed u)" using delete_tx_runs by (force simp: c)+
    have "row_get a_id (accounts (committed u)) aid = row_get a_id (accounts (ms_db s)) aid" if l: "row_locked s aid" for aid
    proof -
      obtain acc where acc: "row_get a_id (accounts (ms_db s)) aid = Some acc"
        using l assms(2) by (auto simp: row_locked_def move_inv_def holds_current_def split: move_phase.splits)
      then have "a_user_id acc \<noteq> uid" using delete_user(3) l row_get_Some [OF acc] by auto
      then show ?thesis using row_get_accounts_deleted [OF acc _ inv(1)] acc by (simp add: r(1))
    qed
    then show "move_inv (s\<lparr>ms_db := committed u\<rparr>)"
      using assms(2) r ledger_deleted [OF inv] by (intro move_inv_change) simp_all
  qed (use assms(2) in simp)
next
  case (elsewhere d)
  then have "ledger_ok d" using assms(2) ledger_ok_cong [of "ms_db s" d] by (simp add: move_inv_def)
  then show ?thesis unfolding elsewhere(1) using elsewhere assms(2) by (intro move_inv_change) simp_all
qed

lemma move_inv_reach: "move_reach s \<Longrightarrow> move_inv s"
proof (induction rule: move_reach.induct)
  case start
  show ?case
    by (simp add: move_inv_def holds_current_def ledger_ok_def empty_db_def db_ok_def db_constraints_def columns_fit_def)
qed (rule move_inv_step)

text \<open>
  C3: Overlapping deposits and withdrawals come out as if they had run one after the other: whatever
  has happened since one of them took its row, if it commits, it commits what the whole transaction
  would commit if it ran alone at that moment, with the same answer; if it fails, it changes nothing.
  The ledger is right after it either way.
\<close>

theorem overlapping_moves_serialise:
  assumes "move_reach s" "ms_phase s i = Holding mv acc"
    and "move_with E mv acc (used Account (opened (ms_db s))) = (r, u)"
  shows "(case r of Inr x \<Rightarrow> with_uow (move_tx (\<lambda>_. None) mv) (idle (ms_db s)) = (Inr x, idle (committed u))
      | Inl e \<Rightarrow> committed u = ms_db s) \<and>
    (\<forall>a \<in> set (accounts (committed u)). 0 \<le> a_balance a \<and>
       a_balance a = sum_list (map t_amount (filter (\<lambda>t. t_account_id t = a_id a) (transactions (committed u)))))"
proof -
  have "holds_current (ms_db s) (ms_phase s i)" "db_ok (ms_db s)" "ledger_ok (ms_db s)"
    using move_inv_reach [OF assms(1)] by (simp_all add: move_inv_def)
  with assms(2) have h: "db_ok (ms_db s)" "ledger_ok (ms_db s)"
    "row_get a_id (accounts (ms_db s)) (move_account mv) = Some acc" "0 < move_amount mv"
    by (simp_all add: holds_current_def)
  show ?thesis
    using move_with_current(2,4) [OF h assms(3)] unfolding ledger_ok_def account_sum_def by blast
qed

definition busy_account :: account_row where
  "busy_account = \<lparr>a_id = ''a1'', a_user_id = ''u1'', a_name = ''main'', a_balance = 0\<rparr>"

definition busy_user :: user_row where
  "busy_user = new_user ''u1'' 1 ''a@b.c'' ''A'' None DEFAULT_ROLE"

definition busy_db :: db where
  "busy_db = empty_db\<lparr>users := [busy_user], accounts := [busy_account]\<rparr>"

definition busy_move :: move where
  "busy_move = MoveIn ''t1'' 2 ''a1'' 70 MEMORY []"

definition busy :: move_sys where
  "busy = \<lparr>ms_db = busy_db, ms_phase = (\<lambda>_. Ready)(0 := Holding busy_move busy_account)\<rparr>"

lemmas busy_defs = busy_def busy_db_def busy_user_def busy_account_def busy_move_def empty_db_def new_user_def DEFAULT_ROLE_def

lemma busy_db_ok: "db_ok busy_db"
  by (simp add: busy_defs db_ok_def db_constraints_def columns_fit_def fits_bigint_def)

lemma busy_reach: "move_reach busy"
proof -
  let ?e = "\<lparr>ms_db = empty_db, ms_phase = (\<lambda>_. Ready)\<rparr>"
  let ?u = "empty_db\<lparr>users := [busy_user]\<rparr>"
  let ?r = "\<lparr>ms_db = busy_db, ms_phase = (\<lambda>_. Ready)\<rparr>"
  have ok: "db_ok ?u" by (simp add: busy_defs db_ok_def db_constraints_def columns_fit_def)
  have "move_step ?e (?e\<lparr>ms_db := ?u\<rparr>)" using ok by (intro move_step.elsewhere) simp_all
  then have 1: "move_reach \<lparr>ms_db = ?u, ms_phase = (\<lambda>_. Ready)\<rparr>"
    using move_reach.next_move [OF move_reach.start] by simp
  have "create_account_tx (\<lambda>_. None) ''a1'' ''u1'' ''main'' (opened ?u) =
      (Inr (account_read_of busy_account), (used Account (used User (opened ?u)))\<lparr>session := Some busy_db, committed := busy_db\<rparr>)"
    using ok busy_db_ok by (auto simp: create_account_tx_def runs table_defs ran_def busy_defs row_get_def)
  then have "with_uow (create_account_tx (\<lambda>_. None) ''a1'' ''u1'' ''main'') (idle ?u) = (Inr (account_read_of busy_account), idle busy_db)"
    by (simp add: with_uow_inactive)
  then have 2: "move_reach ?r" using move_reach.next_move [OF 1 move_step.open_account] by fastforce
  have "repo_get (\<lambda>_. None) Account (move_account busy_move) (opened busy_db) = (Inr (Some busy_account), used Account (opened busy_db))"
    using busy_db_ok by (simp add: runs_repos table_defs ran_def) (simp add: busy_defs row_get_def)
  then have "move_step ?r (?r\<lparr>ms_phase := (ms_phase ?r)(0 := Holding busy_move busy_account)\<rparr>)"
    by (intro move_step.read_for_update) (auto simp: row_locked_def busy_move_def)
  then show ?thesis using move_reach.next_move [OF 2] by (simp add: busy_def)
qed

theorem overlapping_moves_serialise_witness:
  "\<exists>x d. with_uow (move_tx (\<lambda>_. None) busy_move) (idle busy_db) = (Inr x, idle d) \<and>
     map a_balance (accounts d) = [70]"
proof -
  let ?d = "moved_db (busy_account\<lparr>a_balance := 70\<rparr>) (move_row busy_move busy_account) [] busy_db"
  have ok: "db_ok ?d" by (simp add: moved_db_def busy_defs db_ok_def db_constraints_def columns_fit_def fits_bigint_def row_put_def)
  obtain r u where run: "move_with (\<lambda>_. None) busy_move busy_account (used Account (opened (ms_db busy))) = (r, u)" by force
  moreover have "\<exists>x u. move_with (\<lambda>_. None) busy_move busy_account (used Account (opened (ms_db busy))) = (Inr x, u) \<and> committed u = ?d"
    using ok busy_db_ok
    by (simp add: busy_move_def deposit_with_def get_many_def link_categories_def runs table_defs ran_def Let_def)
      (simp add: busy_defs moved_db_def)
  ultimately obtain x where r: "r = Inr x" "committed u = ?d" by auto
  have "ms_phase busy 0 = Holding busy_move busy_account" "ms_db busy = busy_db" by (simp_all add: busy_def)
  with overlapping_moves_serialise [OF busy_reach _ run] r
  show ?thesis by (auto simp: moved_db_def busy_db_def row_put_def busy_account_def intro!: exI [of _ x] exI [of _ ?d])
qed

text \<open>
  Why the lock is there: a transaction that commits from a row that has changed since it was read, as
  two overlapping ones would without it, overwrites the other's balance and the ledger is wrong.
\<close>

lemma stale_move_loses_update:
  assumes "db_ok d" "ledger_ok d" "row_get a_id (accounts d) (move_account mv) = Some cur" "0 < move_amount mv"
    and "acc = cur\<lparr>a_balance := b\<rparr>" "b \<noteq> a_balance cur"
    and "move_with E mv acc (used Account (opened d)) = (Inr x, u)"
  shows "\<not> ledger_ok (committed u)"
proof
  assume l: "ledger_ok (committed u)"
  obtain dto uid where x: "x = (dto, uid)" by force
  have s: "session (used Account (opened d)) = Some d" by simp
  obtain links where c: "committed u = moved_db (acc\<lparr>a_balance := a_balance acc + move_delta mv\<rparr>) (move_row mv acc) links d"
    using move_with_runs [OF assms(7) [unfolded x] s assms(4)] by blast
  have cur: "cur \<in> set (accounts d)" using row_get_Some [OF assms(3)] by simp
  have "acc\<lparr>a_balance := b + move_delta mv\<rparr> \<in> set (accounts (committed u))"
    using cur assms(5) by (auto simp: c moved_db_def row_put_def image_iff intro!: bexI [of _ cur])
  then have "b + move_delta mv = account_sum (committed u) (a_id cur)"
    using l assms(5) by (fastforce simp: ledger_ok_def)
  also have "\<dots> = account_sum d (a_id cur) + move_delta mv"
    using assms(5) by (simp add: c moved_db_def account_sum_def)
  also have "account_sum d (a_id cur) = a_balance cur" using assms(2) cur by (simp add: ledger_ok_def)
  finally show False using assms(6) by simp
qed

end
