(* ===== verification/Row_Versions.thy ===== *)
theory Row_Versions
  imports Auth_Safety Ledger
begin

section \<open>Overlapping updates of a user\<close>

text \<open>
  \<^verbatim>\<open>UserService.update\<close> reads the user without a lock, and \<^verbatim>\<open>VersionedMixin\<close> lets the write succeed only if
  the row still has the version that was read. Many updates overlap here, with changes of password,
  sign-ups (by \<^verbatim>\<open>create\<close> or \<^verbatim>\<open>register\<close>), deletions and everything that leaves the users alone; the identifier of
  a new user is fresh.
\<close>

datatype edit_phase = Away | Editing uuid user_update user_row

record edit_sys =
  es_db :: db
  es_phase :: "nat \<Rightarrow> edit_phase"

inductive edit_step :: "edit_sys \<Rightarrow> edit_sys \<Rightarrow> bool" where
  read_user: "es_phase s i = Away \<Longrightarrow> repo_get E User uid (opened (es_db s)) = (Inr (Some old), u) \<Longrightarrow>
    edit_step s (s\<lparr>es_phase := (es_phase s)(i := Editing uid data old)\<rparr>)"
| write_user: "es_phase s i = Editing uid data old \<Longrightarrow>
    update_with E now uid data old (used User (opened (es_db s))) = (r, u) \<Longrightarrow>
    edit_step s (s\<lparr>es_db := committed u, es_phase := (es_phase s)(i := Away)\<rparr>)"
| leave: "edit_step s (s\<lparr>es_phase := (es_phase s)(i := Away)\<rparr>)"
| password: "with_uow (set_password_tx E now sub h) (idle (es_db s)) = (r, u) \<Longrightarrow> edit_step s (s\<lparr>es_db := committed u\<rparr>)"
| sign_up: "db_ok d \<Longrightarrow> users d = users (es_db s) @ [new_user i now email name pw role] \<Longrightarrow>
    \<forall>j data old. es_phase s j \<noteq> Editing i data old \<Longrightarrow> edit_step s (s\<lparr>es_db := d\<rparr>)"
| delete_user: "with_uow (delete_tx E uid) (idle (es_db s)) = (r, u) \<Longrightarrow> edit_step s (s\<lparr>es_db := committed u\<rparr>)"
| elsewhere: "db_ok d \<Longrightarrow> users d = users (es_db s) \<Longrightarrow> edit_step s (s\<lparr>es_db := d\<rparr>)"

inductive edit_reach :: "edit_sys \<Rightarrow> bool" where
  start: "edit_reach \<lparr>es_db = empty_db, es_phase = (\<lambda>_. Away)\<rparr>"
| next_edit: "edit_reach s \<Longrightarrow> edit_step s s' \<Longrightarrow> edit_reach s'"

text \<open>
  The version tells whether the row is the one that was read: the present row is newer or the same, and
  the same if it has the same version.
\<close>

definition same_or_newer :: "user_row list \<Rightarrow> edit_phase \<Rightarrow> bool" where
  "same_or_newer us p = (case p of Away \<Rightarrow> True | Editing uid data old \<Rightarrow> u_id old = uid \<and>
     (\<forall>cur. row_get u_id us uid = Some cur \<longrightarrow> u_version_id old < u_version_id cur \<or> cur = old))"

definition edit_inv :: "edit_sys \<Rightarrow> bool" where
  "edit_inv s \<longleftrightarrow> db_ok (es_db s) \<and> (\<forall>i. same_or_newer (users (es_db s)) (es_phase s i))"

text \<open>How the users may change: a row stays, gets a higher version, or goes.\<close>

definition forward :: "user_row list \<Rightarrow> user_row list \<Rightarrow> uuid \<Rightarrow> bool" where
  "forward us us' uid \<longleftrightarrow> (\<forall>cur'. row_get u_id us' uid = Some cur' \<longrightarrow>
     (\<exists>cur. row_get u_id us uid = Some cur \<and> (u_version_id cur < u_version_id cur' \<or> cur' = cur)))"

lemma same_or_newer_forward:
  "same_or_newer us p \<Longrightarrow> (\<And>uid data old. p = Editing uid data old \<Longrightarrow> forward us us' uid) \<Longrightarrow> same_or_newer us' p"
  by (fastforce simp: same_or_newer_def forward_def split: edit_phase.splits)

lemma forward_refl [simp]: "forward us us uid"
  by (auto simp: forward_def)

lemma versioned_key: "u_id new = u_id old \<Longrightarrow> u_id (versioned now old new) = u_id old"
  by (simp add: versioned_def)

lemma versioned_version: "u_version_id old < u_version_id (versioned now old new) \<or> versioned now old new = old"
  by (simp add: versioned_def)

lemma forward_put:
  assumes "row_get u_id us (u_id old) = Some old" "u_id new = u_id old"
  shows "forward us (row_put u_id (versioned now old new) us) uid"
proof (cases "uid = u_id old")
  case True
  have "row_get u_id (row_put u_id (versioned now old new) us) uid = Some (versioned now old new)"
  proof -
    have "uid \<in> u_id ` set us" using row_get_Some [OF assms(1)] True by blast
    then show ?thesis using row_get_put [of u_id "versioned now old new" us uid] versioned_key [OF assms(2), of now] True by metis
  qed
  then show ?thesis
    using versioned_version [of old now new] assms(1) unfolding forward_def True by (metis option.inject)
next
  case False
  then have "row_get u_id (row_put u_id (versioned now old new) us) uid = row_get u_id us uid"
    using row_get_put [of u_id "versioned now old new" us uid] versioned_key [OF assms(2), of now] by presburger
  then show ?thesis unfolding forward_def by metis
qed

lemma edit_inv_change:
  assumes "edit_inv s" "db_ok d" "\<And>i uid data old. es_phase s i = Editing uid data old \<Longrightarrow> forward (users (es_db s)) (users d) uid"
  shows "edit_inv (s\<lparr>es_db := d\<rparr>)"
proof -
  have "same_or_newer (users d) (es_phase s i)" for i
  proof (rule same_or_newer_forward [of "users (es_db s)"])
    show "same_or_newer (users (es_db s)) (es_phase s i)" using assms(1) by (simp add: edit_inv_def)
  qed (rule assms(3))
  with assms(2) show ?thesis by (simp add: edit_inv_def)
qed

lemma apply_update_id [simp]: "u_id (apply_update data old) = u_id old"
  by (simp add: apply_update_def Let_def split: option.split)

lemma edit_inv_step:
  assumes "edit_step s s'" "edit_inv s"
  shows "edit_inv s'"
proof -
  have ok: "db_ok (es_db s)" and fresh: "\<And>i. same_or_newer (users (es_db s)) (es_phase s i)"
    using assms(2) by (simp_all add: edit_inv_def)
  have id_of: "row_get u_id (users (es_db s)) uid = Some r \<Longrightarrow> u_id r = uid" for uid r using row_get_Some by metis
  from assms(1) show ?thesis
  proof (cases rule: edit_step.cases)
    case (read_user i E uid old u data)
    then have "row_get u_id (users (es_db s)) uid = Some old" by (auto simp: runs_repos table_defs)
    then show ?thesis using ok fresh id_of by (auto simp: read_user(1) edit_inv_def same_or_newer_def)
  next
    case (write_user i uid data old E now r u)
    have f: "forward (users (es_db s)) (users (committed u)) k \<and> db_ok (committed u)" for k
    proof (cases r)
      case (Inl e)
      then have "committed u = es_db s" using atomic_update_with [of E now uid data old] write_user(3) by (auto simp: atomic_def)
      then show ?thesis using ok by simp
    next
      case (Inr dto)
      have s: "session (used User (opened (es_db s))) = Some (es_db s)" by simp
      note w = update_with_runs [OF write_user(3) [unfolded Inr] s]
      have old: "u_id old = uid" using fresh [of i] write_user(2) by (simp add: same_or_newer_def)
      show ?thesis
      proof (cases "apply_update data old = old")
        case True
        with w ok show ?thesis by simp
      next
        case False
        with w obtain cur where cur: "row_get u_id (users (es_db s)) (u_id old) = Some cur" "u_version_id cur = u_version_id old"
          and c: "committed u = updated_db now old data (es_db s)" "db_ok (committed u)" by auto
        have "cur = old" using fresh [of i] cur write_user(2) old by (auto simp: same_or_newer_def)
        with cur c show ?thesis using forward_put [of "users (es_db s)" old "apply_update data old" now k] by (simp add: updated_db_def)
      qed
    qed
    then have "edit_inv (s\<lparr>es_db := committed u\<rparr>)" using assms(2) by (intro edit_inv_change) blast+
    then show ?thesis by (auto simp: write_user(1) edit_inv_def same_or_newer_def)
  next
    case (leave i)
    then show ?thesis using assms(2) by (auto simp: edit_inv_def same_or_newer_def)
  next
    case (password E now sub h r u)
    have at: "atomic (set_password_tx E now sub h)"
      unfolding set_password_tx_def user_tx_def by (rule keeps | rule uncommitted_atomic)+
    have "forward (users (es_db s)) (users (committed u)) k \<and> db_ok (committed u)" for k
    proof (rule alone_cases [OF password(2) at])
      fix x w
      assume p: "set_password_tx E now sub h (opened (es_db s)) = (Inr x, w)" and c: "committed u = committed w"
      from set_password_tx_runs [OF p] obtain uid old where old: "row_get u_id (users (es_db s)) uid = Some old"
        and cw: "committed w = with_password now old h (es_db s)" and "db_ok (committed w)" by blast
      then show ?thesis
        using forward_put [of "users (es_db s)" old "old\<lparr>u_hashed_password := Some h\<rparr>" now k] old id_of [OF old] by (simp add: c cw with_password_def)
    qed (use ok in simp)
    then show ?thesis unfolding password(1) using assms(2) by (intro edit_inv_change) blast+
  next
    case (sign_up d i now email name pw role)
    have "forward (users (es_db s)) (users d) k" if "es_phase s j = Editing k data old" for j k data old
    proof -
      have "k \<noteq> i" using sign_up(4) that by blast
      with sign_up(3) have "row_get u_id (users d) k = row_get u_id (users (es_db s)) k"
        by (simp add: row_get_def find_append new_user_def split: option.split)
      then show ?thesis unfolding forward_def by metis
    qed
    then show ?thesis unfolding sign_up(1) using assms(2) sign_up(2) by (intro edit_inv_change)
  next
    case (delete_user E uid r u)
    have at: "atomic (delete_tx E uid)" by (rule keeps)
    show ?thesis unfolding delete_user(1)
    proof (rule alone_cases [OF delete_user(2) at])
      fix x w
      assume p: "delete_tx E uid (opened (es_db s)) = (Inr x, w)" and c: "committed u = committed w"
      note r = delete_tx_runs [OF p]
      have us: "users (committed u) = filter (\<lambda>u. u_id u \<noteq> uid) (users (es_db s))"
        using r by (simp add: c deleted_db_def drop_defs)
      have "forward (users (es_db s)) (users (committed u)) k" for k
      proof (cases "k = uid")
        case True
        then show ?thesis by (auto simp: forward_def us dest: row_get_Some)
      next
        case False
        then have "row_get u_id (users (committed u)) k = row_get u_id (users (es_db s)) k"
          unfolding us by (intro row_get_filter) auto
        then show ?thesis unfolding forward_def by metis
      qed
      moreover have "db_ok (committed u)" using r unfolding c by blast
      ultimately show "edit_inv (s\<lparr>es_db := committed u\<rparr>)" using assms(2) by (intro edit_inv_change)
    qed (use assms(2) in simp)
  next
    case (elsewhere d)
    then show ?thesis using assms(2) by (auto intro!: edit_inv_change)
  qed
qed

lemma edit_inv_reach: "edit_reach s \<Longrightarrow> edit_inv s"
proof (induction rule: edit_reach.induct)
  case start
  show ?case by (simp add: edit_inv_def same_or_newer_def)
qed (rule edit_inv_step)

lemma update_with_stale:
  assumes "apply_update data old \<noteq> old" "session u = Some d"
    and "\<And>cur. row_get u_id (users d) (u_id old) = Some cur \<Longrightarrow> u_version_id cur \<noteq> u_version_id old"
  shows "update_with E now uid data old u = (Inl (stale_to_conflict StaleDataError), u)"
  using assms by (auto simp: update_with_def save_versioned_def tx_bind_def tx_catch_def tx_fail_def uow_session_def split: option.split)

lemma update_with_no_fault:
  assumes "update_with E now uid data old u = (Inr x, u')"
  shows "update_with (\<lambda>_. None) now uid data old u = (Inr x, u')"
  using assms unfolding update_with_def by (auto simp: runs ran_def)


definition rival_data :: user_create where
  "rival_data = \<lparr>uc_email = ''a@b.c'', uc_full_name = ''A''\<rparr>"

definition rival_user :: user_row where
  "rival_user = new_user ''u1'' 1 ''a@b.c'' ''A'' None DEFAULT_ROLE"

definition rename :: "string \<Rightarrow> user_update" where
  "rename n = \<lparr>uu_full_name = Some n, uu_is_active = None\<rparr>"

definition rivals :: edit_sys where
  "rivals = \<lparr>es_db = created_db ''u1'' ''e1'' 1 rival_data empty_db,
     es_phase = (\<lambda>_. Away)(0 := Editing ''u1'' (rename ''B'') rival_user, 1 := Editing ''u1'' (rename ''C'') rival_user)\<rparr>"

definition overtaken :: edit_sys where
  "overtaken = \<lparr>es_db = updated_db 2 rival_user (rename ''C'') (created_db ''u1'' ''e1'' 1 rival_data empty_db),
     es_phase = (\<lambda>_. Away)(0 := Editing ''u1'' (rename ''B'') rival_user)\<rparr>"

lemmas rival_defs = rival_data_def rival_user_def rename_def created_db_def updated_db_def new_user_def DEFAULT_ROLE_def
  versioned_def apply_update_def empty_db_def row_put_def Let_def

lemma rival_db_ok: "db_ok (created_db ''u1'' ''e1'' 1 rival_data empty_db)"
  "db_ok (updated_db 2 rival_user (rename ''C'') (created_db ''u1'' ''e1'' 1 rival_data empty_db))"
  "db_ok (empty_db\<lparr>users := [rival_user]\<rparr>)"
  by (simp_all add: rival_defs db_ok_def db_constraints_def columns_fit_def)

lemma rival_row: "users (created_db ''u1'' ''e1'' 1 rival_data empty_db) = [rival_user]"
  by (simp add: rival_defs)

lemma rivals_reach: "edit_reach rivals"
proof -
  let ?e = "\<lparr>es_db = empty_db, es_phase = (\<lambda>_. Away)\<rparr>"
  let ?d = "created_db ''u1'' ''e1'' 1 rival_data empty_db"
  have "edit_step ?e (?e\<lparr>es_db := ?d\<rparr>)"
    by (rule edit_step.sign_up [where i = "''u1''" and now = 1 and email = "''a@b.c''" and name = "''A''" and pw = None and role = DEFAULT_ROLE])
      (use rival_db_ok(1) in \<open>simp_all add: rival_row rival_user_def\<close>, simp add: empty_db_def)
  then have 1: "edit_reach \<lparr>es_db = ?d, es_phase = (\<lambda>_. Away)\<rparr>"
    using edit_reach.next_edit [OF edit_reach.start] by simp
  have g: "repo_get (\<lambda>_. None) User ''u1'' (opened ?d) = (Inr (Some rival_user), used User (opened ?d))"
    using rival_db_ok(1) rival_row by (simp add: runs_repos table_defs ran_def) (simp add: row_get_def rival_user_def new_user_def)
  let ?a = "\<lparr>es_db = ?d, es_phase = (\<lambda>_. Away)(0 := Editing ''u1'' (rename ''B'') rival_user)\<rparr>"
  have 2: "edit_reach ?a"
    using edit_reach.next_edit [OF 1 edit_step.read_user [where i = 0 and data = "rename ''B''"]] g by simp
  have "edit_reach (?a\<lparr>es_phase := (es_phase ?a)(1 := Editing ''u1'' (rename ''C'') rival_user)\<rparr>)"
    by (rule edit_reach.next_edit [OF 2 edit_step.read_user [where i = 1]]) (use g in simp_all)
  then show ?thesis by (simp add: rivals_def)
qed

lemma overtaken_reach: "edit_reach overtaken"
proof -
  let ?d = "created_db ''u1'' ''e1'' 1 rival_data empty_db"
  let ?d' = "updated_db 2 rival_user (rename ''C'') ?d"
  obtain r u where run: "update_with (\<lambda>_. None) 2 ''u1'' (rename ''C'') rival_user (used User (opened (es_db rivals))) = (r, u)" by force
  have d: "es_db rivals = ?d" by (simp add: rivals_def)
  have n: "apply_update (rename ''C'') rival_user \<noteq> rival_user" by (simp add: rival_defs)
  have k: "row_get u_id (users ?d) (u_id rival_user) = Some rival_user" by (simp add: rival_row row_get_def)
  have "\<exists>x u. update_with (\<lambda>_. None) 2 ''u1'' (rename ''C'') rival_user (used User (opened ?d)) = (Inr x, u) \<and> committed u = ?d'"
    using rival_db_ok(2) n k by (auto simp: update_with_def runs ran_def updated_db_def)
  then have u: "committed u = ?d'" using run d by auto
  have p: "es_phase rivals 1 = Editing ''u1'' (rename ''C'') rival_user" by (simp add: rivals_def)
  have e: "(es_phase rivals)(1 := Away) = (\<lambda>_. Away)(0 := Editing ''u1'' (rename ''B'') rival_user)"
    by (simp add: rivals_def fun_eq_iff)
  show ?thesis
    using edit_reach.next_edit [OF rivals_reach edit_step.write_user [OF p run]] unfolding e u
    by (simp add: overtaken_def rivals_def)
qed


text \<open>A change of password has no such answer: the exception of its write is not foreseen, and the client gets 500.\<close>

lemma stale_password_is_500: "he_status (handle_exception rid StaleDataError) = 500"
  by (simp add: handle_unforeseen unhandled_handler_def render_def)

text \<open>
  Sign-ups have neither lock nor version: the address is looked for first and inserted later. When
  another sign-up with it commits in between, the unique index refuses the row, and the client gets 500
  where one after the other would have given 409.
\<close>

lemma overtaken_sign_up_is_500:
  assumes "email \<in> u_email ` set (users d)" "\<And>w. E w = None"
  shows "\<exists>u. repo_add E User (new_user i now email name pw role) (used User (opened d)) = (Inl IntegrityError, u) \<and>
    he_status (handle_exception rid IntegrityError) = 500"
proof -
  let ?d = "d\<lparr>users := users d @ [new_user i now email name pw role]\<rparr>"
  have "\<not> distinct (map u_email (users ?d))" using assms(1) by (simp add: new_user_def)
  then have "\<not> db_constraints ?d" by (simp only: db_constraints_def simp_thms)
  then show ?thesis
    using assms(2)
    by (auto simp: repo_add_def stage_row_def repo_def tx_stage_def flush_def tx_defs table_defs used_def opened_def
        handle_unforeseen unhandled_handler_def render_def split: option.split)
qed

end
