(* ===== verification/Redis_Faults.thy ===== *)
theory Redis_Faults
  imports Api_Safety
begin

section \<open>When Redis fails\<close>

text \<open>
  The other theories take Redis to answer every command. Here each command may fail: what it does is read
  from a script of replies, one for each command sent. \<open>Refused\<close> is a command that was not carried out,
  \<open>Lost\<close> one that was, but whose answer did not come back (a timeout). The operations are those of
  \<^verbatim>\<open>idempotency/store.py\<close>, \<^verbatim>\<open>idempotency/runner.py\<close> and of the services that touch the cache after their
  transaction, with every \<^verbatim>\<open>await\<close> of a command a point where they may raise. With an empty script they are
  the ones of Idempotency (\<open>answered_idempotent\<close>).
\<close>

subsection \<open>Commands that may fail\<close>

datatype reply = Answers | Refused exn | Lost exn

record 'r faulty =
  fy_redis :: 'r
  fy_replies :: "reply list"

definition sent :: "('r \<Rightarrow> 'a \<times> 'r) \<Rightarrow> 'r faulty \<Rightarrow> (exn + 'a) \<times> 'r faulty" where
  "sent cmd s = (let (a, r) = cmd (fy_redis s); rest = tl (fy_replies s) in
     case fy_replies s of
       Refused e # _ \<Rightarrow> (Inl e, \<lparr>fy_redis = fy_redis s, fy_replies = rest\<rparr>)
     | Lost e # _ \<Rightarrow> (Inl e, \<lparr>fy_redis = r, fy_replies = rest\<rparr>)
     | _ \<Rightarrow> (Inr a, \<lparr>fy_redis = r, fy_replies = rest\<rparr>))"

text \<open>A handler of a Redis that answers, run on one that may not but does.\<close>

definition answering :: "('r, 'w, 'a) handler \<Rightarrow> ('r faulty, 'w, 'a) handler" where
  "answering p s w = (case p (fy_redis s) w of (x, r, w') \<Rightarrow> (x, s\<lparr>fy_redis := r\<rparr>, w'))"

lemma sent_cases:
  assumes "sent cmd s = (x, s')"
  obtains (ok) "x = Inr (fst (cmd (fy_redis s)))" "fy_redis s' = snd (cmd (fy_redis s))"
    | (lost) e where "x = Inl e" "fy_redis s' = snd (cmd (fy_redis s))"
    | (refused) e where "x = Inl e" "fy_redis s' = fy_redis s"
  using assms by (auto simp: sent_def Let_def split: prod.splits list.splits reply.splits)

lemma sent_answered: "fy_replies s = [] \<Longrightarrow>
    sent cmd s = (Inr (fst (cmd (fy_redis s))), s\<lparr>fy_redis := snd (cmd (fy_redis s))\<rparr>)"
  by (cases s) (simp add: sent_def split: prod.splits)

lemma sent_script:
  "sent cmd \<lparr>fy_redis = r, fy_replies = Answers # rs\<rparr> = (Inr (fst (cmd r)), \<lparr>fy_redis = snd (cmd r), fy_replies = rs\<rparr>)"
  "sent cmd \<lparr>fy_redis = r, fy_replies = Refused e # rs\<rparr> = (Inl e, \<lparr>fy_redis = r, fy_replies = rs\<rparr>)"
  "sent cmd \<lparr>fy_redis = r, fy_replies = Lost e # rs\<rparr> = (Inl e, \<lparr>fy_redis = snd (cmd r), fy_replies = rs\<rparr>)"
  by (simp_all add: sent_def split: prod.splits)

subsection \<open>The idempotency store and its runner\<close>

definition f_try_acquire ::
  "'r redis \<Rightarrow> 'j codec \<Rightarrow> nat \<Rightarrow> string \<Rightarrow> 'r faulty \<Rightarrow> (exn + 'j idempotency_hit) \<times> 'r faulty" where
  "f_try_acquire R C ttl key s =
     (let rkey = idem_key key
      in case sent (r_set_nx R rkey IN_PROGRESS ttl) s of
        (Inl e, s) \<Rightarrow> (Inl e, s)
      | (Inr acquired, s) \<Rightarrow>
          if acquired then (Inr \<lparr>hit_found = False, hit_in_progress = False, hit_response = None\<rparr>, s)
          else (case sent (\<lambda>r. (r_get R r rkey, r)) s of
              (Inl e, s) \<Rightarrow> (Inl e, s)
            | (Inr existing, s) \<Rightarrow>
                if existing = Some IN_PROGRESS
                then (Inr \<lparr>hit_found = True, hit_in_progress = True, hit_response = None\<rparr>, s)
                else (case c_loads C existing of
                    Inl e \<Rightarrow> (Inl e, s)
                  | Inr j \<Rightarrow> (Inr \<lparr>hit_found = True, hit_in_progress = False, hit_response = Some j\<rparr>, s))))"

definition f_save_response ::
  "'r redis \<Rightarrow> 'j codec \<Rightarrow> nat \<Rightarrow> string \<Rightarrow> 'j \<Rightarrow> 'r faulty \<Rightarrow> (exn + unit) \<times> 'r faulty" where
  "f_save_response R C ttl key j = sent (\<lambda>r. ((), save_response R C ttl key j r))"

definition f_release :: "'r redis \<Rightarrow> string \<Rightarrow> 'r faulty \<Rightarrow> (exn + unit) \<times> 'r faulty" where
  "f_release R key = sent (\<lambda>r. ((), release R key r))"

definition f_idempotent ::
  "'r redis \<Rightarrow> 'j codec \<Rightarrow> nat \<Rightarrow> ('a \<Rightarrow> 'j) \<Rightarrow> ('j \<Rightarrow> exn + 'a) \<Rightarrow> string option \<Rightarrow>
   ('r faulty, 'w, 'a) handler \<Rightarrow> ('r faulty, 'w, 'a) handler" where
  "f_idempotent R C ttl dump undump key produce s w =
     (if \<not> str_truthy key then produce s w
      else (case f_try_acquire R C ttl (the key) s of
          (Inl e, s) \<Rightarrow> (Inl e, s, w)
        | (Inr hit, s) \<Rightarrow>
            if hit_in_progress hit
            then (Inl (ConflictError ''A request with this Idempotency-Key is already in progress''), s, w)
            else if hit_found hit \<and> hit_response hit \<noteq> None
            then (undump (the (hit_response hit)), s, w)
            else (case produce s w of
                (Inl e, s, w) \<Rightarrow> (case f_release R (the key) s of
                    (Inl e', s) \<Rightarrow> (Inl e', s, w)
                  | (Inr _, s) \<Rightarrow> (Inl e, s, w))
              | (Inr resp, s, w) \<Rightarrow> (case f_save_response R C ttl (the key) (dump resp) s of
                    (Inl e, s) \<Rightarrow> (Inl e, s, w)
                  | (Inr _, s) \<Rightarrow> (Inr resp, s, w)))))"

text \<open>With a Redis that answers, the runner is the one of Idempotency.\<close>

lemma answered_try_acquire:
  assumes "fy_replies s = []"
  shows "f_try_acquire R C ttl key s =
    (case try_acquire R C ttl key (fy_redis s) of (x, r) \<Rightarrow> (x, s\<lparr>fy_redis := r\<rparr>))"
  using assms by (simp add: f_try_acquire_def try_acquire_def Let_def sent_answered split: prod.splits sum.splits)

lemma answered_idempotent:
  assumes "fy_replies s = []"
  shows "f_idempotent R C ttl dump undump key (answering p) s w =
    answering (idempotent R C ttl dump undump key p) s w"
  using assms
  by (auto simp: f_idempotent_def idempotent_def answering_def answered_try_acquire f_release_def f_save_response_def
      sent_answered split: prod.splits sum.splits)

text \<open>
  A key that is held, by whatever it holds, keeps the handler from running, whatever fails, and stays
  held; a free key is claimed before the handler runs.
\<close>

locale faulty_idempotency = idempotency
begin

lemma f_acquire_held:
  assumes "kv R (fy_redis s) (idem_key key) = Some e" "f_try_acquire R C ttl key s = (x, s')"
  shows "kv R (fy_redis s') = kv R (fy_redis s) \<and>
    (\<forall>hit. x = Inr hit \<longrightarrow> hit_in_progress hit \<or> hit_found hit \<and> hit_response hit \<noteq> None)"
proof -
  note nx = set_nx_present [OF ttl_pos assms(1), of IN_PROGRESS]
  obtain y s1 where y: "sent (r_set_nx R (idem_key key) IN_PROGRESS ttl) s = (y, s1)" by force
  obtain z s2 where z: "sent (\<lambda>r. (r_get R r (idem_key key), r)) s1 = (z, s2)" by force
  have s1: "kv R (fy_redis s1) = kv R (fy_redis s) \<and> y \<noteq> Inr True"
    using y by (cases rule: sent_cases) (use nx in auto)
  have s2: "fy_redis s2 = fy_redis s1" using z by (cases rule: sent_cases) auto
  show ?thesis
  proof (cases "\<exists>e. y = Inl e")
    case True
    then show ?thesis using assms(2) s1 by (auto simp: f_try_acquire_def Let_def y)
  next
    case False
    with s1 have "y = Inr False" by (cases y) auto
    then show ?thesis using assms(2) s1 s2
      by (auto simp: f_try_acquire_def Let_def y z split: if_splits sum.splits)
  qed
qed

lemma f_acquire_free:
  assumes "kv R (fy_redis s) (idem_key key) = None" "f_try_acquire R C ttl key s = (Inr hit, s')"
  shows "\<not> hit_found hit \<and> \<not> hit_in_progress hit \<and>
    kv R (fy_redis s') (idem_key key) = Some (RStr IN_PROGRESS, Some ttl)"
proof -
  note nx = set_nx_absent [OF ttl_pos assms(1), of IN_PROGRESS]
  obtain y s1 where y: "sent (r_set_nx R (idem_key key) IN_PROGRESS ttl) s = (y, s1)" by force
  from y show ?thesis
    by (cases rule: sent_cases) (use assms(2) nx in \<open>auto simp: f_try_acquire_def Let_def y\<close>)
qed

lemma f_idempotent_held:
  assumes "kv R (fy_redis s) (idem_key key) = Some e" "key \<noteq> []"
  shows "snd (snd (f_idempotent R C ttl dump undump (Some key) produce s w)) = w \<and>
    kv R (fy_redis (fst (snd (f_idempotent R C ttl dump undump (Some key) produce s w)))) = kv R (fy_redis s)"
proof -
  obtain x s' where x: "f_try_acquire R C ttl key s = (x, s')" by force
  from f_acquire_held [OF assms(1) x] assms(2) x show ?thesis
    by (cases x) (auto simp: f_idempotent_def)
qed

lemma f_idempotent_free:
  assumes "kv R (fy_redis s) (idem_key key) = None" "key \<noteq> []"
    and run: "f_idempotent R C ttl dump undump (Some key) produce s w = (r, s1, w1)"
    and keeps: "\<And>s w. kv R (fy_redis (fst (snd (produce s w)))) (idem_key key) = kv R (fy_redis s) (idem_key key)"
  shows "w1 = w \<or> (\<exists>s0 e s'. produce s0 w = (Inl e, s', w1)) \<or>
    (\<exists>s0 resp s'. produce s0 w = (Inr resp, s', w1) \<and> kv R (fy_redis s1) (idem_key key) \<noteq> None)"
proof -
  obtain x s0 where x: "f_try_acquire R C ttl key s = (x, s0)" by force
  show ?thesis
  proof (cases x)
    case (Inl e)
    then show ?thesis using run assms(2) x by (simp add: f_idempotent_def)
  next
    case (Inr hit)
    note free = f_acquire_free [OF assms(1) x [unfolded Inr]]
    obtain y s' w' where y: "produce s0 w = (y, s', w')" by (metis prod.exhaust)
    have held: "kv R (fy_redis s') (idem_key key) = Some (RStr IN_PROGRESS, Some ttl)"
      using keeps [of s0 w] y free by simp
    show ?thesis
    proof (cases y)
      case (Inl e)
      then have "w1 = w'" using run assms(2) x Inr free y by (auto simp: f_idempotent_def split: prod.splits sum.splits)
      with Inl y show ?thesis by metis
    next
      case out: (Inr resp)
      obtain z s2 where z: "f_save_response R C ttl key (dump resp) s' = (z, s2)" by force
      then have "w1 = w'" "s1 = s2" using run assms(2) x Inr free y out by (auto simp: f_idempotent_def split: sum.splits)
      moreover from z [unfolded f_save_response_def] have "kv R (fy_redis s2) (idem_key key) \<noteq> None"
        by (cases rule: sent_cases) (simp_all add: kv_save held)
      ultimately show ?thesis using y out by metis
    qed
  qed
qed

end

lemma faulty_idempotency: "idempotency R C ttl \<Longrightarrow> faulty_idempotency R C ttl"
  by (simp add: faulty_idempotency_def)

interpretation mem_faulty_idem: faulty_idempotency mem_redis str_codec 86400
  by (rule faulty_idempotency [OF mem_idempotency])

subsection \<open>The services\<close>

text \<open>
  After the transaction: a drop of the cached user, or the new copy. Both raise out of the operation when the
  command fails; the transaction is committed then.
\<close>

definition f_drop_cached :: "('r, 'v) cache \<Rightarrow> uuid \<Rightarrow> 'a \<Rightarrow> ('r faulty, 'a) svc_op" where
  "f_drop_cached Ch uid dto v = (case sent (ca_delete Ch [user_cache_key uid]) (sv_redis v) of
       (Inl e, s) \<Rightarrow> (Inl e, v\<lparr>sv_redis := s\<rparr>)
     | (Inr _, s) \<Rightarrow> (Inr dto, v\<lparr>sv_redis := s\<rparr>))"

definition f_cache_put :: "('r, 'v) cache \<Rightarrow> (user_read_detail \<Rightarrow> 'v) \<Rightarrow> user_read_detail \<Rightarrow> 'a \<Rightarrow> ('r faulty, 'a) svc_op" where
  "f_cache_put Ch dump det dto v =
     (case sent (\<lambda>r. ((), ca_set Ch (user_cache_key (ur_id det)) (dump det) (Some CACHE_TTL) r)) (sv_redis v) of
       (Inl e, s) \<Rightarrow> (Inl e, v\<lparr>sv_redis := s\<rparr>)
     | (Inr _, s) \<Rightarrow> (Inr dto, v\<lparr>sv_redis := s\<rparr>))"

definition f_create_user ::
  "engine \<Rightarrow> ('r, 'v) cache \<Rightarrow> (user_read_detail \<Rightarrow> 'v) \<Rightarrow> uuid \<Rightarrow> uuid \<Rightarrow> timestamp \<Rightarrow> user_create \<Rightarrow>
   ('r faulty, user_read) svc_op" where
  "f_create_user E Ch dump new_id event_id now data =
     in_tx (create_tx E new_id event_id now data) (\<lambda>dto. f_cache_put Ch dump (detail_of dto [] None) dto)"

definition f_get_user ::
  "engine \<Rightarrow> ('r, 'v) cache \<Rightarrow> (user_read_detail \<Rightarrow> 'v) \<Rightarrow> ('v \<Rightarrow> exn + user_read_detail) \<Rightarrow> uuid \<Rightarrow>
   ('r faulty, user_read_detail) svc_op" where
  "f_get_user E Ch dump undump uid v =
     (case sent (\<lambda>r. (ca_get Ch (user_cache_key uid) r, r)) (sv_redis v) of
        (Inl e, s) \<Rightarrow> (Inl e, v\<lparr>sv_redis := s\<rparr>)
      | (Inr (Inl e), s) \<Rightarrow> (Inl e, v\<lparr>sv_redis := s\<rparr>)
      | (Inr (Inr (Some hit)), s) \<Rightarrow> (undump hit, v\<lparr>sv_redis := s\<rparr>)
      | (Inr (Inr None), s) \<Rightarrow> in_tx (get_tx E uid) (\<lambda>user v. case user of
            None \<Rightarrow> (Inl (NotFoundError ''User not found''), v)
          | Some dto \<Rightarrow> f_cache_put Ch dump dto dto v) (v\<lparr>sv_redis := s\<rparr>))"

definition f_update_user ::
  "engine \<Rightarrow> ('r, 'v) cache \<Rightarrow> timestamp \<Rightarrow> uuid \<Rightarrow> user_update \<Rightarrow> ('r faulty, user_read) svc_op" where
  "f_update_user E Ch now uid data = in_tx (update_tx E now uid data) (\<lambda>dto. f_drop_cached Ch uid dto)"

definition f_upsert_profile ::
  "engine \<Rightarrow> ('r, 'v) cache \<Rightarrow> uuid \<Rightarrow> uuid \<Rightarrow> profile_upsert \<Rightarrow> ('r faulty, profile_read) svc_op" where
  "f_upsert_profile E Ch new_id uid data = in_tx (upsert_profile_tx E new_id uid data) (\<lambda>dto. f_drop_cached Ch uid dto)"

definition f_create_account ::
  "engine \<Rightarrow> ('r, 'v) cache \<Rightarrow> uuid \<Rightarrow> uuid \<Rightarrow> string \<Rightarrow> ('r faulty, account_read) svc_op" where
  "f_create_account E Ch new_id user_id name =
     in_tx (create_account_tx E new_id user_id name) (\<lambda>dto. f_drop_cached Ch user_id dto)"

definition f_deposit ::
  "engine \<Rightarrow> ('r, 'v) cache \<Rightarrow> uuid \<Rightarrow> timestamp \<Rightarrow> uuid \<Rightarrow> int \<Rightarrow> acquirer_name \<Rightarrow> uuid list \<Rightarrow>
   ('r faulty, account_read) svc_op" where
  "f_deposit E Ch new_id now account_id amount acquirer category_ids =
     in_tx (deposit_tx E new_id now account_id amount acquirer category_ids)
       (\<lambda>(dto, uid). f_drop_cached Ch uid dto)"

definition f_withdraw ::
  "engine \<Rightarrow> ('r, 'v) cache \<Rightarrow> uuid \<Rightarrow> timestamp \<Rightarrow> uuid \<Rightarrow> int \<Rightarrow> acquirer_name \<Rightarrow> ('r faulty, account_read) svc_op" where
  "f_withdraw E Ch new_id now account_id amount acquirer =
     in_tx (withdraw_tx E new_id now account_id amount acquirer) (\<lambda>(dto, uid). f_drop_cached Ch uid dto)"

text \<open>\<^verbatim>\<open>revoke_all\<close> sends \<^verbatim>\<open>SMEMBERS\<close> and one \<^verbatim>\<open>MULTI\<close> pipeline.\<close>

definition f_revoke_all :: "'r redis \<Rightarrow> string \<Rightarrow> 'r faulty \<Rightarrow> (exn + nat) \<times> 'r faulty" where
  "f_revoke_all R user_id s = (case sent (\<lambda>r. (list_sids R user_id r, r)) s of
       (Inl e, s) \<Rightarrow> (Inl e, s)
     | (Inr sids, s) \<Rightarrow>
         if sids = [] then (Inr 0, s)
         else sent (\<lambda>r. (length sids, snd (r_del R (uk user_id) (fold (\<lambda>sid r. snd (r_del R (sk sid) r)) sids r)))) s)"

definition f_delete_user :: "engine \<Rightarrow> ('r, 'v) cache \<Rightarrow> 'r redis \<Rightarrow> uuid \<Rightarrow> ('r faulty, unit) svc_op" where
  "f_delete_user E Ch R uid = in_tx (delete_tx E uid) (\<lambda>_ v. case f_drop_cached Ch uid () v of
       (Inl e, v) \<Rightarrow> (Inl e, v)
     | (Inr _, v) \<Rightarrow> (case f_revoke_all R uid (sv_redis v) of
           (Inl e, s) \<Rightarrow> (Inl e, v\<lparr>sv_redis := s\<rparr>)
         | (Inr _, s) \<Rightarrow> (Inr (), v\<lparr>sv_redis := s\<rparr>)))"

text \<open>A service operation behind the idempotency runner.\<close>

definition f_keyed ::
  "'r redis \<Rightarrow> 'j codec \<Rightarrow> ('a \<Rightarrow> 'j) \<Rightarrow> ('j \<Rightarrow> exn + 'a) \<Rightarrow> string option \<Rightarrow>
   ('r faulty, 'a) svc_op \<Rightarrow> ('r faulty, 'a) svc_op" where
  "f_keyed R C dump undump key op v =
     (case f_idempotent R C DEFAULT_TTL dump undump key
         (\<lambda>s w. case op (v\<lparr>sv_uow := w, sv_redis := s\<rparr>) of (r, v) \<Rightarrow> (r, sv_redis v, sv_uow v))
         (sv_redis v) (sv_uow v) of
       (r, s, w) \<Rightarrow> (r, v\<lparr>sv_uow := w, sv_redis := s\<rparr>))"

text \<open>With a Redis that answers, the operations are the ones of the services' theories.\<close>

definition answering_op :: "('r, 'a) svc_op \<Rightarrow> ('r faulty, 'a) svc_op" where
  "answering_op op v = (case op \<lparr>sv_uow = sv_uow v, sv_redis = fy_redis (sv_redis v)\<rparr> of
     (x, v') \<Rightarrow> (x, \<lparr>sv_uow = sv_uow v', sv_redis = (sv_redis v)\<lparr>fy_redis := sv_redis v'\<rparr>\<rparr>))"

lemma answered_in_tx:
  assumes "\<And>x v. fy_replies (sv_redis v) = [] \<Longrightarrow> f x v = answering_op (g x) v" "fy_replies (sv_redis v) = []"
  shows "in_tx m f v = answering_op (in_tx m g) v"
  using assms(2) by (cases v) (auto simp: in_tx_def answering_op_def assms(1) split: prod.splits sum.splits)

lemma answered_drop: "fy_replies (sv_redis v) = [] \<Longrightarrow>
    f_drop_cached Ch uid dto v = answering_op (\<lambda>v. (Inr dto, drop_cached Ch uid v)) v"
  by (cases v) (simp add: f_drop_cached_def sent_answered answering_op_def drop_cached_def)

lemma answered_put: "fy_replies (sv_redis v) = [] \<Longrightarrow>
    f_cache_put Ch dump det dto v = answering_op (\<lambda>v. (Inr dto, cache_put Ch dump det v)) v"
  by (cases v) (simp add: f_cache_put_def sent_answered answering_op_def cache_put_def)

lemma answered_get_user:
  assumes "fy_replies (sv_redis v) = []"
  shows "f_get_user E Ch dump undump uid v = answering_op (get_user E Ch dump undump uid) v"
proof -
  have "in_tx (get_tx E uid) (\<lambda>user v. case user of None \<Rightarrow> (Inl (NotFoundError ''User not found''), v)
        | Some dto \<Rightarrow> f_cache_put Ch dump dto dto v) v =
      answering_op (in_tx (get_tx E uid) (\<lambda>user v. case user of None \<Rightarrow> (Inl (NotFoundError ''User not found''), v)
        | Some dto \<Rightarrow> (Inr dto, cache_put Ch dump dto v))) v"
    by (rule answered_in_tx [OF _ assms]) (auto simp: answered_put answering_op_def split: option.split)
  with assms show ?thesis
    by (cases v) (auto simp: f_get_user_def get_user_def sent_answered answering_op_def split: sum.split option.split)
qed

lemma answered_services:
  assumes "fy_replies (sv_redis v) = []"
  shows "f_create_user E Ch dump i ei now udata v = answering_op (create_user E Ch dump i ei now udata) v"
    "f_update_user E Ch now uid upd v = answering_op (update_user E Ch now uid upd) v"
    "f_delete_user E Ch R uid v = answering_op (delete_user E Ch (Some (revoke_all R)) uid) v"
    "f_upsert_profile E Ch i uid pdata v = answering_op (upsert_profile E Ch i uid pdata) v"
    "f_create_account E Ch i uid name v = answering_op (create_account E Ch i uid name) v"
    "f_deposit E Ch i now aid amount acq cids v = answering_op (deposit E Ch i now aid amount acq cids) v"
    "f_withdraw E Ch i now aid amount acq v = answering_op (withdraw E Ch i now aid amount acq) v"
  unfolding f_create_user_def create_user_def f_update_user_def update_user_def f_delete_user_def delete_user_def
    f_upsert_profile_def upsert_profile_def f_create_account_def create_account_def f_deposit_def deposit_def
    f_withdraw_def withdraw_def
  by (rule answered_in_tx [OF _ assms]; force simp: answered_put answered_drop answering_op_def drop_cached_def Let_def
      f_revoke_all_def revoke_all_def sent_answered)+

subsection \<open>Properties\<close>

text \<open>
  C7: A completed request is never carried out again, whatever Redis does: whichever of its commands fail,
  and whether their effect took place, a call of \<^verbatim>\<open>idempotent()\<close> leaves the data alone, or its handler
  raised, or the handler has completed and then, while the key keeps its value, no later call with the
  key changes any data, again whichever commands fail.
\<close>

theorem faulty_at_most_once:
  assumes "idempotency R C ttl" "key \<noteq> []"
    and "\<And>s w. kv R (fy_redis (fst (snd (produce s w)))) (idem_key key) = kv R (fy_redis s) (idem_key key)"
    and run: "f_idempotent R C ttl dump undump (Some key) produce s w = (r, s1, w1)"
  shows "w1 = w \<or> (\<exists>s0 e s'. produce s0 w = (Inl e, s', w1)) \<or>
    (\<exists>s0 resp s'. produce s0 w = (Inr resp, s', w1)) \<and>
    (\<forall>produce' s2 w2. kv R (fy_redis s2) (idem_key key) = kv R (fy_redis s1) (idem_key key) \<longrightarrow>
      snd (snd (f_idempotent R C ttl dump undump (Some key) produce' s2 w2)) = w2)"
proof -
  note F = faulty_idempotency [OF assms(1)]
  note held = faulty_idempotency.f_idempotent_held [OF F _ assms(2)]
  show ?thesis
  proof (cases "kv R (fy_redis s) (idem_key key)")
    case (Some e)
    from held [OF Some, of dump undump produce w] run show ?thesis by simp
  next
    case None
    from faulty_idempotency.f_idempotent_free [OF F None assms(2) run assms(3)]
    show ?thesis using held by (metis not_None_eq)
  qed
qed

theorem faulty_at_most_once_witness:
  "snd (snd (f_idempotent mem_redis str_codec 86400 (\<lambda>x. x) Inr (Some ''k'') (\<lambda>s (w::nat). (Inr ''again'', s, w + 1))
     \<lparr>fy_redis = [''idempotency:k'' \<mapsto> (MStr IN_PROGRESS, Some 86400)], fy_replies = [Answers, Lost (OtherError ''TimeoutError'' [])]\<rparr> 8)) = 8"
proof -
  let ?p = "\<lambda>s (w::nat). (Inr ''done'', s, w + 1) :: (exn + string) \<times> mem faulty \<times> nat"
  let ?s = "\<lparr>fy_redis = Map.empty, fy_replies = [Answers, Refused (OtherError ''TimeoutError'' [])]\<rparr> :: mem faulty"
  let ?s1 = "\<lparr>fy_redis = [''idempotency:k'' \<mapsto> (MStr IN_PROGRESS, Some 86400)], fy_replies = []\<rparr> :: mem faulty"
  have run: "f_idempotent mem_redis str_codec 86400 (\<lambda>x. x) Inr (Some ''k'') ?p ?s 7 = (Inl (OtherError ''TimeoutError'' []), ?s1, 8)"
    by (simp add: f_idempotent_def f_try_acquire_def f_save_response_def sent_script mem_redis_def idem_key_def)
  have "\<forall>p s2 w2. kv mem_redis (fy_redis s2) (idem_key ''k'') = kv mem_redis (fy_redis ?s1) (idem_key ''k'') \<longrightarrow>
      snd (snd (f_idempotent mem_redis str_codec 86400 (\<lambda>x. x) Inr (Some ''k'') p s2 w2)) = w2"
    using faulty_at_most_once [OF mem_idempotency _ _ run] by simp
  note all = this [rule_format]
  show ?thesis by (rule all) simp
qed

text \<open>
  What the client pays for it: when storing the answer or releasing the key is refused, the client gets
  that failure, in the place of the answer or of the handler's own exception, and while the marker lives
  every repetition is answered with 409.
\<close>

lemma failed_save_blocks_key:
  assumes "idempotency R C ttl" "key \<noteq> []" "kv R (fy_redis s) (idem_key key) = None"
    and "fy_replies s = [Answers, Refused e]" "\<And>s. produce s w = (x, s, w')"
  shows "\<exists>s1. f_idempotent R C ttl dump undump (Some key) produce s w = (Inl e, s1, w') \<and>
    (\<forall>s2 p w2. kv R (fy_redis s2) (idem_key key) = kv R (fy_redis s1) (idem_key key) \<and> fy_replies s2 = [] \<longrightarrow>
      (\<exists>ex. fst (f_idempotent R C ttl dump undump (Some key) (answering p) s2 w2) = Inl ex \<and>
        he_status (handle_exception rid ex) = 409))"
proof -
  note nx = redis_service.set_nx_absent [OF idempotency.axioms(1) [OF assms(1)] idempotency.ttl_pos [OF assms(1)] assms(3), of IN_PROGRESS]
  let ?s1 = "\<lparr>fy_redis = snd (r_set_nx R (idem_key key) IN_PROGRESS ttl (fy_redis s)), fy_replies = []\<rparr>"
  have s: "s = \<lparr>fy_redis = fy_redis s, fy_replies = [Answers, Refused e]\<rparr>" using assms(4) by (cases s) simp
  have "f_idempotent R C ttl dump undump (Some key) produce s w = (Inl e, ?s1, w')"
    by (subst s, cases x) (use assms(2,5) nx in \<open>simp_all add: f_idempotent_def f_try_acquire_def f_save_response_def
        f_release_def sent_script Let_def\<close>)
  moreover have held: "kv R (fy_redis ?s1) (idem_key key) = Some (RStr IN_PROGRESS, Some ttl)" using nx by simp
  have again: "\<exists>ex. fst (f_idempotent R C ttl dump undump (Some key) (answering p) s2 w2) = Inl ex \<and>
        he_status (handle_exception rid ex) = 409"
    if "kv R (fy_redis s2) (idem_key key) = kv R (fy_redis ?s1) (idem_key key)" "fy_replies s2 = []" for s2 p w2
  proof -
    note * = that
    obtain r where "idempotent R C ttl dump undump (Some key) p (fy_redis s2) w2 =
        (Inl (ConflictError ''A request with this Idempotency-Key is already in progress''), r, w2)"
      by (rule idempotency.busy_conflict [OF assms(1), of "fy_redis s2" key "Some ttl" dump undump p w2]) (use * held assms(2) in auto)
    with *(2) show ?thesis by (simp add: answered_idempotent answering_def handle_controlled render_def)
  qed
  ultimately show ?thesis by (intro exI [of _ ?s1] conjI allI impI) (assumption, elim conjE, rule again)
qed

lemma f_drop_refused:
  assumes "fy_replies (sv_redis v) = Refused e # rs"
  shows "f_drop_cached Ch uid dto v = (Inl e, v\<lparr>sv_redis := \<lparr>fy_redis = fy_redis (sv_redis v), fy_replies = rs\<rparr>\<rparr>)"
  using assms by (simp add: f_drop_cached_def sent_def split: prod.splits)

lemma f_drop_answered:
  assumes "fy_replies (sv_redis v) = []"
  shows "f_drop_cached Ch uid dto v =
    (Inr dto, v\<lparr>sv_redis := (sv_redis v)\<lparr>fy_redis := snd (ca_delete Ch [user_cache_key uid] (fy_redis (sv_redis v)))\<rparr>\<rparr>)"
  using assms by (simp add: f_drop_cached_def sent_answered)

lemma f_deposit_tx:
  assumes "sv_idle v" "deposit_tx E i now aid amount acq cids (opened (sv_db v)) = (Inr (dto, uid), u)"
  shows "f_deposit E Ch i now aid amount acq cids v = f_drop_cached Ch uid dto (v\<lparr>sv_uow := idle (committed u)\<rparr>)"
  unfolding f_deposit_def
  by (simp add: in_tx_finished [where m = "deposit_tx E i now aid amount acq cids", OF assms])

lemma f_keyed_claimed:
  assumes "key \<noteq> []" "sent (r_set_nx R (idem_key key) IN_PROGRESS DEFAULT_TTL) (sv_redis v) = (Inr True, s1)"
    and "op (v\<lparr>sv_redis := s1\<rparr>) = (y, v')"
  shows "f_keyed R C dump undump (Some key) op v = (case y of
      Inl e \<Rightarrow> (case f_release R key (sv_redis v') of
          (Inl e', s) \<Rightarrow> (Inl e', v'\<lparr>sv_redis := s\<rparr>) | (Inr _, s) \<Rightarrow> (Inl e, v'\<lparr>sv_redis := s\<rparr>))
    | Inr x \<Rightarrow> (case f_save_response R C DEFAULT_TTL key (dump x) (sv_redis v') of
          (Inl e, s) \<Rightarrow> (Inl e, v'\<lparr>sv_redis := s\<rparr>) | (Inr _, s) \<Rightarrow> (Inr x, v'\<lparr>sv_redis := s\<rparr>)))"
proof -
  have v: "v\<lparr>sv_uow := sv_uow v, sv_redis := s1\<rparr> = v\<lparr>sv_redis := s1\<rparr>"
    and v': "v\<lparr>sv_uow := sv_uow v', sv_redis := s\<rparr> = v'\<lparr>sv_redis := s\<rparr>" for s
    by (cases v, cases v', simp)+
  show ?thesis using assms
    by (auto simp: f_keyed_def f_idempotent_def f_try_acquire_def v v' split: sum.splits prod.splits)
qed

text \<open>
  The hole in it: the drop of the cached copy comes after the commit. If it is refused the money has moved,
  the client gets the failure, and the runner takes the handler for failed and frees the key: the
  client's repetition, with the same key, moves the money again.
\<close>

lemma failed_drop_books_twice:
  assumes "idempotency R C DEFAULT_TTL" "key \<noteq> []" "sv_idle v"
    and "kv R (fy_redis (sv_redis v)) (idem_key key) = None" "fy_replies (sv_redis v) = [Answers, Refused e]"
    and "deposit_tx E i now aid amount acq cids (opened (sv_db v)) = (Inr (dto, uid), u)"
    and "deposit_tx E i' now' aid amount acq cids (opened (committed u)) = (Inr (dto', uid'), u')"
  shows "\<exists>v1. f_keyed R C dump undump (Some key) (f_deposit E Ch i now aid amount acq cids) v = (Inl e, v1) \<and>
    sv_db v1 = committed u \<and>
    sv_db (snd (f_keyed R C dump undump (Some key) (f_deposit E Ch i' now' aid amount acq cids) v1)) = committed u'"
proof -
  note nx = redis_service.set_nx_absent [OF idempotency.axioms(1) [OF assms(1)] idempotency.ttl_pos [OF assms(1)], where v = IN_PROGRESS]
  let ?claim = "r_set_nx R (idem_key key) IN_PROGRESS DEFAULT_TTL" let ?r = "fy_redis (sv_redis v)"
  let ?r1 = "snd (?claim ?r)"
  let ?v1 = "v\<lparr>sv_uow := idle (committed u), sv_redis := \<lparr>fy_redis = release R key ?r1, fy_replies = []\<rparr>\<rparr>"
  have s: "sv_redis v = \<lparr>fy_redis = ?r, fy_replies = [Answers, Refused e]\<rparr>" using assms(5) by (cases "sv_redis v") simp
  have claim: "sent ?claim (sv_redis v) = (Inr True, \<lparr>fy_redis = ?r1, fy_replies = [Refused e]\<rparr>)"
    by (subst s) (use nx [OF assms(4)] in \<open>simp add: sent_script\<close>)
  have op: "f_deposit E Ch i now aid amount acq cids (v\<lparr>sv_redis := \<lparr>fy_redis = ?r1, fy_replies = [Refused e]\<rparr>\<rparr>) =
      (Inl e, v\<lparr>sv_uow := idle (committed u), sv_redis := \<lparr>fy_redis = ?r1, fy_replies = []\<rparr>\<rparr>)"
    by (subst f_deposit_tx [where u = u]) (use assms(3,6) in \<open>simp_all add: f_drop_refused\<close>)
  have first: "f_keyed R C dump undump (Some key) (f_deposit E Ch i now aid amount acq cids) v = (Inl e, ?v1)"
    using f_keyed_claimed [where op = "f_deposit E Ch i now aid amount acq cids", OF assms(2) claim op] by (simp add: f_release_def sent_answered)
  let ?r2 = "snd (?claim (release R key ?r1))"
  have "kv R (release R key ?r1) (idem_key key) = None" by (simp add: idempotency.kv_release [OF assms(1)])
  then have claim2: "sent ?claim (sv_redis ?v1) = (Inr True, \<lparr>fy_redis = ?r2, fy_replies = []\<rparr>)"
    using nx [of "release R key ?r1" "idem_key key"] by (simp add: sent_answered)
  let ?v2 = "?v1\<lparr>sv_redis := \<lparr>fy_redis = ?r2, fy_replies = []\<rparr>\<rparr>"
  let ?s' = "\<lparr>fy_redis = snd (ca_delete Ch [user_cache_key uid'] ?r2), fy_replies = []\<rparr>"
  have op2: "f_deposit E Ch i' now' aid amount acq cids ?v2 = (Inr dto', ?v2\<lparr>sv_uow := idle (committed u'), sv_redis := ?s'\<rparr>)"
    by (subst f_deposit_tx [where u = u'])
       (use assms(7) in \<open>simp_all add: f_drop_answered sv_idle_def idle_def sv_db_def\<close>)
  have "sv_db (snd (f_keyed R C dump undump (Some key) (f_deposit E Ch i' now' aid amount acq cids) ?v1)) = committed u'"
    using f_keyed_claimed [where op = "f_deposit E Ch i' now' aid amount acq cids" and C = C and dump = dump and
        undump = undump, OF assms(2) claim2 op2] by (simp add: f_save_response_def sent_answered sv_db_def idle_def)
  with first show ?thesis by (intro exI [of _ ?v1]) (simp add: sv_db_def idle_def)
qed

text \<open>
  The other writes: whatever the cache's command fails with, the operation fails with, and its transaction is
  committed. A read fails although the database could have answered it.
\<close>

lemma failed_cache_is_committed:
  assumes "sv_idle v" "fy_replies (sv_redis v) = Refused e # rs"
  shows "create_tx E i ei now udata (opened (sv_db v)) = (Inr dto, u) \<Longrightarrow>
      fst (f_create_user E Ch dump i ei now udata v) = Inl e \<and> sv_db (snd (f_create_user E Ch dump i ei now udata v)) = committed u"
    "update_tx E now uid upd (opened (sv_db v)) = (Inr dto, u) \<Longrightarrow>
      fst (f_update_user E Ch now uid upd v) = Inl e \<and> sv_db (snd (f_update_user E Ch now uid upd v)) = committed u"
    "upsert_profile_tx E i uid pdata (opened (sv_db v)) = (Inr p, u) \<Longrightarrow>
      fst (f_upsert_profile E Ch i uid pdata v) = Inl e \<and> sv_db (snd (f_upsert_profile E Ch i uid pdata v)) = committed u"
    "create_account_tx E i uid name (opened (sv_db v)) = (Inr a, u) \<Longrightarrow>
      fst (f_create_account E Ch i uid name v) = Inl e \<and> sv_db (snd (f_create_account E Ch i uid name v)) = committed u"
    "withdraw_tx E i now aid amount acq (opened (sv_db v)) = (Inr au, u) \<Longrightarrow>
      fst (f_withdraw E Ch i now aid amount acq v) = Inl e \<and> sv_db (snd (f_withdraw E Ch i now aid amount acq v)) = committed u"
    "fst (f_get_user E Ch dump undump uid v) = Inl e"
  using assms
  by (auto simp: f_create_user_def f_update_user_def f_upsert_profile_def f_create_account_def f_withdraw_def f_get_user_def
      in_tx_finished [where m = "create_tx E i ei now udata"] in_tx_finished [where m = "update_tx E now uid upd"]
      in_tx_finished [where m = "upsert_profile_tx E i uid pdata"] in_tx_finished [where m = "create_account_tx E i uid name"]
      in_tx_finished [where m = "withdraw_tx E i now aid amount acq"]
      f_drop_refused f_cache_put_def sent_def Let_def sv_db_def idle_def split: prod.splits)

text \<open>
  A deletion whose drop is refused: the user's rows are gone, the sessions are not revoked, and they never
  will be, because the repetition answers 404 before it gets to them.
\<close>

lemma failed_drop_keeps_sessions:
  assumes "sv_idle v" "delete_tx E uid (opened (sv_db v)) = (Inr (), u)" "fy_replies (sv_redis v) = [Refused e]"
    and "\<And>d. E' d = None"
  shows "\<exists>v1 v2. f_delete_user E Ch R uid v = (Inl e, v1) \<and> uid \<notin> u_id ` set (users (sv_db v1)) \<and>
    fy_redis (sv_redis v1) = fy_redis (sv_redis v) \<and>
    f_delete_user E' Ch' R' uid v1 = (Inl (NotFoundError ''User not found''), v2) \<and>
    fy_redis (sv_redis v2) = fy_redis (sv_redis v)"
proof -
  let ?v1 = "v\<lparr>sv_uow := idle (committed u), sv_redis := \<lparr>fy_redis = fy_redis (sv_redis v), fy_replies = []\<rparr>\<rparr>"
  note d = delete_tx_runs [OF assms(2)]
  have "f_delete_user E Ch R uid v = (Inl e, ?v1)"
    using assms(3) by (simp add: f_delete_user_def in_tx_finished [where m = "delete_tx E uid", OF assms(1,2)] f_drop_refused)
  moreover have "uid \<notin> u_id ` set (users (committed u))" using d by (auto simp: deleted_db_sel)
  moreover have del: "delete_tx E' uid (opened (committed u)) = (Inl (NotFoundError ''User not found''), w)"
    if "repo_delete_by_id E' User uid (opened (committed u)) = (Inr 0, w)" for w
    using that by (simp add: delete_tx_def tx_bind_def tx_fail_def)
  have "\<exists>w. repo_delete_by_id E' User uid (opened (committed u)) = (Inr 0, w)"
    using d delete_user_ok [of "committed u" uid] assms(4)
    by (auto simp: runs table_defs ran_def deleted_db_sel filter_empty_conv)
  then obtain w where w: "delete_tx E' uid (opened (sv_db ?v1)) = (Inl (NotFoundError ''User not found''), w)"
    using del by (auto simp: sv_db_def idle_def)
  have "f_delete_user E' Ch' R' uid ?v1 = (Inl (NotFoundError ''User not found''), ?v1\<lparr>sv_uow := idle (sv_db ?v1)\<rparr>)"
    unfolding f_delete_user_def by (rule in_tx_failed [where m = "delete_tx E' uid", OF _ w]) (simp add: sv_idle_def idle_def, rule keeps)
  ultimately show ?thesis
    by (intro exI [of _ ?v1] exI [of _ "?v1\<lparr>sv_uow := idle (sv_db ?v1)\<rparr>"]) (simp add: sv_db_def idle_def)
qed

end
