(* ===== verification/Job_Faults.thy ===== *)
theory Job_Faults
  imports Redis_Faults Scheduler
begin

section \<open>The scheduler when Redis fails\<close>

text \<open>
  \<^verbatim>\<open>scheduler/scheduler.py\<close> once more, with the lock's commands sent to the Redis of Redis_Faults. What a job
  raises stays in \<^verbatim>\<open>_run\<close>; what the lock's commands raise leaves it, and \<^verbatim>\<open>_loop\<close> has no handler: the task of
  the job is over.
\<close>

definition f_acquire_lock :: "'r redis \<Rightarrow> string \<Rightarrow> nat \<Rightarrow> 'r faulty \<Rightarrow> (exn + bool) \<times> 'r faulty" where
  "f_acquire_lock R name ttl = sent (acquire_lock R name ttl)"

definition f_release_lock :: "'r redis \<Rightarrow> string \<Rightarrow> 'r faulty \<Rightarrow> (exn + unit) \<times> 'r faulty" where
  "f_release_lock R name = sent (\<lambda>r. ((), release_lock R name r))"

definition f_run_job :: "'r redis \<Rightarrow> ('r faulty \<times> 'w) job \<Rightarrow> 'r faulty \<times> 'w \<Rightarrow> (exn + unit) \<times> 'r faulty \<times> 'w" where
  "f_run_job R job s =
     (if jb_single_instance job
      then (case f_acquire_lock R (jb_name job) (jb_lock_ttl job) (fst s) of
          (Inl e, r) \<Rightarrow> (Inl e, r, snd s)
        | (Inr False, r) \<Rightarrow> (Inr (), r, snd s)
        | (Inr True, r) \<Rightarrow> (case snd (jb_func job (r, snd s)) of (r', w) \<Rightarrow>
            (case f_release_lock R (jb_name job) r' of (x, r'') \<Rightarrow> (x, r'', w))))
      else (Inr (), snd (jb_func job s)))"

fun f_job_loop_from ::
  "'r redis \<Rightarrow> ('r faulty \<times> 'w) job \<Rightarrow> wake list \<Rightarrow> 'r faulty \<times> 'w \<Rightarrow> (exn + unit) \<times> 'r faulty \<times> 'w" where
  "f_job_loop_from R job [] s = (Inr (), s)"
| "f_job_loop_from R job (Stopped # ws) s = (Inr (), s)"
| "f_job_loop_from R job (TimedOut # ws) s = (case f_run_job R job s of
     (Inl e, s') \<Rightarrow> (Inl e, s')
   | (Inr _, s') \<Rightarrow> f_job_loop_from R job ws s')"

definition f_job_loop ::
  "'r redis \<Rightarrow> ('r faulty \<times> 'w) job \<Rightarrow> wake list \<Rightarrow> 'r faulty \<times> 'w \<Rightarrow> (exn + unit) \<times> 'r faulty \<times> 'w" where
  "f_job_loop R job wakes s =
     (if jb_run_on_start job
      then (case f_run_job R job s of
          (Inl e, s') \<Rightarrow> (Inl e, s')
        | (Inr _, s') \<Rightarrow> f_job_loop_from R job wakes s')
      else f_job_loop_from R job wakes s)"

definition f_heartbeat :: "'r redis \<Rightarrow> string \<Rightarrow> 'r faulty \<times> 'w \<Rightarrow> (exn + unit) \<times> 'r faulty \<times> 'w" where
  "f_heartbeat R now_text s = (case sent (\<lambda>r. ((), r_set R ''worker:heartbeat'' now_text 120 r)) (fst s) of
     (x, r) \<Rightarrow> (x, r, snd s))"

subsection \<open>With a Redis that answers\<close>

definition job_answering :: "('r \<times> 'w) job \<Rightarrow> ('r faulty \<times> 'w) job" where
  "job_answering job = \<lparr>jb_name = jb_name job,
     jb_func = (\<lambda>(s, w). case jb_func job (fy_redis s, w) of (x, r, w') \<Rightarrow> (x, s\<lparr>fy_redis := r\<rparr>, w')),
     jb_interval = jb_interval job, jb_cron = jb_cron job, jb_run_on_start = jb_run_on_start job,
     jb_single_instance = jb_single_instance job, jb_lock_ttl = jb_lock_ttl job\<rparr>"

lemma answered_run_job:
  assumes "fy_replies s = []"
  shows "f_run_job R (job_answering job) (s, w) =
    (Inr (), s\<lparr>fy_redis := fst (run_job R job (fy_redis s, w))\<rparr>, snd (run_job R job (fy_redis s, w)))"
  using assms
  by (auto simp: f_run_job_def run_job_def job_answering_def f_acquire_lock_def f_release_lock_def sent_answered
      split: prod.splits bool.splits)

lemma answered_job_loop_from:
  assumes "fy_replies s = []"
  shows "f_job_loop_from R (job_answering job) ws (s, w) =
    (Inr (), s\<lparr>fy_redis := fst (job_loop_from R job ws (fy_redis s, w))\<rparr>, snd (job_loop_from R job ws (fy_redis s, w)))"
  using assms
proof (induction R job ws "(fy_redis s, w)" arbitrary: s w rule: job_loop_from.induct)
  case (3 R job ws)
  let ?n = "run_job R job (fy_redis s, w)"
  have "f_job_loop_from R (job_answering job) ws (s\<lparr>fy_redis := fst ?n\<rparr>, snd ?n) =
    (Inr (), s\<lparr>fy_redis := fst (job_loop_from R job ws ?n)\<rparr>, snd (job_loop_from R job ws ?n))"
    using 3(1) [of "s\<lparr>fy_redis := fst ?n\<rparr>" "snd ?n"] 3(2) by simp
  then show ?case by (simp add: answered_run_job [OF 3(2)])
qed simp_all

lemma answered_job_loop:
  assumes "fy_replies s = []"
  shows "f_job_loop R (job_answering job) ws (s, w) =
    (Inr (), s\<lparr>fy_redis := fst (job_loop R job ws (fy_redis s, w))\<rparr>, snd (job_loop R job ws (fy_redis s, w)))"
  using assms by (simp add: f_job_loop_def job_loop_def answered_run_job answered_job_loop_from)
    (simp add: job_answering_def)

subsection \<open>What ends a job\<close>

text \<open>
  A job without a lock is never ended, whatever it raises: the heartbeat goes on after any failures. A job
  with a lock ends with a failing command of the lock, and with nothing else.
\<close>

lemma unlocked_job_survives:
  "\<not> jb_single_instance job \<Longrightarrow> fst (f_job_loop_from R job ws s) = Inr ()"
  by (induction R job ws s rule: f_job_loop_from.induct) (auto simp: f_run_job_def)

lemma unlocked_job_loop_survives:
  "\<not> jb_single_instance job \<Longrightarrow> fst (f_job_loop R job ws s) = Inr ()"
  by (simp add: f_job_loop_def f_run_job_def unlocked_job_survives)

lemma job_ends_by_lock:
  assumes "f_run_job R job s = (Inl e, s')"
  shows "jb_single_instance job \<and>
    ((\<exists>r. f_acquire_lock R (jb_name job) (jb_lock_ttl job) (fst s) = (Inl e, r)) \<or>
     (\<exists>r. f_release_lock R (jb_name job) r = (Inl e, fst s')))"
  using assms by (auto simp: f_run_job_def split: if_splits prod.splits sum.splits bool.splits)

text \<open>
  One refused command of the lock: the job never runs again, however often its loop would wake up. The
  relay of the outbox is such a job, and it takes the lock as soon as the worker starts.
\<close>

theorem failed_lock_ends_job:
  assumes "jb_single_instance job" "\<not> jb_run_on_start job" "fy_replies s = Refused e # rs"
  shows "f_job_loop R job (TimedOut # ws) (s, w) = (Inl e, s\<lparr>fy_replies := rs\<rparr>, w)"
  using assms by (cases s) (simp add: f_job_loop_def f_run_job_def f_acquire_lock_def sent_script)

theorem failed_lock_ends_relay:
  assumes "register_jobs c is_valid hb relay clean [] = Inr jobs" "job \<in> set jobs" "jb_name job = ''outbox_relay''"
    and "fy_replies s = Refused e # rs"
  shows "f_job_loop R job ws (s, w) = (Inl e, s\<lparr>fy_replies := rs\<rparr>, w)"
proof -
  from assms(1-3) have "jb_single_instance job" "jb_run_on_start job"
    by (auto simp: register_jobs_def scheduler_add_def scheduler_add_cron_def Let_def split: if_splits)
  with assms(4) show ?thesis
    by (cases s) (simp add: f_job_loop_def f_run_job_def f_acquire_lock_def sent_script)
qed

text \<open>
  A refused release ends the job after its run and leaves the lock: the other workers skip the job until
  the lock has expired.
\<close>

lemma failed_release_keeps_lock:
  assumes "redis_service R" "0 < jb_lock_ttl job" "jb_single_instance job"
    and "kv R (fy_redis s) (lock_key (jb_name job)) = None" "fy_replies s = [Answers, Refused e]"
    and keeps: "\<And>s w. fy_replies (fst (snd (jb_func job (s, w)))) = fy_replies s \<and>
      kv R (fy_redis (fst (snd (jb_func job (s, w))))) (lock_key (jb_name job)) = kv R (fy_redis s) (lock_key (jb_name job))"
  shows "\<exists>s' w'. f_job_loop_from R job (TimedOut # ws) (s, w) = (Inl e, s', w') \<and>
    fst (acquire_lock R (jb_name job) (jb_lock_ttl job) (fy_redis s')) = False"
proof -
  let ?k = "lock_key (jb_name job)"
  note nx = redis_service.set_nx_absent [OF assms(1,2,4), of "''1''"]
  obtain r where r: "acquire_lock R (jb_name job) (jb_lock_ttl job) (fy_redis s) = (True, r)"
      "kv R r ?k = Some (RStr ''1'', Some (jb_lock_ttl job))"
    using nx by (cases "acquire_lock R (jb_name job) (jb_lock_ttl job) (fy_redis s)") (simp add: acquire_lock_def)
  let ?s1 = "\<lparr>fy_redis = r, fy_replies = [Refused e]\<rparr>"
  obtain x s2 w2 where f: "jb_func job (?s1, w) = (x, s2, w2)" by (metis prod.exhaust)
  from keeps [of ?s1 w] f r(2) have s2: "fy_replies s2 = [Refused e]"
      "kv R (fy_redis s2) ?k = Some (RStr ''1'', Some (jb_lock_ttl job))" by simp_all
  have acq: "f_acquire_lock R (jb_name job) (jb_lock_ttl job) s = (Inr True, ?s1)"
    using assms(5) r(1) by (cases s) (simp add: f_acquire_lock_def sent_script)
  have rel: "f_release_lock R (jb_name job) s2 = (Inl e, \<lparr>fy_redis = fy_redis s2, fy_replies = []\<rparr>)"
    using s2(1) by (cases s2) (simp add: f_release_lock_def sent_script)
  show ?thesis
  proof (intro exI conjI)
    show "f_job_loop_from R job (TimedOut # ws) (s, w) = (Inl e, \<lparr>fy_redis = fy_redis s2, fy_replies = []\<rparr>, w2)"
      using assms(3) by (simp add: f_run_job_def acq f rel)
    show "fst (acquire_lock R (jb_name job) (jb_lock_ttl job) (fy_redis \<lparr>fy_redis = fy_redis s2, fy_replies = []\<rparr>)) = False"
      using redis_service.set_nx_present [OF assms(1,2) s2(2), of "''1''"] by (simp add: acquire_lock_def)
  qed
qed

text \<open>The heartbeat has no lock: it comes back with Redis, while the relay does not.\<close>

lemma heartbeat_survives:
  assumes "register_jobs c is_valid (f_heartbeat R now_text) relay clean [] = Inr jobs" "job \<in> set jobs"
    and "jb_name job = ''heartbeat''"
  shows "fst (f_job_loop R job ws s) = Inr ()"
proof (rule unlocked_job_loop_survives)
  show "\<not> jb_single_instance job" using assms
    by (auto simp: register_jobs_def scheduler_add_def scheduler_add_cron_def Let_def split: if_splits)
qed

end
