(* ===== verification/Limiter_Faults.thy ===== *)
theory Limiter_Faults
  imports Redis_Faults Middleware
begin

section \<open>The middleware stack when Redis fails\<close>

text \<open>
  The limiter of \<^verbatim>\<open>middleware/rate_limit.py\<close> once more, with its script sent to the Redis of Redis_Faults.
  Nothing in the layer handles a failure: it is answered as what no handler foresees, and the request does
  not reach the application. The exempt paths send no command.
\<close>

definition f_check :: "'r redis \<Rightarrow> tier list \<Rightarrow> string \<Rightarrow> 'r faulty \<Rightarrow> (exn + rate_limit_result) \<times> 'r faulty" where
  "f_check R tiers identity = sent (check R tiers identity)"

definition f_RateLimitMiddleware ::
  "'r redis \<Rightarrow> (string \<Rightarrow> string) \<Rightarrow> settings \<Rightarrow> ('r faulty, 'w, 'b) asgi \<Rightarrow> ('r faulty, 'w, 'b) asgi" where
  "f_RateLimitMiddleware R sha256 c app sc rid s =
     (if hs_type sc \<noteq> ''http'' \<or> \<not> rate_limit_enabled c then app sc rid s
      else if is_exempt c sc then app sc rid s
      else (case f_check R (tiers_from_settings c) (identity_of sha256 c sc) (fst s) of
        (Inl e, r) \<Rightarrow> (Inl e, r, snd s)
      | (Inr result, r) \<Rightarrow> if \<not> rl_allowed result then (Inr (too_many rid result), r, snd s) else app sc rid (r, snd s)))"

definition f_create_app ::
  "'r redis \<Rightarrow> (string \<Rightarrow> string) \<Rightarrow> settings \<Rightarrow> string \<Rightarrow> (('r faulty, 'w, 'b) asgi \<Rightarrow> ('r faulty, 'w, 'b) asgi) \<Rightarrow>
   ('r faulty, 'w, 'b) asgi \<Rightarrow> ('r faulty, 'w, 'b) asgi" where
  "f_create_app R sha256 c new_id cors app =
     ServerErrorMiddleware (SecurityHeadersMiddleware (RequestContextMiddleware new_id (ApiKeyMiddleware c
       (f_RateLimitMiddleware R sha256 c (cors (ExceptionMiddleware app))))))"

text \<open>An application on a Redis that answers, run on one that may not but does; the limiter is then the one of Middleware.\<close>

definition on_faulty :: "('r, 'w, 'b) asgi \<Rightarrow> ('r faulty, 'w, 'b) asgi" where
  "on_faulty app sc rid s = (case app sc rid (fy_redis (fst s), snd s) of (x, r, w) \<Rightarrow> (x, (fst s)\<lparr>fy_redis := r\<rparr>, w))"

lemma answered_limiter:
  assumes "fy_replies s = []"
  shows "f_RateLimitMiddleware R sha256 c (on_faulty app) sc rid (s, w) =
    on_faulty (RateLimitMiddleware R sha256 c app) sc rid (s, w)"
  using assms
  by (auto simp: f_RateLimitMiddleware_def RateLimitMiddleware_def on_faulty_def f_check_def sent_answered split: prod.split)

text \<open>
  A failing script: the client gets a bare 500, whoever it is and whatever it asks for; the state of the
  program is as it was. A lost answer has counted the request all the same.
\<close>

lemma failed_limiter_refuses_all:
  assumes "hs_type sc = ''http''" "\<not> global_api_key_enabled c" "rate_limit_enabled c" "\<not> is_exempt c sc"
    and "utf8_ok (map byte (last_header sc ''x-request-id''))" "utf8_ok (map byte (last_header sc ''x-trace-id''))"
    and "fy_replies s = Refused e # rs \<or> fy_replies s = Lost e # rs"
  shows "\<exists>s'. f_create_app R sha256 c new_id cors app sc None (s, w) =
      (Inr \<lparr>hr_status = 500, hr_headers = [], hr_body = ErrorBody (error_resp None ''Internal server error'' INTERNAL None)\<rparr>, s', w) \<and>
    fy_redis s' = (if fy_replies s = Refused e # rs then fy_redis s
      else snd (check R (tiers_from_settings c) (identity_of sha256 c sc) (fy_redis s)))"
proof -
  have "\<exists>s'. f_RateLimitMiddleware R sha256 c (cors (ExceptionMiddleware app)) sc (Some (request_id_of new_id sc)) (s, w) = (Inl e, s', w) \<and>
    fy_redis s' = (if fy_replies s = Refused e # rs then fy_redis s
      else snd (check R (tiers_from_settings c) (identity_of sha256 c sc) (fy_redis s)))"
    using assms(1,3,4,7) by (cases s) (auto simp: f_RateLimitMiddleware_def f_check_def sent_script)
  then show ?thesis using assms(1,2,5,6)
    by (auto simp: f_create_app_def ServerErrorMiddleware_def SecurityHeadersMiddleware_def RequestContextMiddleware_def
        ApiKeyMiddleware_def decoded_def Let_def rendered_def handler_defs)
qed

text \<open>The probes of the orchestrator and the documentation do not depend on Redis here.\<close>

lemma exempt_sends_nothing:
  assumes "is_exempt c sc"
  shows "f_RateLimitMiddleware R sha256 c app sc rid s = app sc rid s"
  using assms by (simp add: f_RateLimitMiddleware_def)

end
