(* ===== verification/Cache_Aside.thy ===== *)
theory Cache_Aside
  imports App_Safety
begin

section \<open>Cached reads among concurrent writes\<close>

text \<open>
  \<^verbatim>\<open>UserService.get\<close> reads the cache, then the database, then writes the cache, with an \<^verbatim>\<open>await\<close> between
  each; the writes commit and then drop the cached copy (\<^verbatim>\<open>create\<close>: put one). In App_State each of them runs
  alone. Here any number of them are interleaved, one rule for each stretch between two awaits. The
  past contents of the database are kept as a ghost (\<open>as_past\<close>).
\<close>

datatype aside_phase =
    Resting
  | Missed uuid
  | Holding user_read_detail
  | Answered user_read_detail
  | NotFound
  | Dropping uuid

record 's aside =
  as_db :: db
  as_cache :: 's
  as_phase :: "nat \<Rightarrow> aside_phase"
  as_past :: "db list"

definition seen :: "'s aside \<Rightarrow> db set" where
  "seen s = insert (as_db s) (set (as_past s))"

definition commits :: "db \<Rightarrow> 's aside \<Rightarrow> 's aside" where
  "commits d s = s\<lparr>as_db := d, as_past := as_db s # as_past s\<rparr>"

definition at_phase :: "nat \<Rightarrow> aside_phase \<Rightarrow> 's aside \<Rightarrow> 's aside" where
  "at_phase i p s = s\<lparr>as_phase := (as_phase s)(i := p)\<rparr>"

text \<open>
  A reader: the hit, the miss, the load of the user from the database (\<open>Holding\<close> is a form that will be put
  into the cache), the put. A writer: its commit, then the drop or the put. \<open>expire\<close> is the end of an entry.
\<close>

inductive aside_step ::
  "('s, 'v) cache \<Rightarrow> ('s \<Rightarrow> string \<Rightarrow> 'v option) \<Rightarrow> ('s \<Rightarrow> bool) \<Rightarrow> (user_read_detail \<Rightarrow> 'v) \<Rightarrow>
   ('v \<Rightarrow> exn + user_read_detail) \<Rightarrow> 's aside \<Rightarrow> 's aside \<Rightarrow> bool"
  for Ch view wfc dump undump where
  hit: "as_phase s i = Resting \<Longrightarrow> ca_get Ch (user_cache_key uid) (as_cache s) = Inr (Some x) \<Longrightarrow> undump x = Inr dto \<Longrightarrow>
    aside_step Ch view wfc dump undump s (at_phase i (Answered dto) s)"
| miss: "as_phase s i = Resting \<Longrightarrow> ca_get Ch (user_cache_key uid) (as_cache s) = Inr None \<Longrightarrow>
    aside_step Ch view wfc dump undump s (at_phase i (Missed uid) s)"
| load: "as_phase s i = Missed uid \<Longrightarrow>
    aside_step Ch view wfc dump undump s (at_phase i
      (case db_user_detail (as_db s) uid of None \<Rightarrow> NotFound | Some dto \<Rightarrow> Holding dto) s)"
| put: "as_phase s i = Holding dto \<Longrightarrow>
    aside_step Ch view wfc dump undump s (at_phase i (Answered dto)
      (s\<lparr>as_cache := ca_set Ch (user_cache_key (ur_id dto)) (dump dto) (Some CACHE_TTL) (as_cache s)\<rparr>))"
| commit_put: "as_phase s i = Resting \<Longrightarrow> db_user_detail d uid = Some dto \<Longrightarrow>
    aside_step Ch view wfc dump undump s (at_phase i (Holding dto) (commits d s))"
| commit_drop: "as_phase s i = Resting \<Longrightarrow>
    aside_step Ch view wfc dump undump s (at_phase i (Dropping uid) (commits d s))"
| drop: "as_phase s i = Dropping uid \<Longrightarrow>
    aside_step Ch view wfc dump undump s (at_phase i Resting
      (s\<lparr>as_cache := snd (ca_delete Ch [user_cache_key uid] (as_cache s))\<rparr>))"
| next_request: "as_phase s i \<in> {Answered dto, NotFound} \<Longrightarrow>
    aside_step Ch view wfc dump undump s (at_phase i Resting s)"
| expire: "wfc c \<Longrightarrow> (\<forall>uid. view c (user_cache_key uid) \<in> {None, view (as_cache s) (user_cache_key uid)}) \<Longrightarrow>
    aside_step Ch view wfc dump undump s (s\<lparr>as_cache := c\<rparr>)"

abbreviation aside_run where
  "aside_run Ch view wfc dump undump \<equiv> (aside_step Ch view wfc dump undump)\<^sup>*\<^sup>*"

definition aside_start :: "('s \<Rightarrow> string \<Rightarrow> 'v option) \<Rightarrow> ('s \<Rightarrow> bool) \<Rightarrow> 's aside \<Rightarrow> bool" where
  "aside_start view wfc s \<longleftrightarrow> wfc (as_cache s) \<and> (\<forall>uid. view (as_cache s) (user_cache_key uid) = None) \<and>
     (\<forall>i. as_phase s i = Resting)"

lemma aside_sel [simp]:
  "as_db (at_phase i p s) = as_db s" "as_cache (at_phase i p s) = as_cache s" "seen (at_phase i p s) = seen s"
  "as_phase (at_phase i p s) = (as_phase s)(i := p)" "as_cache (commits d s) = as_cache s" "as_db (commits d s) = d"
  "as_phase (commits d s) = as_phase s" "seen (commits d s) = insert d (seen s)" "seen (s\<lparr>as_cache := c\<rparr>) = seen s"
  by (auto simp: at_phase_def commits_def seen_def)

subsection \<open>What is in the cache was in the database\<close>

definition was :: "'s aside \<Rightarrow> uuid \<Rightarrow> user_read_detail \<Rightarrow> bool" where
  "was s uid dto \<longleftrightarrow> (\<exists>d \<in> seen s. db_user_detail d uid = Some dto)"

definition holding_ok :: "'s aside \<Rightarrow> aside_phase \<Rightarrow> bool" where
  "holding_ok s p \<longleftrightarrow> (\<forall>dto. p \<in> {Holding dto, Answered dto} \<longrightarrow> was s (ur_id dto) dto)"

definition aside_inv :: "('s \<Rightarrow> string \<Rightarrow> 'v option) \<Rightarrow> ('s \<Rightarrow> bool) \<Rightarrow> (user_read_detail \<Rightarrow> 'v) \<Rightarrow> 's aside \<Rightarrow> bool" where
  "aside_inv view wfc dump s \<longleftrightarrow> wfc (as_cache s) \<and> (\<forall>i. holding_ok s (as_phase s i)) \<and>
     (\<forall>uid x. view (as_cache s) (user_cache_key uid) = Some x \<longrightarrow> (\<exists>dto. was s uid dto \<and> x = dump dto))"

lemma detail_id: "db_user_detail d uid = Some dto \<Longrightarrow> ur_id dto = uid"
  by (auto simp: db_user_detail_def user_detail_def detail_of_def dest: row_get_Some)

lemma was_id: "was s uid dto \<Longrightarrow> ur_id dto = uid"
  by (auto simp: was_def dest: detail_id)

lemma was_mono: "seen s \<subseteq> seen s' \<Longrightarrow> was s uid dto \<Longrightarrow> was s' uid dto"
  by (auto simp: was_def)

lemma holding_ok_mono: "seen s \<subseteq> seen s' \<Longrightarrow> holding_ok s p \<Longrightarrow> holding_ok s' p"
  unfolding holding_ok_def using was_mono by blast

context user_cache
begin

lemma aside_inv_phase:
  assumes "aside_inv view wf dump s" "seen s \<subseteq> seen s'" "as_cache s' = as_cache s"
    and "as_phase s' = (as_phase s)(i := p)" "holding_ok s' p"
  shows "aside_inv view wf dump s'"
  unfolding aside_inv_def
proof (intro conjI allI impI)
  show "holding_ok s' (as_phase s' j)" for j
    using assms(1,4,5) holding_ok_mono [OF assms(2)] by (auto simp: aside_inv_def)
  fix uid x assume "view (as_cache s') (user_cache_key uid) = Some x"
  then obtain dto where "was s uid dto" "x = dump dto" using assms(1,3) unfolding aside_inv_def by metis
  then show "\<exists>dto. was s' uid dto \<and> x = dump dto" using was_mono [OF assms(2)] by blast
qed (use assms in \<open>simp add: aside_inv_def\<close>)

lemma aside_inv_cache:
  assumes "aside_inv view wf dump s" "wf c"
    and "\<And>uid x. view c (user_cache_key uid) = Some x \<Longrightarrow>
      view (as_cache s) (user_cache_key uid) = Some x \<or> (\<exists>dto. was s uid dto \<and> x = dump dto)"
  shows "aside_inv view wf dump (s\<lparr>as_cache := c\<rparr>)"
proof -
  have w: "was (s\<lparr>as_cache := c\<rparr>) = was s" "holding_ok (s\<lparr>as_cache := c\<rparr>) = holding_ok s"
    by (simp_all add: was_def holding_ok_def fun_eq_iff)
  show ?thesis using assms unfolding aside_inv_def w by simp blast
qed

lemma aside_inv_step:
  assumes "aside_step Ch view wf dump undump s s'" "aside_inv view wf dump s"
  shows "aside_inv view wf dump s'"
  using assms
proof (induction rule: aside_step.induct)
  case (hit s i uid x dto)
  then have "view (as_cache s) (user_cache_key uid) = Some x" by (simp add: aside_inv_def get_view)
  then obtain a where "was s uid a" "x = dump a" using hit(4) unfolding aside_inv_def by blast
  moreover have "a = dto" using hit(3) \<open>x = dump a\<close> by (simp add: undump_dump)
  ultimately have "holding_ok (at_phase i (Answered dto) s) (Answered dto)"
    by (auto simp: holding_ok_def was_def dest: detail_id)
  then show ?case by (intro aside_inv_phase [OF hit(4)]) simp_all
next
  case (miss s i uid)
  show ?case by (rule aside_inv_phase [OF miss(3)]) (auto simp: holding_ok_def)
next
  case (load s i uid)
  have "holding_ok s (case db_user_detail (as_db s) uid of None \<Rightarrow> NotFound | Some dto \<Rightarrow> Holding dto)"
    by (auto simp: holding_ok_def was_def seen_def dest: detail_id split: option.splits)
  then show ?case by (intro aside_inv_phase [OF load(2)]) (auto intro: holding_ok_mono [of s])
next
  case (put s i dto)
  then have was: "was s (ur_id dto) dto" unfolding aside_inv_def holding_ok_def by blast
  let ?s = "s\<lparr>as_cache := ca_set Ch (user_cache_key (ur_id dto)) (dump dto) (Some CACHE_TTL) (as_cache s)\<rparr>"
  have "wf (as_cache s)" using put(2) by (simp add: aside_inv_def)
  then have inv: "aside_inv view wf dump ?s"
    by (intro aside_inv_cache [OF put(2)]) (use was in \<open>auto simp: set_wf set_view split: if_splits\<close>)
  have "holding_ok ?s (Answered dto)" using was by (simp add: holding_ok_def was_def)
  then show ?case by (intro aside_inv_phase [OF inv]) (auto intro: holding_ok_mono [of ?s])
next
  case (commit_put s i d uid dto)
  have "holding_ok (at_phase i (Holding dto) (commits d s)) (Holding dto)"
    using commit_put(2) by (auto simp: holding_ok_def was_def dest: detail_id)
  then show ?case by (intro aside_inv_phase [OF commit_put(3)]) auto
next
  case (commit_drop s i uid d)
  show ?case by (rule aside_inv_phase [OF commit_drop(2)]) (auto simp: holding_ok_def)
next
  case (drop s i uid)
  have "wf (as_cache s)" using drop(2) by (simp add: aside_inv_def)
  then have "aside_inv view wf dump (s\<lparr>as_cache := snd (ca_delete Ch [user_cache_key uid] (as_cache s))\<rparr>)"
    by (intro aside_inv_cache [OF drop(2)]) (auto simp: delete_wf delete_view split: if_splits)
  then show ?case by (rule aside_inv_phase) (auto simp: holding_ok_def)
next
  case (next_request s i dto)
  show ?case by (rule aside_inv_phase [OF next_request(2)]) (auto simp: holding_ok_def)
next
  case (expire c s)
  then show ?case by (intro aside_inv_cache) (auto, metis option.distinct(1))
qed

lemma aside_inv_run: "aside_run Ch view wf dump undump s s' \<Longrightarrow> aside_inv view wf dump s \<Longrightarrow> aside_inv view wf dump s'"
  by (induction rule: rtranclp_induct) (auto intro: aside_inv_step)

lemma aside_inv_start: "aside_start view wf s \<Longrightarrow> aside_inv view wf dump s"
  by (simp add: aside_start_def aside_inv_def holding_ok_def)

end

subsection \<open>The operations are runs of the steps\<close>

definition aside_of :: "'s svc \<Rightarrow> (nat \<Rightarrow> aside_phase) \<Rightarrow> db list \<Rightarrow> 's aside" where
  "aside_of v ph past = \<lparr>as_db = sv_db v, as_cache = sv_redis v, as_phase = ph, as_past = past\<rparr>"

lemma aside_of_sel [simp]: "as_db (aside_of v ph past) = sv_db v" "as_cache (aside_of v ph past) = sv_redis v"
  "as_phase (aside_of v ph past) = ph"
  by (simp_all add: aside_of_def)

lemma get_user_is_run:
  assumes "sv_idle v" "get_user E Ch dump undump uid v = (Inr dto, v')" "ph i = Resting"
  shows "aside_run Ch view wfc dump undump (aside_of v ph past) (aside_of v' (ph(i := Answered dto)) past)"
proof (cases "ca_get Ch (user_cache_key uid) (sv_redis v)")
  case (Inl e)
  with assms(2) show ?thesis by (simp add: get_user_def)
next
  case (Inr hit)
  show ?thesis
  proof (cases hit)
    case (Some x)
    with assms(2) Inr have "undump x = Inr dto" "v' = v" by (simp_all add: get_user_def)
    with Inr Some assms(3) show ?thesis
      using aside_step.hit [of "aside_of v ph past" i Ch uid x undump dto view wfc dump]
      by (simp add: at_phase_def aside_of_def r_into_rtranclp)
  next
    case None
    have at: "atomic (get_tx E uid)" by (rule uncommitted_atomic) (rule keeps)
    have run: "in_tx (get_tx E uid) (\<lambda>user v. case user of None \<Rightarrow> (Inl (NotFoundError ''User not found''), v)
        | Some dto \<Rightarrow> (Inr dto, cache_put Ch dump dto v)) v = (Inr dto, v')"
      using assms(2) Inr None by (simp add: get_user_def)
    obtain x u where t: "get_tx E uid (opened (sv_db v)) = (Inr x, u)"
      and f: "(case x of None \<Rightarrow> (Inl (NotFoundError ''User not found''), v\<lparr>sv_uow := idle (committed u)\<rparr>)
        | Some dto \<Rightarrow> (Inr dto, cache_put Ch dump dto (v\<lparr>sv_uow := idle (committed u)\<rparr>))) = (Inr dto, v')"
      by (rule in_tx_elim [OF run assms(1) at]) auto
    from get_tx_runs [OF t] f have load: "db_user_detail (sv_db v) uid = Some dto" "committed u = sv_db v"
      and v': "v' = cache_put Ch dump dto (v\<lparr>sv_uow := idle (sv_db v)\<rparr>)" by (auto split: option.splits)
    let ?s = "\<lambda>p. aside_of v (ph(i := p)) past"
    have s: "at_phase i p (aside_of v ph past) = ?s p" "at_phase i p (?s q) = ?s p" for p q
      by (simp_all add: at_phase_def aside_of_def)
    have "aside_step Ch view wfc dump undump (aside_of v ph past) (?s (Missed uid))"
      using aside_step.miss [of "aside_of v ph past" i Ch uid view wfc dump undump] assms(3) Inr None by (simp add: s)
    moreover have "aside_step Ch view wfc dump undump (?s (Missed uid)) (?s (Holding dto))"
      using aside_step.load [of "?s (Missed uid)" i uid Ch view wfc dump undump] by (simp add: s load)
    moreover have "aside_step Ch view wfc dump undump (?s (Holding dto)) (aside_of v' (ph(i := Answered dto)) past)"
      using aside_step.put [of "?s (Holding dto)" i dto Ch view wfc dump undump]
      by (simp add: v' cache_put_def at_phase_def aside_of_def sv_db_def idle_def)
    ultimately show ?thesis by (meson rtranclp.rtrancl_into_rtrancl rtranclp.rtrancl_refl)
  qed
qed

lemma drop_is_run:
  assumes "ph i = Resting"
  shows "aside_run Ch view wfc dump undump (aside_of v ph past)
    (aside_of (drop_cached Ch uid (v\<lparr>sv_uow := idle d\<rparr>)) ph (sv_db v # past))"
proof -
  let ?s = "aside_of (v\<lparr>sv_uow := idle d\<rparr>) (ph(i := Dropping uid)) (sv_db v # past)"
  have ph: "ph(i := Resting) = ph" using assms by auto
  have "aside_step Ch view wfc dump undump (aside_of v ph past) ?s"
    using aside_step.commit_drop [of "aside_of v ph past" i Ch view wfc dump undump uid d] assms
    by (simp add: at_phase_def commits_def aside_of_def sv_db_def idle_def)
  moreover have "aside_step Ch view wfc dump undump ?s (aside_of (drop_cached Ch uid (v\<lparr>sv_uow := idle d\<rparr>)) ph (sv_db v # past))"
    using aside_step.drop [of ?s i uid Ch view wfc dump undump] ph
    by (simp add: at_phase_def aside_of_def drop_cached_def sv_db_def)
  ultimately show ?thesis by (meson rtranclp.rtrancl_into_rtrancl rtranclp.rtrancl_refl)
qed

lemma in_tx_drop_is_run:
  assumes "in_tx m (\<lambda>x v. (Inr (f x), drop_cached Ch (g x) v)) v = (Inr y, v')" "sv_idle v" "atomic m" "ph i = Resting"
  shows "aside_run Ch view wfc dump undump (aside_of v ph past) (aside_of v' ph (sv_db v # past))"
proof (rule in_tx_elim [OF assms(1-3)], goal_cases)
  case (2 x u)
  then have "v' = drop_cached Ch (g x) (v\<lparr>sv_uow := idle (committed u)\<rparr>)" by simp
  then show ?case using drop_is_run [where ph = ph and i = i, OF assms(4)] by simp
qed simp

lemma writes_are_runs:
  assumes "sv_idle v" "ph i = Resting"
  shows "update_user E Ch now uid data v = (Inr x1, v') \<Longrightarrow>
      aside_run Ch view wfc dump undump (aside_of v ph past) (aside_of v' ph (sv_db v # past))"
    "upsert_profile E Ch new_id uid pdata v = (Inr x2, v') \<Longrightarrow>
      aside_run Ch view wfc dump undump (aside_of v ph past) (aside_of v' ph (sv_db v # past))"
    "create_account E Ch new_id uid name v = (Inr x3, v') \<Longrightarrow>
      aside_run Ch view wfc dump undump (aside_of v ph past) (aside_of v' ph (sv_db v # past))"
    "deposit E Ch new_id now aid amount acq cids v = (Inr x4, v') \<Longrightarrow>
      aside_run Ch view wfc dump undump (aside_of v ph past) (aside_of v' ph (sv_db v # past))"
    "withdraw E Ch new_id now aid amount acq v = (Inr x5, v') \<Longrightarrow>
      aside_run Ch view wfc dump undump (aside_of v ph past) (aside_of v' ph (sv_db v # past))"
    "delete_user E Ch None uid v = (Inr x6, v') \<Longrightarrow>
      aside_run Ch view wfc dump undump (aside_of v ph past) (aside_of v' ph (sv_db v # past))"
proof -
  note r = in_tx_drop_is_run [where ph = ph and i = i, OF _ assms(1) _ assms(2)]
  note one = r [where f = "\<lambda>x. x" and g = "\<lambda>_. uid"] and two = r [where f = fst and g = snd]
  let ?run = "aside_run Ch view wfc dump undump (aside_of v ph past) (aside_of v' ph (sv_db v # past))"
  show "update_user E Ch now uid data v = (Inr x1, v') \<Longrightarrow> ?run"
    by (rule one [where m = "update_tx E now uid data"]) (simp add: update_user_def, rule keeps)
  show "upsert_profile E Ch new_id uid pdata v = (Inr x2, v') \<Longrightarrow> ?run"
    by (rule one [where m = "upsert_profile_tx E new_id uid pdata"]) (simp add: upsert_profile_def, rule keeps)
  show "create_account E Ch new_id uid name v = (Inr x3, v') \<Longrightarrow> ?run"
    by (rule one [where m = "create_account_tx E new_id uid name"]) (simp add: create_account_def, rule keeps)
  show "deposit E Ch new_id now aid amount acq cids v = (Inr x4, v') \<Longrightarrow> ?run"
    by (rule two [where m = "deposit_tx E new_id now aid amount acq cids"]) (simp add: deposit_def case_prod_unfold, rule keeps)
  show "withdraw E Ch new_id now aid amount acq v = (Inr x5, v') \<Longrightarrow> ?run"
    by (rule two [where m = "withdraw_tx E new_id now aid amount acq"]) (simp add: withdraw_def case_prod_unfold, rule keeps)
  show "delete_user E Ch None uid v = (Inr x6, v') \<Longrightarrow> ?run"
    by (rule one [where m = "delete_tx E uid"]) (simp add: delete_user_def, rule keeps)
qed

lemma create_user_is_run:
  assumes "sv_idle v" "db_ok (sv_db v)" "create_user E Ch dump i ei now data v = (Inr dto, v')" "ph k = Resting"
  shows "aside_run Ch view wfc dump undump (aside_of v ph past)
    (aside_of v' (ph(k := Answered (detail_of dto [] None))) (sv_db v # past))"
proof (rule in_tx_elim [OF assms(3) [unfolded create_user_def] assms(1) atomic_ops(1)], goal_cases)
  case (2 x u)
  let ?u = "new_user i now (uc_email data) (uc_full_name data) None DEFAULT_ROLE"
  let ?det = "detail_of dto [] None"
  note c = create_tx_runs [OF 2(1)]
  have x: "x = dto" and v': "v' = cache_put Ch dump ?det (v\<lparr>sv_uow := idle (committed u)\<rparr>)" using 2(2) by auto
  obtain os where d: "committed u = (sv_db v)\<lparr>users := users (sv_db v) @ [?u], outbox_messages := os\<rparr>"
    using c by (auto simp: created_db_def Let_def)
  have "db_user_detail (committed u) (u_id ?u) = Some ?det"
  proof -
    have "db_ok (committed u)" "dto = user_read_of ?u" using c x by blast+
    then show ?thesis
      using detail_new_user [where d = "sv_db v" and u = ?u and os = os and uid = "u_id ?u", OF _ assms(2)]
      unfolding d by simp
  qed
  then have "aside_step Ch view wfc dump undump (aside_of v ph past)
      (aside_of (v\<lparr>sv_uow := idle (committed u)\<rparr>) (ph(k := Holding ?det)) (sv_db v # past))" (is "aside_step _ _ _ _ _ _ ?s")
    using aside_step.commit_put [of "aside_of v ph past" k "committed u" "u_id ?u" ?det Ch view wfc dump undump] assms(4)
    by (simp add: at_phase_def commits_def aside_of_def sv_db_def idle_def)
  moreover have "aside_step Ch view wfc dump undump ?s (aside_of v' (ph(k := Answered ?det)) (sv_db v # past))"
    using aside_step.put [of ?s k ?det Ch view wfc dump undump]
    by (simp add: v' at_phase_def aside_of_def cache_put_def sv_db_def)
  ultimately show ?case by (meson rtranclp.rtrancl_into_rtrancl rtranclp.rtrancl_refl)
qed simp

subsection \<open>Properties\<close>



text \<open>
  What does not hold: a reader that has loaded a user puts it into the cache although it was changed, or
  deleted, in the meantime and the writer has dropped the copy already. Nobody drops the old copy then: it is
  answered until it expires (\<^verbatim>\<open>CACHE_TTL\<close>).
\<close>

lemma stale_put_race:
  assumes "abstract_cache Ch is_user_key view wfc" "aside_start view wfc s"
    and "db_user_detail (as_db s) uid = Some dto" "(i :: nat) \<noteq> j"
  shows "\<exists>s'. aside_run Ch view wfc dump undump s s' \<and> as_db s' = d' \<and> (\<forall>k. as_phase s' k = Resting) \<and>
    view (as_cache s') (user_cache_key uid) = Some (dump dto)"
proof -
  note C = assms(1)
  have st: "wfc (as_cache s)" "view (as_cache s) (user_cache_key uid) = None" "as_phase s k = Resting" for k
    using assms(2) by (simp_all add: aside_start_def)
  have "ur_id dto = uid" by (rule detail_id [OF assms(3)])
  let ?step = "aside_step Ch view wfc dump undump" let ?k = "user_cache_key uid"
  let ?s1 = "at_phase i (Missed uid) s"
  let ?s2 = "at_phase i (Holding dto) ?s1"
  let ?s3 = "at_phase j (Dropping uid) (commits d' ?s2)"
  let ?s4 = "at_phase j Resting (?s3\<lparr>as_cache := snd (ca_delete Ch [?k] (as_cache ?s3))\<rparr>)"
  let ?s5 = "at_phase i (Answered dto) (?s4\<lparr>as_cache := ca_set Ch (user_cache_key (ur_id dto)) (dump dto) (Some CACHE_TTL) (as_cache ?s4)\<rparr>)"
  let ?s6 = "at_phase i Resting ?s5"
  have "?step s ?s1" by (rule aside_step.miss) (use st in \<open>simp_all add: abstract_cache.get_view [OF C]\<close>)
  moreover have "?step ?s1 ?s2" using aside_step.load [of ?s1 i uid Ch view wfc dump undump] assms(3) by simp
  moreover have "?step ?s2 ?s3" by (rule aside_step.commit_drop) (use st assms(4) in simp)
  moreover have "?step ?s3 ?s4" by (rule aside_step.drop) simp
  moreover have "?step ?s4 ?s5" by (rule aside_step.put) (use assms(4) in simp)
  moreover have "?step ?s5 ?s6" by (rule aside_step.next_request) simp
  ultimately have "aside_run Ch view wfc dump undump s ?s6" by (meson rtranclp.rtrancl_into_rtrancl rtranclp.rtrancl_refl)
  moreover have "as_db ?s6 = d'" "\<forall>k. as_phase ?s6 k = Resting"
    using st by (simp_all add: at_phase_def commits_def)
  moreover have "view (as_cache ?s6) ?k = Some (dump dto)"
    using st(1) \<open>ur_id dto = uid\<close> by (simp add: abstract_cache.set_view [OF C] abstract_cache.delete_wf [OF C])
  ultimately show ?thesis by blast
qed

end
