(* ===== verification/Migration_Env.thy ===== *)
theory Migration_Env
  imports Migrations Config
begin

section \<open>The environment of the migrations\<close>

text \<open>
  \<^verbatim>\<open>migrations/env.py\<close>: how Alembic is configured, offline (a script is written) and online (the revisions run
  on the database, in one transaction). What Alembic computes is a parameter: the statements of the
  revisions to run (\<open>plan\<close>, a piece of \<open>upgrades revisions\<close> or \<open>downgrades revisions\<close>). The URL of the settings passes
  through Alembic's configuration, which is a \<^verbatim>\<open>configparser\<close> with its interpolation of \<^verbatim>\<open>%\<close>.
\<close>

subsection \<open>The option \<open>sqlalchemy.url\<close>\<close>

text \<open>
  \<^verbatim>\<open>BasicInterpolation.before_set\<close>: without the pairs \<^verbatim>\<open>%%\<close> and the references \<^verbatim>\<open>%(name)s\<close> a value may not
  contain a percent sign.
\<close>

fun drop_pairs :: "string \<Rightarrow> string" where
  "drop_pairs (c # d # s) = (if c = CHR ''%'' \<and> d = CHR ''%'' then drop_pairs s else c # drop_pairs (d # s))"
| "drop_pairs s = s"

text \<open>After a percent sign: the name of a reference and what follows it (the pattern \<^verbatim>\<open>%\(([^)]+)\)s\<close>).\<close>

definition reference :: "string \<Rightarrow> (string \<times> string) option" where
  "reference s = (let name = takeWhile (\<lambda>x. x \<noteq> CHR '')'') (tl s); rest = dropWhile (\<lambda>x. x \<noteq> CHR '')'') (tl s)
     in if s \<noteq> [] \<and> hd s = CHR ''('' \<and> name \<noteq> [] \<and> startswith rest '')s'' then Some (name, drop 2 rest) else None)"

lemma reference_shorter: "reference s = Some (name, rest) \<Longrightarrow> length rest \<le> length s"
proof -
  have "length (dropWhile (\<lambda>x. x \<noteq> CHR '')'') (tl s)) \<le> length s"
    by (metis dual_order.trans length_dropWhile_le length_tl diff_le_self)
  then show "reference s = Some (name, rest) \<Longrightarrow> length rest \<le> length s"
    by (auto simp: reference_def Let_def split: if_splits)
qed

function drop_refs :: "string \<Rightarrow> string" where
  "drop_refs [] = []"
| "drop_refs (c # s) = (if c \<noteq> CHR ''%'' then c # drop_refs s
     else (case reference s of None \<Rightarrow> c # drop_refs s | Some (_, rest) \<Rightarrow> drop_refs rest))"
  by pat_completeness auto
termination by (relation "measure length") (auto dest: reference_shorter)

definition set_main_option :: "string \<Rightarrow> exn + string" where
  "set_main_option v = (if CHR ''%'' \<in> set (drop_refs (drop_pairs v))
     then Inl (ValueError ''invalid interpolation syntax'') else Inr v)"

text \<open>
  Reading it back (\<^verbatim>\<open>get_section\<close>): a pair is one percent sign; \<open>option\<close> gives the value of the option a reference
  names.
\<close>

function get_option :: "(string \<Rightarrow> exn + string) \<Rightarrow> string \<Rightarrow> exn + string" where
  "get_option option [] = Inr []"
| "get_option option (c # s) =
     (if c \<noteq> CHR ''%'' then map_sum id ((#) c) (get_option option s)
      else if s \<noteq> [] \<and> hd s = CHR ''%'' then map_sum id ((#) c) (get_option option (tl s))
      else (case reference s of
          None \<Rightarrow> Inl (OtherError ''InterpolationSyntaxError'' [])
        | Some (name, rest) \<Rightarrow> (case option name of
              Inl e \<Rightarrow> Inl e | Inr v \<Rightarrow> map_sum id (append v) (get_option option rest))))"
  by pat_completeness auto
termination by (relation "measure (\<lambda>(_, s). length s)") (auto dest: reference_shorter)

lemma no_percent:
  assumes "CHR ''%'' \<notin> set v"
  shows "drop_pairs v = v" "drop_refs v = v" "get_option opt v = Inr v"
proof -
  show "drop_pairs v = v" using assms by (induction v rule: drop_pairs.induct) auto
  show "drop_refs v = v" using assms by (induction v) auto
  show "get_option opt v = Inr v" using assms by (induction v) auto
qed

subsection \<open>The two modes\<close>

text \<open>\<^verbatim>\<open>context.configure\<close>: where to (a URL or an open connection to one) and the options.\<close>

datatype target = ToUrl string | OnConnection string

record configured =
  cf_target :: target
  cf_literal_binds :: bool
  cf_compare_type :: bool
  cf_compare_server_default :: bool

text \<open>What the environment does, in order; a connection is opened without a pool (\<^verbatim>\<open>NullPool\<close>).\<close>

datatype env_event =
    FileConfig string
  | Connect string
  | Configure configured
  | Script "ddl list"
  | Executed "ddl list"
  | Dispose

definition run_migrations_offline :: "settings \<Rightarrow> ddl list \<Rightarrow> env_event list" where
  "run_migrations_offline c plan =
     [Configure \<lparr>cf_target = ToUrl (database_url c), cf_literal_binds = True, cf_compare_type = True,
        cf_compare_server_default = False\<rparr>, Script plan]"

text \<open>The transaction around the revisions: they all take effect or none does.\<close>

definition do_run_migrations ::
  "string set \<Rightarrow> ddl list \<Rightarrow> string \<Rightarrow> db_schema \<Rightarrow> (exn + unit) \<times> db_schema \<times> env_event list" where
  "do_run_migrations populated plan url s =
     (let conf = Configure \<lparr>cf_target = OnConnection url, cf_literal_binds = False, cf_compare_type = True,
            cf_compare_server_default = True\<rparr>
      in case exec_all populated plan s of
           None \<Rightarrow> (Inl (OtherError ''DBAPIError'' []), s, [conf])
         | Some s' \<Rightarrow> (Inr (), s', [conf, Executed plan]))"

definition run_migrations_online ::
  "(string \<Rightarrow> exn + string) \<Rightarrow> string set \<Rightarrow> ddl list \<Rightarrow> string \<Rightarrow> db_schema \<Rightarrow>
   (exn + unit) \<times> db_schema \<times> env_event list" where
  "run_migrations_online option populated plan raw s =
     (case get_option option raw of
        Inl e \<Rightarrow> (Inl e, s, [])
      | Inr url \<Rightarrow> (case do_run_migrations populated plan url s of
            (Inl e, s, ev) \<Rightarrow> (Inl e, s, Connect url # ev)
          | (Inr _, s, ev) \<Rightarrow> (Inr (), s, Connect url # ev @ [Dispose])))"

text \<open>The module, as Alembic loads it.\<close>

definition env ::
  "settings \<Rightarrow> string option \<Rightarrow> (string \<Rightarrow> exn + string) \<Rightarrow> bool \<Rightarrow> string set \<Rightarrow> ddl list \<Rightarrow> db_schema \<Rightarrow>
   (exn + unit) \<times> db_schema \<times> env_event list" where
  "env c config_file option is_offline populated plan s =
     (let ev = (case config_file of None \<Rightarrow> [] | Some f \<Rightarrow> [FileConfig f])
      in case set_main_option (database_url c) of
           Inl e \<Rightarrow> (Inl e, s, ev)
         | Inr raw \<Rightarrow>
             if is_offline then (Inr (), s, ev @ run_migrations_offline c plan)
             else (case run_migrations_online option populated plan raw s of (r, s', ev') \<Rightarrow> (r, s', ev @ ev')))"

subsection \<open>What it guarantees\<close>

lemma env_offline_touches_nothing: "env c f opt True pop plan s = (r, s', ev) \<Longrightarrow> s' = s"
  by (auto simp: env_def Let_def split: sum.splits)

text \<open>All or nothing: a run that fails leaves the schema as it was, one that succeeds has executed the plan.\<close>

lemma env_online_atomic:
  assumes "env c f opt False pop plan s = (r, s', ev)"
  shows "case r of Inl _ \<Rightarrow> s' = s | Inr _ \<Rightarrow> exec_all pop plan s = Some s'"
  using assms
  by (auto simp: env_def run_migrations_online_def do_run_migrations_def Let_def split: sum.splits option.splits prod.splits)

text \<open>When the settings' URL has no percent sign, the migrations run where the application connects.\<close>

lemma env_uses_settings_url:
  assumes "CHR ''%'' \<notin> set (database_url c)"
  shows "env c None opt False pop plan s =
    (case exec_all pop plan s of
       None \<Rightarrow> (Inl (OtherError ''DBAPIError'' []), s, [Connect (database_url c), Configure \<lparr>cf_target = OnConnection (database_url c),
         cf_literal_binds = False, cf_compare_type = True, cf_compare_server_default = True\<rparr>])
     | Some s' \<Rightarrow> (Inr (), s', [Connect (database_url c), Configure \<lparr>cf_target = OnConnection (database_url c),
         cf_literal_binds = False, cf_compare_type = True, cf_compare_server_default = True\<rparr>, Executed plan, Dispose]))"
  using assms
  by (simp add: env_def set_main_option_def run_migrations_online_def do_run_migrations_def no_percent Let_def
      split: option.split)

text \<open>From nothing to the models' schema, and the failing revision of a database with transactions.\<close>

lemma env_upgrades_to_models:
  assumes "CHR ''%'' \<notin> set (database_url c)" "''transactions'' \<notin> pop"
  shows "fst (snd (env c None opt False pop (upgrades revisions) empty_schema)) = metadata"
    and "fst (snd (env c None opt False (insert ''transactions'' pop) upgrade_0006
      \<lparr>sc_tables = tables_after 5, sc_extensions = X\<rparr>)) = \<lparr>sc_tables = tables_after 5, sc_extensions = X\<rparr>"
proof -
  have "exec_all pop (upgrades revisions) empty_schema = Some metadata"
    using upgrade_chain [OF assms(2), of 6] by (simp add: revisions_def tables_after_def metadata_def)
  then show "fst (snd (env c None opt False pop (upgrades revisions) empty_schema)) = metadata"
    by (simp add: env_uses_settings_url [OF assms(1)])
qed (simp add: env_uses_settings_url [OF assms(1)] add_acquirer_fails_on_data)

text \<open>
  A password with a percent sign: the option is refused, in both modes, or, when the sign is doubled, the
  migrations connect with another password than the application.
\<close>

lemma lone_percent:
  assumes "CHR ''%'' \<notin> set xs" "CHR ''%'' \<notin> set ys" "ys \<noteq> []" "hd ys \<noteq> CHR ''(''"
  shows "set_main_option (xs @ CHR ''%'' # ys) = Inl (ValueError ''invalid interpolation syntax'')"
proof -
  have "drop_pairs (CHR ''%'' # ys) = CHR ''%'' # ys"
    using assms(2) by (cases ys) (auto simp: no_percent)
  then have p: "drop_pairs (xs @ CHR ''%'' # ys) = xs @ CHR ''%'' # ys"
    using assms(1)
  proof (induction xs)
    case (Cons x xs)
    then show ?case by (cases xs) auto
  qed simp
  have "drop_refs (CHR ''%'' # ys) = CHR ''%'' # ys" using assms(2,4) by (simp add: reference_def no_percent)
  then have "drop_refs (xs @ CHR ''%'' # ys) = xs @ CHR ''%'' # ys" using assms(1) by (induction xs) auto
  then show ?thesis by (simp add: set_main_option_def p)
qed

lemma password_percent_fails:
  assumes "postgres_password c = pre @ CHR ''%'' # post" "CHR ''%'' \<notin> set (pre @ post)" "post \<noteq> []" "hd post \<noteq> CHR ''(''"
    and "CHR ''%'' \<notin> set (postgres_user c @ postgres_host c @ str_of_int (postgres_port c) @ postgres_db c)"
  shows "env c None opt offline pop plan s = (Inl (ValueError ''invalid interpolation syntax''), s, [])"
proof -
  have "database_url c = (''postgresql+asyncpg://'' @ postgres_user c @ '':'' @ pre) @ CHR ''%'' #
      (post @ ''@'' @ postgres_host c @ '':'' @ str_of_int (postgres_port c) @ ''/'' @ postgres_db c)"
    by (simp add: database_url_def assms(1))
  then have "set_main_option (database_url c) = Inl (ValueError ''invalid interpolation syntax'')"
    using lone_percent [of "''postgresql+asyncpg://'' @ postgres_user c @ '':'' @ pre"
        "post @ ''@'' @ postgres_host c @ '':'' @ str_of_int (postgres_port c) @ ''/'' @ postgres_db c"] assms(2-5)
    by (simp only:) simp
  then show ?thesis by (simp add: env_def)
qed

lemma password_percents_differ:
  "set_main_option ''p%%x'' = Inr ''p%%x'' \<and> get_option opt ''p%%x'' = Inr ''p%x''"
  by (simp add: set_main_option_def)

end
