(* ===== verification/Spec2Isabelle.thy ===== *)
theory Spec2Isabelle
  imports App_Safety Auth_Safety Idem_Concurrency Rate_Limit Listing Outbox_Delivery Consumers Messages Yookassa
    Middleware Scheduler Api_Errors Files Health Openapi Migrations
    Lifecycle Network_Brokers Logging Clients Row_Locks Row_Versions Redis_Faults Job_Faults Limiter_Faults Cache_Aside Migration_Env
begin

text \<open>
  A model of the FastAPI service template under \<^verbatim>\<open>src/app\<close> and \<^verbatim>\<open>src/migrations\<close>, with the theorems that
  make it correct. Names of files and functions below are those under \<^verbatim>\<open>src/\<close>; a definition keeps the name
  of the function it translates, with a suffix or prefix where HOL has the name already or where the
  same name occurs twice (\<^verbatim>\<open>UserService.get\<close> is \<open>get_user\<close>, its transaction \<open>get_tx\<close>, its route
  \<open>get_user_route\<close>).

  \<^bold>\<open>The program.\<close> A request passes the middleware (request context, security headers, API key, rate
  limit), then the dependencies of its route (caller, role, idempotency key, validation), then a
  service. A service runs one transaction of the unit of work over the repositories, then touches what
  lives in Redis: the cache, the sessions. Every exception becomes an error envelope. Events are rows of an
  outbox table written in the same transaction as the data; a relay in the scheduler's process reads
  them, publishes them to a broker and marks them; consumers handle them. Beside that stand the outgoing HTTP clients
  (messages, payments), the object storage, the health checks, the published API description, the migrations,
  and the life cycle of the web process and of the worker.

  \<^bold>\<open>Theories, in the order of their imports.\<close>
  \<^item> Prelude: shared types, Python's string functions, JSON, tables as lists of rows.
  \<^item> Errors: \<^verbatim>\<open>schemas/response.py\<close>, \<^verbatim>\<open>exceptions/\<close>. Config: \<^verbatim>\<open>core/config.py\<close>. Validation: the constraints of
    \<^verbatim>\<open>schemas/\<close>. Roles: \<^verbatim>\<open>security/roles.py\<close> (the preorder of the levels).
  \<^item> Redis: the commands the program sends, their laws (\<open>redis_service\<close>), and an instance, \<open>mem_redis\<close>.
  \<^item> Idempotency, Idem_Concurrency: \<^verbatim>\<open>idempotency/\<close>, one request after the other and interleaved.
  \<^item> Rate_Limit: \<^verbatim>\<open>ratelimit/limiter.py\<close>, the Lua script line by line.
  \<^item> Session_Store, Session_Safety: \<^verbatim>\<open>security/session_store.py\<close>. Jwt: \<^verbatim>\<open>security/jwt.py\<close>, \<^verbatim>\<open>password.py\<close>, \<^verbatim>\<open>cookies.py\<close>.
  \<^item> Database, Repositories: \<^verbatim>\<open>models/\<close>, \<^verbatim>\<open>db/uow.py\<close>, \<^verbatim>\<open>decorators/transaction.py\<close>, \<^verbatim>\<open>repositories/\<close>. Query,
    Listing: \<^verbatim>\<open>db/query.py\<close>, \<^verbatim>\<open>paginate\<close>, \<^verbatim>\<open>list_params\<close>.
  \<^item> Cache: \<^verbatim>\<open>cache/\<close>, \<^verbatim>\<open>decorators/cache.py\<close>. Services, User_Service, Account_Service, Auth_Service: \<^verbatim>\<open>services/\<close>
    and the caller's side of \<^verbatim>\<open>api/deps.py\<close>. Ledger, App_State, App_Safety, Auth_Safety: what their
    histories keep. Row_Locks, Row_Versions: their transactions overlapping. Cache_Aside: their cached reads
    overlapping. Redis_Faults: what they do when Redis fails.
  \<^item> Broker, Network_Brokers: \<^verbatim>\<open>broker/\<close>. Outbox, Outbox_Delivery: \<^verbatim>\<open>outbox/relay.py\<close>. Consumers: \<^verbatim>\<open>consumers/\<close>.
    Scheduler: \<^verbatim>\<open>scheduler/\<close>. Job_Faults: its lock when Redis fails.
  \<^item> Http_Client, Messages, Clients: \<^verbatim>\<open>decorators/retry.py\<close>, \<^verbatim>\<open>clients/\<close>, \<^verbatim>\<open>services/notification.py\<close>. Acquiring,
    Yookassa: \<^verbatim>\<open>acquiring/\<close>.
  \<^item> Middleware: \<^verbatim>\<open>middleware/\<close>, \<^verbatim>\<open>main.py\<close>. Limiter_Faults: the stack when Redis
    fails. Api, Api_Safety, Api_Errors: \<^verbatim>\<open>api/\<close>. Storage, Files: \<^verbatim>\<open>storage/\<close>,
    \<^verbatim>\<open>api/v1/files.py\<close>. Health: \<^verbatim>\<open>api/v1/health.py\<close>. Openapi: \<^verbatim>\<open>core/openapi.py\<close>.
  \<^item> Migrations: \<^verbatim>\<open>migrations/versions/\<close>, \<^verbatim>\<open>db/ddl.py\<close>, the tables of \<^verbatim>\<open>models/\<close>. Migration_Env: \<^verbatim>\<open>migrations/env.py\<close>.
  \<^item> Lifecycle: \<^verbatim>\<open>core/lifespan.py\<close>, \<^verbatim>\<open>worker.py\<close>, the singletons and factories, \<^verbatim>\<open>db/session.py\<close>, the entry points.
    Logging: \<^verbatim>\<open>core/logging.py\<close>, \<^verbatim>\<open>decorators/logging.py\<close>.

  \<^bold>\<open>State.\<close> \<open>uow\<close> is a unit of work: the committed database, the session's copy of it, and which
  repositories were used. \<open>'s svc\<close> is what a service works on: the unit of work and Redis. An operation
  returns \<open>exn + 'a\<close> and the next state. Loops that wait (retries, scheduled jobs) return their delays or
  run over the list of what happens while they wait; no definition has fuel. What runs concurrently is an
  inductive relation with one rule for each stretch between two awaits: \<open>idem_step\<close>, \<open>outbox_step\<close>,
  \<open>lock_step\<close>, \<open>sess_step\<close>, \<open>move_step\<close>, \<open>edit_step\<close>, \<open>aside_step\<close>; \<open>app_step\<close> interleaves whole operations. \<open>refresh\<close> is two halves, between which
  others run.

  \<^bold>\<open>Parameters.\<close> What is not in the repository is an argument, and what the code relies on is the
  assumption of a locale that stands in the theorems by name: \<open>redis_service\<close> (Redis), \<open>json_codec\<close> (orjson),
  \<open>jwt_service\<close> (PyJWT), \<open>password_hasher\<close> (argon2), \<open>s3_service\<close> (S3), \<open>amqp_server\<close> (RabbitMQ). Each has an
  interpretation on a concrete instance, on which the witnesses run. The interfaces of the program itself are
  locales too, interpreted on the program's implementation: \<open>abstract_cache\<close>, \<open>user_cache\<close>, \<open>event_sink\<close>,
  \<open>abstract_storage\<close>, \<open>abstract_acquirer\<close>. The database may fail any statement (\<open>engine\<close>); Redis is taken to answer
  every command, except in Redis_Faults, Job_Faults and Limiter_Faults, where a script says what becomes of each. httpx, the YooKassa SDK, croniter and Kafka's client are functions without laws. Fresh
  identifiers, salts and the clock are arguments.

  \<^bold>\<open>What is shown.\<close>
  \<^item> Money: balances are sums of transactions and never negative in every history; a withdrawal on each
    branch; a deposit with an idempotency key is booked once; a refused request changes nothing.
  \<^item> Access: login, rotation of refresh tokens, detection of reuse, log-out; who may delete a user, and
    that nothing of the user is left.
  \<^item> Events: none is lost, whatever interleaves or crashes; all are published in the end, in order; both
    brokers give a group the same messages; a user created at \<^verbatim>\<open>/users\<close> is counted.
  \<^item> The rest: rate limits, locks of jobs, pages, filters, retries, refunds, files, readiness, the published
    schema against the gate, the migrations against the models, the closing of everything opened.
  Where the code does not keep a promise the lemma says how: the theorems whose names end in
  \<open>race\<close>, \<open>leaks\<close>, \<open>sentinel\<close>, \<open>poison\<close>, \<open>clash\<close>, \<open>fails_on_data\<close>, \<open>leaves_copy\<close>, \<open>is_500\<close>, \<open>is_bare\<close>, \<open>by_gate\<close>,
  \<open>percent_fails\<close>, \<open>body_raises\<close>, \<open>takes_role\<close>, \<open>keeps_sessions\<close>, \<open>payment_captured\<close>, \<open>first_id\<close>,
  \<open>emits_no_event\<close>, those that begin with \<open>failed_\<close>, \<open>refresh_fault_ends_session\<close> and \<open>rotate_revives_revoked_session\<close>.

  \<^bold>\<open>Bounds.\<close> Balances and amounts are integers; the columns' range of 64 bits is a constraint of the flush.
  \<^verbatim>\<open>Decimal\<close> and \<^verbatim>\<open>float\<close> are rationals. Characters have 8 bits, so patterns with classes of Unicode
  digits are modelled on ASCII. A transaction of a service runs alone, except in Row_Locks and Row_Versions, where
  deposits and withdrawals overlap under the row lock and updates of a user under its version, with PostgreSQL's
  documented \<^verbatim>\<open>READ COMMITTED\<close>; there the first is shown to be no different from running alone.

  \<^bold>\<open>Not modelled.\<close> The package files (no logic of their own); the Russian texts (parameters) and
  the HTML of \<^verbatim>\<open>core/openapi.py\<close>; what the renderers of \<^verbatim>\<open>core/logging.py\<close> print, and log records in general (they
  do not come back to the program); the parsing of JSON into typed fields and of paths into routes, which is
  pydantic's and FastAPI's; CORS, which is Starlette's (a parameter of the middleware stack); the failures of Redis beyond those three theories; tests and the load test.
\<close>

end
